theory Spec2Isabelle
  imports Complex_Main "HOL-Library.Sublist"
begin

section \<open>Data model\<close>

subsection \<open>Decimal values (decimal.js)\<close>

text \<open>
  Money values are \<^verbatim>\<open>Decimal\<close> objects of the decimal.js library, which is not part of the
  repository. The program never changes the configuration of the library, so the
  precision is 20 significant digits and the rounding mode is \<^verbatim>\<open>ROUND_HALF_UP\<close>: the
  constructor keeps its argument as it is, and \<^verbatim>\<open>plus\<close>, \<^verbatim>\<open>minus\<close>, \<^verbatim>\<open>times\<close> and
  \<^verbatim>\<open>dividedBy\<close> round the exact result to 20 significant digits, a tie going away from
  zero. A value is a finite decimal (\<open>Fin 0\<close> is the positive zero and \<open>NegZero\<close> the
  negative one), an infinity or NaN. The exponent limits of the library (\<open>9 * 10^15\<close>
  decimal places) are not modelled.
\<close>

datatype decimal = Fin rat | NegZero | PosInf | NegInf | NaN

text \<open>The number of decimal digits of a natural number.\<close>

fun digits :: "nat \<Rightarrow> nat" where
  "digits n = (if n < 10 then 1 else Suc (digits (n div 10)))"

declare digits.simps [simp del]

text \<open>The exponent \<open>e\<close> of a positive rational: \<open>10^e \<le> x < 10^(e+1)\<close>.\<close>

definition decimal_exponent :: "rat \<Rightarrow> int" where
  "decimal_exponent x =
     (if 1 \<le> x then int (digits (nat \<lfloor>x\<rfloor>)) - 1
      else let d = digits (nat \<lfloor>1 / x\<rfloor>)
           in if 1 / x = 10 ^ (d - 1) then - int (d - 1) else - int d)"

text \<open>
  \<^verbatim>\<open>finalise(x, Decimal.precision, Decimal.rounding)\<close>: the nearest multiple of the unit in
  the 20th significant digit, a tie going away from zero.
\<close>

definition finalise :: "rat \<Rightarrow> rat" where
  "finalise x =
     (if x = 0 then 0
      else let e = decimal_exponent \<bar>x\<bar>;
               u = 10 powi (e - 19)
           in sgn x * of_int \<lfloor>\<bar>x\<bar> / u + 1 / 2\<rfloor> * u)"

definition isNaN :: "decimal \<Rightarrow> bool" where
  "isNaN x = (x = NaN)"

definition isFinite :: "decimal \<Rightarrow> bool" where
  "isFinite x = (case x of Fin a \<Rightarrow> True | NegZero \<Rightarrow> True | _ \<Rightarrow> False)"

definition isZero :: "decimal \<Rightarrow> bool" where
  "isZero x = (x = Fin 0 \<or> x = NegZero)"

text \<open>The sign of a value that is not NaN is negative.\<close>

definition isNegative :: "decimal \<Rightarrow> bool" where
  "isNegative x = (case x of Fin a \<Rightarrow> a < 0 | NegZero \<Rightarrow> True | NegInf \<Rightarrow> True | _ \<Rightarrow> False)"

definition rat_of :: "decimal \<Rightarrow> rat" where
  "rat_of x = (case x of Fin a \<Rightarrow> a | _ \<Rightarrow> 0)"

definition inf_of_sign :: "bool \<Rightarrow> decimal" where
  "inf_of_sign positive = (if positive then PosInf else NegInf)"

definition zero_of_sign :: "bool \<Rightarrow> decimal" where
  "zero_of_sign positive = (if positive then Fin 0 else NegZero)"

definition dneg :: "decimal \<Rightarrow> decimal" where
  "dneg x =
     (case x of
        Fin a \<Rightarrow> if a = 0 then NegZero else Fin (- a)
      | NegZero \<Rightarrow> Fin 0
      | PosInf \<Rightarrow> NegInf
      | NegInf \<Rightarrow> PosInf
      | NaN \<Rightarrow> NaN)"

text \<open>
  \<^verbatim>\<open>plus\<close>: the sum of two zeros is negative only when both are; every other zero result
  is positive.
\<close>

definition plus_d :: "decimal \<Rightarrow> decimal \<Rightarrow> decimal" where
  "plus_d x y =
     (if isNaN x \<or> isNaN y then NaN
      else if \<not> isFinite x then (if isFinite y \<or> x = y then x else NaN)
      else if \<not> isFinite y then y
      else if x = NegZero \<and> y = NegZero then NegZero
      else Fin (finalise (rat_of x + rat_of y)))"

definition minus_d :: "decimal \<Rightarrow> decimal \<Rightarrow> decimal" where
  "minus_d x y = plus_d x (dneg y)"

definition times_d :: "decimal \<Rightarrow> decimal \<Rightarrow> decimal" where
  "times_d x y =
     (if isNaN x \<or> isNaN y then NaN
      else if isZero x \<or> isZero y
      then (if isFinite x \<and> isFinite y then zero_of_sign (isNegative x = isNegative y) else NaN)
      else if \<not> isFinite x \<or> \<not> isFinite y then inf_of_sign (isNegative x = isNegative y)
      else Fin (finalise (rat_of x * rat_of y)))"

definition dividedBy :: "decimal \<Rightarrow> decimal \<Rightarrow> decimal" where
  "dividedBy x y =
     (if isNaN x \<or> isNaN y then NaN
      else if (isZero x \<and> isZero y) \<or> (\<not> isFinite x \<and> \<not> isFinite y) then NaN
      else if isZero x \<or> \<not> isFinite y then zero_of_sign (isNegative x = isNegative y)
      else if isZero y \<or> \<not> isFinite x then inf_of_sign (isNegative x = isNegative y)
      else Fin (finalise (rat_of x / rat_of y)))"

text \<open>Comparisons are exact; the two zeros are equal and NaN compares with nothing.\<close>

definition greaterThan_d :: "decimal \<Rightarrow> decimal \<Rightarrow> bool" where
  "greaterThan_d x y =
     (if isNaN x \<or> isNaN y then False
      else if x = PosInf then y \<noteq> PosInf
      else if y = NegInf then x \<noteq> NegInf
      else if x = NegInf \<or> y = PosInf then False
      else rat_of y < rat_of x)"

definition eq_d :: "decimal \<Rightarrow> decimal \<Rightarrow> bool" where
  "eq_d x y =
     (if isNaN x \<or> isNaN y then False
      else if isFinite x \<and> isFinite y then rat_of x = rat_of y
      else x = y)"

definition greaterThanOrEqualTo :: "decimal \<Rightarrow> decimal \<Rightarrow> bool" where
  "greaterThanOrEqualTo x y = (greaterThan_d x y \<or> eq_d x y)"

definition lessThanOrEqualTo :: "decimal \<Rightarrow> decimal \<Rightarrow> bool" where
  "lessThanOrEqualTo x y = greaterThanOrEqualTo y x"

subsection \<open>Numbers, strings and dates of JavaScript\<close>

text \<open>
  A JavaScript number is a double. A finite one is identified with the decimal that its
  shortest round-trip representation denotes, which is what \<^verbatim>\<open>String(x)\<close> prints and
  what \<^verbatim>\<open>new Decimal(x)\<close> takes as its value; this identification keeps the order, the
  integers and the halves, so comparisons, \<^verbatim>\<open>Math.round\<close> and the truncation of
  \<^verbatim>\<open>new Date(x)\<close> are exact on it. The numbers of the API payloads can also be infinite
  (a JSON literal beyond the range of a double; the schemas accept it); NaN is rejected by
  the schemas. The zero \<^verbatim>\<open>-0\<close> is falsy like \<^verbatim>\<open>0\<close> and is identified with it.
\<close>

datatype js_number = Num rat | PosInfinity | NegInfinity

definition truthy :: "js_number \<Rightarrow> bool" where
  "truthy x = (x \<noteq> Num 0)"

text \<open>\<^verbatim>\<open>new Decimal(x)\<close> for a number \<open>x\<close>.\<close>

definition Decimal_of_number :: "js_number \<Rightarrow> decimal" where
  "Decimal_of_number x =
     (case x of Num a \<Rightarrow> Fin a | PosInfinity \<Rightarrow> PosInf | NegInfinity \<Rightarrow> NegInf)"

text \<open>A string is a sequence of UTF-16 code units.\<close>

type_synonym js_string = "nat list"

definition utf16 :: "string \<Rightarrow> js_string" where
  "utf16 s = map of_char s"

text \<open>A JavaScript \<^verbatim>\<open>Date\<close>: a time value in milliseconds, or the invalid date (time value NaN).\<close>

datatype jsdate = Date int | InvalidDate

text \<open>\<^verbatim>\<open>new Date(x)\<close> for a number \<open>x\<close>: the time value is truncated and clipped.\<close>

definition Date_of_number :: "js_number \<Rightarrow> jsdate" where
  "Date_of_number x =
     (case x of
        Num t \<Rightarrow> if \<bar>t\<bar> \<le> 8640000000000000
                 then Date (if 0 \<le> t then \<lfloor>t\<rfloor> else \<lceil>t\<rceil>) else InvalidDate
      | _ \<Rightarrow> InvalidDate)"

text \<open>
  What the model takes from the JavaScript runtime and from the libraries without
  defining it: the arithmetic of doubles (each operation returns the double nearest to
  the exact result, so \<^verbatim>\<open>1 - 0.99\<close> is \<^verbatim>\<open>0.010000000000000009\<close>), on finite operands with
  a finite result; \<^verbatim>\<open>String.prototype.toLowerCase\<close>; \<^verbatim>\<open>JSON.parse\<close> at the declared type
  \<^verbatim>\<open>string[]\<close> (\<open>None\<close> when it throws); \<^verbatim>\<open>new Decimal(string)\<close> (\<open>None\<close> when it throws)
  and \<^verbatim>\<open>new Date(string)\<close>.
\<close>

record js_lib =
  number_minus :: "rat \<Rightarrow> rat \<Rightarrow> rat"
  number_times :: "rat \<Rightarrow> rat \<Rightarrow> rat"
  number_divide :: "rat \<Rightarrow> rat \<Rightarrow> rat"
  toLowerCase :: "js_string \<Rightarrow> js_string"
  JSON_parse :: "string \<Rightarrow> string list option"
  Decimal_of_string :: "string \<Rightarrow> decimal option"
  Date_of_string :: "string \<Rightarrow> jsdate"

text \<open>\<^verbatim>\<open>Math.round\<close> rounds half up.\<close>

definition Math_round :: "rat \<Rightarrow> int" where
  "Math_round x = \<lfloor>x + 1 / 2\<rfloor>"

subsection \<open>Types of the program (types.ts)\<close>

datatype platform = POLYMARKET | KALSHI | MANIFOLD

record outcome =
  name :: string
  price :: decimal

record StandardMarket =
  market_id :: string
  platform :: platform
  title :: js_string
  outcomes :: "outcome list"
  url :: string
  category :: "string option"
  endDate :: "jsdate option"
  liquidity :: "decimal option"

datatype matched_by = exact | fuzzy | manual

record MarketMatch =
  match_marketA :: StandardMarket
  match_marketB :: StandardMarket
  score :: int
  matchedBy :: matched_by

record ArbitrageOpportunity =
  marketA :: StandardMarket
  marketB :: StandardMarket
  outcomeA :: string
  outcomeB :: string
  priceA :: decimal
  priceB :: decimal
  totalCost :: decimal
  feesA :: decimal
  feesB :: decimal
  totalFees :: decimal
  netCost :: decimal
  profitMargin :: decimal
  roi :: decimal
  isProfitable :: bool
  timestamp :: int

record PlatformFees =
  fee_platform :: platform
  tradingFee :: decimal

text \<open>Exceptions of the JavaScript runtime and of the libraries, as values.\<close>

datatype js_error =
    TypeError
  | SyntaxError
  | DecimalError
  | ZodError
  | AxiosError "nat option" "int option"
      \<comment> \<open>the status of the response, if there is one, and its parsed \<^verbatim>\<open>Retry-After\<close>\<close>
  | Error string
  | ScannerError
  | ValidationError
  | APIError "nat option"
  | RateLimitError "int option"

section \<open>Calculator (calculator/index.ts)\<close>

definition platformFees :: "PlatformFees list" where
  "platformFees =
     [\<lparr>fee_platform = POLYMARKET, tradingFee = Fin (2 / 100)\<rparr>,
      \<lparr>fee_platform = KALSHI, tradingFee = Fin (7 / 100)\<rparr>,
      \<lparr>fee_platform = MANIFOLD, tradingFee = Fin 0\<rparr>]"

definition getFeeRate :: "platform \<Rightarrow> decimal" where
  "getFeeRate p =
     (case find (\<lambda>f. fee_platform f = p) platformFees of
        Some feeConfig \<Rightarrow> tradingFee feeConfig
      | None \<Rightarrow> Fin 0)"

text \<open>
  \<^verbatim>\<open>calculateArbitrage\<close>: reading \<^verbatim>\<open>.price\<close> of an outcome index that is out of range is
  a \<^verbatim>\<open>TypeError\<close> in the source. The wall-clock time of the call is the parameter \<open>now\<close>.
\<close>

definition calculateArbitrage ::
  "int \<Rightarrow> StandardMarket \<Rightarrow> StandardMarket \<Rightarrow> nat \<Rightarrow> nat \<Rightarrow> js_error + ArbitrageOpportunity option"
where
  "calculateArbitrage now mA mB outcomeIndexA outcomeIndexB =
     (if \<not> outcomeIndexA < length (outcomes mA) \<or> \<not> outcomeIndexB < length (outcomes mB)
      then Inl TypeError
      else
        let oA = outcomes mA ! outcomeIndexA;
            oB = outcomes mB ! outcomeIndexB;
            pA = price oA;
            pB = price oB;
            total = plus_d pA pB
        in if greaterThanOrEqualTo total (Fin 1) then Inr None
           else
             let feeRateA = getFeeRate (platform mA);
                 feeRateB = getFeeRate (platform mB);
                 fA = times_d pA feeRateA;
                 fB = times_d pB feeRateB;
                 fees = plus_d fA fB;
                 net = plus_d total fees;
                 margin = minus_d (Fin 1) net;
                 profitable = greaterThan_d margin (Fin 0);
                 r = (if profitable then times_d (dividedBy margin net) (Fin 100) else Fin 0)
             in Inr (Some \<lparr>marketA = mA, marketB = mB,
                           outcomeA = name oA, outcomeB = name oB,
                           priceA = pA, priceB = pB,
                           totalCost = total,
                           feesA = fA, feesB = fB, totalFees = fees,
                           netCost = net, profitMargin = margin,
                           roi = r, isProfitable = profitable,
                           timestamp = now\<rparr>))"

text \<open>\<^verbatim>\<open>if (opp) opportunities.push(opp)\<close>: a null result appends nothing.\<close>

definition push_opt :: "'a list \<Rightarrow> 'a option \<Rightarrow> 'a list" where
  "push_opt xs r = (case r of None \<Rightarrow> xs | Some x \<Rightarrow> xs @ [x])"

definition analyzeMarketPair :: "int \<Rightarrow> MarketMatch \<Rightarrow> js_error + ArbitrageOpportunity list" where
  "analyzeMarketPair now m =
     (let mA = match_marketA m; mB = match_marketB m in
      if length (outcomes mA) \<noteq> 2 \<or> length (outcomes mB) \<noteq> 2 then Inr []
      else
        case calculateArbitrage now mA mB 0 1 of
          Inl e \<Rightarrow> Inl e
        | Inr opp1 \<Rightarrow>
            (case calculateArbitrage now mA mB 1 0 of
               Inl e \<Rightarrow> Inl e
             | Inr opp2 \<Rightarrow> Inr (push_opt (push_opt [] opp1) opp2)))"

fun collectOpportunities :: "int \<Rightarrow> MarketMatch list \<Rightarrow> js_error + ArbitrageOpportunity list" where
  "collectOpportunities now [] = Inr []"
| "collectOpportunities now (m # ms) =
     (case analyzeMarketPair now m of
        Inl e \<Rightarrow> Inl e
      | Inr opps \<Rightarrow>
          (case collectOpportunities now ms of
             Inl e \<Rightarrow> Inl e
           | Inr rest \<Rightarrow> Inr (opps @ rest)))"

definition findArbitrageOpportunities ::
  "int \<Rightarrow> MarketMatch list \<Rightarrow> js_error + ArbitrageOpportunity list" where
  "findArbitrageOpportunities now matches =
     (case collectOpportunities now matches of
        Inl e \<Rightarrow> Inl e
      | Inr opportunities \<Rightarrow> Inr (filter isProfitable opportunities))"

section \<open>Matcher (matcher/index.ts)\<close>

text \<open>
  The regular expressions of the matcher have no \<^verbatim>\<open>u\<close> flag, so they see a title code
  unit by code unit: \<^verbatim>\<open>\w\<close> is \<^verbatim>\<open>[A-Za-z0-9_]\<close>, and \<^verbatim>\<open>\s\<close> is the white space and the line
  terminators of ECMAScript.
\<close>

definition is_word_char :: "nat \<Rightarrow> bool" where
  "is_word_char n =
     ((48 \<le> n \<and> n \<le> 57) \<or> (65 \<le> n \<and> n \<le> 90) \<or> (97 \<le> n \<and> n \<le> 122) \<or> n = 95)"

definition is_space_char :: "nat \<Rightarrow> bool" where
  "is_space_char n =
     ((9 \<le> n \<and> n \<le> 13) \<or> n = 32 \<or> n = 160 \<or> n = 5760 \<or> (8192 \<le> n \<and> n \<le> 8202) \<or>
      n = 8232 \<or> n = 8233 \<or> n = 8239 \<or> n = 8287 \<or> n = 12288 \<or> n = 65279)"

text \<open>\<^verbatim>\<open>.replace(/[^\w\s]/g, ' ')\<close>\<close>

definition replace_punctuation :: "js_string \<Rightarrow> js_string" where
  "replace_punctuation s =
     map (\<lambda>c. if is_word_char c \<or> is_space_char c then c else 32) s"

text \<open>
  \<^verbatim>\<open>.split(/\s+/)\<close>: the pieces between maximal runs of white space; a leading or a
  trailing run leaves an empty piece at that end, and the empty string splits into one
  empty piece.
\<close>

function split_whitespace :: "js_string \<Rightarrow> js_string list" where
  "split_whitespace s =
     (case dropWhile (\<lambda>c. \<not> is_space_char c) s of
        [] \<Rightarrow> [takeWhile (\<lambda>c. \<not> is_space_char c) s]
      | sp # rest \<Rightarrow>
          takeWhile (\<lambda>c. \<not> is_space_char c) s # split_whitespace (dropWhile is_space_char rest))"
  by pat_completeness auto
termination
proof (relation "measure length", goal_cases)
  case 1
  show ?case by simp
next
  case (2 s sp rest)
  have "length (dropWhile is_space_char rest) \<le> length rest"
    by (rule length_dropWhile_le)
  moreover have "length (dropWhile (\<lambda>c. \<not> is_space_char c) s) \<le> length s"
    by (rule length_dropWhile_le)
  ultimately show ?case using 2 by simp
qed

declare split_whitespace.simps [simp del]

definition stopWords :: "js_string list" where
  "stopWords =
     map utf16
       [''will'', ''the'', ''be'', ''in'', ''on'', ''at'', ''to'', ''a'', ''an'',
        ''is'', ''are'', ''was'', ''were'', ''for'', ''of'', ''by'', ''or'']"

definition extractKeywords :: "js_lib \<Rightarrow> js_string \<Rightarrow> js_string list" where
  "extractKeywords lib t =
     filter (\<lambda>word. 2 < length word \<and> word \<notin> set stopWords)
       (split_whitespace (replace_punctuation (toLowerCase lib t)))"

text \<open>
  \<^verbatim>\<open>Math.abs(a.getTime() - b.getTime()) / (1000 * 60 * 60 * 24)\<close>: \<open>None\<close> is the NaN that
  an invalid date gives; every comparison with it is false. The difference of two time
  values is an integer below \<open>2^54\<close>, and the division of doubles is monotone, so the
  comparison of the quotient with 30 is the comparison of the exact quotient.
\<close>

definition daysDiff :: "jsdate \<Rightarrow> jsdate \<Rightarrow> rat option" where
  "daysDiff a b =
     (case (a, b) of
        (Date ta, Date tb) \<Rightarrow> Some (of_int \<bar>ta - tb\<bar> / (1000 * 60 * 60 * 24))
      | _ \<Rightarrow> None)"

definition candidate_passes :: "js_lib \<Rightarrow> StandardMarket \<Rightarrow> StandardMarket \<Rightarrow> bool" where
  "candidate_passes lib targetMarket candidate =
     (if (case (endDate targetMarket, endDate candidate) of
            (Some da, Some db) \<Rightarrow> (case daysDiff da db of Some d \<Rightarrow> 30 < d | None \<Rightarrow> False)
          | _ \<Rightarrow> False)
      then False
      else
        let wordsA = extractKeywords lib (title targetMarket);
            wordsB = extractKeywords lib (title candidate);
            hasOverlap = list_ex (\<lambda>word. word \<in> set wordsB) wordsA
        in if \<not> hasOverlap then False
           else if length (outcomes targetMarket) \<noteq> length (outcomes candidate) then False
           else True)"

definition preFilterCandidates ::
  "js_lib \<Rightarrow> StandardMarket \<Rightarrow> StandardMarket list \<Rightarrow> StandardMarket list" where
  "preFilterCandidates lib targetMarket candidateMarkets =
     filter (candidate_passes lib targetMarket) candidateMarkets"

text \<open>
  The fuzzy ranker is the Fuse.js library, which is not part of the repository. It is a
  parameter: \<open>search q cs\<close> stands for
  \<^verbatim>\<open>new Fuse(cs, {keys: ['title'], includeScore: true, threshold: 0.40, ...}).search(q)\<close>.
  The score of a result is a finite number, or absent.
\<close>

record FuseResult =
  item :: StandardMarket
  fuse_score :: "rat option"

type_synonym fuse_search = "js_string \<Rightarrow> StandardMarket list \<Rightarrow> FuseResult list"

text \<open>
  \<^verbatim>\<open>Math.round((1 - (bestResult.score || 0)) * 100)\<close>: the difference and the product are
  operations on doubles. \<^verbatim>\<open>findBestMatch\<close> takes the first result as it is; it does not
  compare its score with the threshold.
\<close>

definition findBestMatch ::
  "js_lib \<Rightarrow> fuse_search \<Rightarrow> StandardMarket \<Rightarrow> StandardMarket list \<Rightarrow> MarketMatch option" where
  "findBestMatch lib search targetMarket candidates =
     (case search (title targetMarket) candidates of
        [] \<Rightarrow> None
      | bestResult # _ \<Rightarrow>
          let confidenceScore =
                Math_round
                  (number_times lib
                     (number_minus lib 1 (case fuse_score bestResult of Some d \<Rightarrow> d | None \<Rightarrow> 0))
                     100)
          in Some \<lparr>match_marketA = targetMarket, match_marketB = item bestResult,
                   score = confidenceScore, matchedBy = fuzzy\<rparr>)"

fun findMatches ::
  "js_lib \<Rightarrow> fuse_search \<Rightarrow> StandardMarket list \<Rightarrow> StandardMarket list \<Rightarrow> MarketMatch list" where
  "findMatches lib search [] marketsB = []"
| "findMatches lib search (mA # rest) marketsB =
     (let candidates = preFilterCandidates lib mA marketsB in
      if length candidates = 0 then findMatches lib search rest marketsB
      else case findBestMatch lib search mA candidates of
             Some bestMatch \<Rightarrow> bestMatch # findMatches lib search rest marketsB
           | None \<Rightarrow> findMatches lib search rest marketsB)"

section \<open>Error taxonomy (utils/errors.ts)\<close>

text \<open>\<^verbatim>\<open>RateLimitError\<close> extends \<^verbatim>\<open>APIError\<close> and fixes the status code to 429.\<close>

definition isAPIError :: "js_error \<Rightarrow> bool" where
  "isAPIError e = (case e of APIError _ \<Rightarrow> True | RateLimitError _ \<Rightarrow> True | _ \<Rightarrow> False)"

definition statusCode :: "js_error \<Rightarrow> nat option" where
  "statusCode e = (case e of APIError s \<Rightarrow> s | RateLimitError _ \<Rightarrow> Some 429 | _ \<Rightarrow> None)"

definition isRetryable :: "js_error \<Rightarrow> bool" where
  "isRetryable e =
     (case statusCode e of
        None \<Rightarrow> True
      | Some c \<Rightarrow> if c = 0 then True else if 500 \<le> c then True else if c = 429 then True else False)"

definition classifyError :: "js_error \<Rightarrow> js_error" where
  "classifyError error =
     (case error of
        AxiosError st retryAfter \<Rightarrow>
          (if st = Some 429 then RateLimitError retryAfter
           else case st of Some c \<Rightarrow> APIError (Some c) | None \<Rightarrow> APIError None)
      | ZodError \<Rightarrow> ValidationError
      | _ \<Rightarrow> ScannerError)"

section \<open>Retry driver (utils/helpers.ts)\<close>

text \<open>
  \<open>fn i\<close> is the outcome of the call of \<^verbatim>\<open>fn\<close> made in iteration \<open>i\<close> of the loop. A run
  returns what the caller sees, the number of calls of \<^verbatim>\<open>fn\<close> and the delays slept, in
  order.
\<close>

record RetryOptions =
  maxRetries :: int
  initialDelay :: int
  maxDelay :: int
  shouldRetry :: "js_error \<Rightarrow> bool"

definition defaultRetryOptions :: RetryOptions where
  "defaultRetryOptions =
     \<lparr>maxRetries = 3, initialDelay = 1000, maxDelay = 10000, shouldRetry = (\<lambda>_. True)\<rparr>"

record 'a RetryRun =
  outcome_of :: "js_error + 'a"
  attempts :: nat
  sleeps :: "int list"

function retry_loop ::
  "(nat \<Rightarrow> js_error + 'a) \<Rightarrow> RetryOptions \<Rightarrow> nat \<Rightarrow> int list \<Rightarrow> 'a RetryRun" where
  "retry_loop fn opts i slept =
     (if int i < maxRetries opts then
        (case fn i of
           Inr v \<Rightarrow> \<lparr>outcome_of = Inr v, attempts = i + 1, sleeps = slept\<rparr>
         | Inl error \<Rightarrow>
             if int i = maxRetries opts - 1
             then \<lparr>outcome_of = Inl error, attempts = i + 1, sleeps = slept\<rparr>
             else if \<not> shouldRetry opts error
             then \<lparr>outcome_of = Inl error, attempts = i + 1, sleeps = slept\<rparr>
             else retry_loop fn opts (i + 1)
                    (slept @ [min (initialDelay opts * 2 ^ i) (maxDelay opts)]))
      else \<lparr>outcome_of = Inl (Error ''Retry failed''), attempts = i, sleeps = slept\<rparr>)"
  by pat_completeness auto
termination
  by (relation "measure (\<lambda>(fn, opts, i, slept). nat (maxRetries opts - int i))") auto

declare retry_loop.simps [simp del]

definition retryWithBackoff :: "(nat \<Rightarrow> js_error + 'a) \<Rightarrow> RetryOptions \<Rightarrow> 'a RetryRun" where
  "retryWithBackoff fn opts = retry_loop fn opts 0 []"

section \<open>Adapters (adapters/kalshi.ts, adapters/manifold.ts, adapters/polymarket.ts)\<close>

text \<open>
  What \<^verbatim>\<open>axios.get\<close> followed by the Zod schema gives: a payload that passed the schema,
  a payload that did not, or an exception of the request. The rate limiter only delays
  the call and is not modelled.
\<close>

datatype 'a api_response = Validated 'a | SchemaMismatch | RequestFailed js_error

definition adapterShouldRetry :: "js_error \<Rightarrow> bool" where
  "adapterShouldRetry error = (if isAPIError error then isRetryable error else False)"

definition adapterRetryOptions :: RetryOptions where
  "adapterRetryOptions =
     \<lparr>maxRetries = 3, initialDelay = 1000, maxDelay = 10000, shouldRetry = adapterShouldRetry\<rparr>"

subsection \<open>Kalshi\<close>

datatype kalshi_market_type = binary | scalar

record KalshiMarket =
  ticker :: string
  event_ticker :: string
  market_type :: kalshi_market_type
  k_title :: js_string
  k_status :: string
  close_time :: string
  yes_ask :: "js_number option"
  no_ask :: "js_number option"
  k_liquidity :: "js_number option"
  k_category :: "string option"

text \<open>
  \<^verbatim>\<open>market.yes_ask ? market.yes_ask / 100 : 0\<close>: the quotient is a quotient of doubles; an
  infinite ask stays infinite.
\<close>

definition cents_or_zero :: "js_lib \<Rightarrow> js_number option \<Rightarrow> js_number" where
  "cents_or_zero lib ask =
     (case ask of
        Some a \<Rightarrow>
          if truthy a
          then (case a of Num q \<Rightarrow> Num (number_divide lib q 100) | _ \<Rightarrow> a)
          else Num 0
      | None \<Rightarrow> Num 0)"

definition toStandardMarket_kalshi :: "js_lib \<Rightarrow> KalshiMarket \<Rightarrow> StandardMarket" where
  "toStandardMarket_kalshi lib market =
     (let yesPrice = cents_or_zero lib (yes_ask market);
          noPrice = cents_or_zero lib (no_ask market)
      in \<lparr>market_id = ticker market,
          platform = KALSHI,
          title = k_title market,
          outcomes = [\<lparr>name = ''YES'', price = Decimal_of_number yesPrice\<rparr>,
                      \<lparr>name = ''NO'', price = Decimal_of_number noPrice\<rparr>],
          url = ''https://kalshi.com/markets/'' @ ticker market,
          category = (case k_category market of
                        Some c \<Rightarrow> if c = [] then None else Some c | None \<Rightarrow> None),
          endDate = (if close_time market = [] then None
                     else Some (Date_of_string lib (close_time market))),
          liquidity = (case k_liquidity market of
                         Some l \<Rightarrow> if truthy l
                                   then Some (dividedBy (Decimal_of_number l) (Fin 100))
                                   else None
                       | None \<Rightarrow> None)\<rparr>)"

definition kalshi_operation :: "js_lib \<Rightarrow> KalshiMarket list api_response \<Rightarrow> js_error + StandardMarket list" where
  "kalshi_operation lib resp =
     (case (case resp of
              RequestFailed e \<Rightarrow> Inl e
            | SchemaMismatch \<Rightarrow> Inl ValidationError
            | Validated markets \<Rightarrow>
                Inr (map (toStandardMarket_kalshi lib)
                       (filter (\<lambda>market. market_type market = binary \<and> yes_ask market \<noteq> None)
                          markets)))
      of Inl error \<Rightarrow> Inl (classifyError error)
       | Inr markets \<Rightarrow> Inr markets)"

definition fetchMarkets_kalshi ::
  "js_lib \<Rightarrow> (nat \<Rightarrow> KalshiMarket list api_response) \<Rightarrow> StandardMarket list RetryRun" where
  "fetchMarkets_kalshi lib responses =
     retryWithBackoff (\<lambda>i. kalshi_operation lib (responses i)) adapterRetryOptions"

definition fetchMarketByTicker :: "js_lib \<Rightarrow> KalshiMarket api_response \<Rightarrow> js_error + StandardMarket option" where
  "fetchMarketByTicker lib resp =
     (case (case resp of
              RequestFailed e \<Rightarrow> Inl e
            | SchemaMismatch \<Rightarrow> Inl ValidationError
            | Validated validatedData \<Rightarrow> Inr (toStandardMarket_kalshi lib validatedData))
      of Inr market \<Rightarrow> Inr (Some market)
       | Inl error \<Rightarrow>
           let classifiedError = classifyError error in
           if isAPIError classifiedError \<and> statusCode classifiedError = Some 404
           then Inr None
           else Inl classifiedError)"

subsection \<open>Manifold\<close>

record ManifoldMarket =
  mf_id :: string
  mf_question :: js_string
  mf_url :: string
  closeTime :: "js_number option"
  outcomeType :: string
  probability :: "js_number option"
  isResolved :: bool
  totalLiquidity :: "js_number option"

definition isBinaryMarket :: "ManifoldMarket \<Rightarrow> bool" where
  "isBinaryMarket market =
     (outcomeType market = ''BINARY'' \<and> \<not> isResolved market \<and> probability market \<noteq> None)"

text \<open>\<^verbatim>\<open>1 - probability\<close>: a difference of doubles; an infinity changes its sign.\<close>

definition one_minus :: "js_lib \<Rightarrow> js_number \<Rightarrow> js_number" where
  "one_minus lib p =
     (case p of
        Num q \<Rightarrow> Num (number_minus lib 1 q)
      | PosInfinity \<Rightarrow> NegInfinity
      | NegInfinity \<Rightarrow> PosInfinity)"

definition toStandardMarket_manifold :: "js_lib \<Rightarrow> ManifoldMarket \<Rightarrow> StandardMarket" where
  "toStandardMarket_manifold lib market =
     (let p = (case probability market of
                 Some q \<Rightarrow> if truthy q then q else Num (1 / 2)
               | None \<Rightarrow> Num (1 / 2));
          yesPrice = Decimal_of_number p;
          noPrice = Decimal_of_number (one_minus lib p)
      in \<lparr>market_id = mf_id market,
          platform = MANIFOLD,
          title = mf_question market,
          outcomes = [\<lparr>name = ''Yes'', price = yesPrice\<rparr>, \<lparr>name = ''No'', price = noPrice\<rparr>],
          url = mf_url market,
          category = None,
          endDate = (case closeTime market of
                       Some t \<Rightarrow> if truthy t then Some (Date_of_number t) else None
                     | None \<Rightarrow> None),
          liquidity = (case totalLiquidity market of
                         Some l \<Rightarrow> if truthy l then Some (Decimal_of_number l) else None
                       | None \<Rightarrow> None)\<rparr>)"

definition manifold_operation ::
  "js_lib \<Rightarrow> nat \<Rightarrow> ManifoldMarket list api_response \<Rightarrow> js_error + StandardMarket list" where
  "manifold_operation lib limit resp =
     (case (case resp of
              RequestFailed e \<Rightarrow> Inl e
            | SchemaMismatch \<Rightarrow> Inl ValidationError
            | Validated validatedData \<Rightarrow>
                Inr (map (toStandardMarket_manifold lib)
                       (take limit (filter isBinaryMarket validatedData))))
      of Inl error \<Rightarrow> Inl (classifyError error)
       | Inr markets \<Rightarrow> Inr markets)"

definition fetchMarkets_manifold ::
  "js_lib \<Rightarrow> nat \<Rightarrow> (nat \<Rightarrow> ManifoldMarket list api_response) \<Rightarrow> StandardMarket list RetryRun" where
  "fetchMarkets_manifold lib limit responses =
     retryWithBackoff (\<lambda>i. manifold_operation lib limit (responses i)) adapterRetryOptions"

subsection \<open>PolyMarket\<close>

record PolyMarketEvent =
  pm_id :: string
  question :: js_string
  endDateIso :: "string option"
  groupItemTitle :: "string option"
  outcomes_json :: string
  outcomePrices :: string
  pm_liquidity :: "string option"

text \<open>
  \<^verbatim>\<open>outcomes.map((name, index) => ({name, price: new Decimal(prices[index])}))\<close>: past the
  end of \<^verbatim>\<open>prices\<close> the constructor gets \<^verbatim>\<open>undefined\<close> and throws.
\<close>

fun map_outcomes :: "js_lib \<Rightarrow> string list \<Rightarrow> nat \<Rightarrow> string list \<Rightarrow> js_error + outcome list" where
  "map_outcomes lib prices index [] = Inr []"
| "map_outcomes lib prices index (nm # names) =
     (if \<not> index < length prices then Inl DecimalError
      else case Decimal_of_string lib (prices ! index) of
             None \<Rightarrow> Inl DecimalError
           | Some p \<Rightarrow>
               (case map_outcomes lib prices (index + 1) names of
                  Inl e \<Rightarrow> Inl e
                | Inr rest \<Rightarrow> Inr (\<lparr>name = nm, price = p\<rparr> # rest)))"

definition toStandardMarket_pm :: "js_lib \<Rightarrow> PolyMarketEvent \<Rightarrow> js_error + StandardMarket" where
  "toStandardMarket_pm lib market =
     (case JSON_parse lib (outcomes_json market) of
        None \<Rightarrow> Inl SyntaxError
      | Some names \<Rightarrow>
     (case JSON_parse lib (outcomePrices market) of
        None \<Rightarrow> Inl SyntaxError
      | Some prices \<Rightarrow>
     (case map_outcomes lib prices 0 names of
        Inl e \<Rightarrow> Inl e
      | Inr outs \<Rightarrow>
     (case (case pm_liquidity market of
              None \<Rightarrow> Inr None
            | Some l \<Rightarrow> if l = [] then Inr None
                        else (case Decimal_of_string lib l of
                                None \<Rightarrow> Inl DecimalError | Some d \<Rightarrow> Inr (Some d)))
      of Inl e \<Rightarrow> Inl e
       | Inr liq \<Rightarrow>
           Inr \<lparr>market_id = pm_id market,
                platform = POLYMARKET,
                title = question market,
                outcomes = outs,
                url = ''https://polymarket.com/event/'' @ pm_id market,
                category = (case groupItemTitle market of
                              Some g \<Rightarrow> if g = [] then None else Some g | None \<Rightarrow> None),
                endDate = (case endDateIso market of
                             Some d \<Rightarrow> if d = [] then None else Some (Date_of_string lib d)
                           | None \<Rightarrow> None),
                liquidity = liq\<rparr>))))"

fun map_events :: "js_lib \<Rightarrow> PolyMarketEvent list \<Rightarrow> js_error + StandardMarket list" where
  "map_events lib [] = Inr []"
| "map_events lib (ev # evs) =
     (case toStandardMarket_pm lib ev of
        Inl e \<Rightarrow> Inl e
      | Inr m \<Rightarrow> (case map_events lib evs of Inl e \<Rightarrow> Inl e | Inr ms \<Rightarrow> Inr (m # ms)))"

definition pm_operation :: "js_lib \<Rightarrow> PolyMarketEvent list api_response \<Rightarrow> js_error + StandardMarket list" where
  "pm_operation lib resp =
     (case (case resp of
              RequestFailed e \<Rightarrow> Inl e
            | SchemaMismatch \<Rightarrow> Inl ValidationError
            | Validated validatedData \<Rightarrow> map_events lib validatedData)
      of Inl error \<Rightarrow> Inl (classifyError error)
       | Inr markets \<Rightarrow> Inr markets)"

definition fetchMarkets_pm ::
  "js_lib \<Rightarrow> (nat \<Rightarrow> PolyMarketEvent list api_response) \<Rightarrow> StandardMarket list RetryRun" where
  "fetchMarkets_pm lib responses =
     retryWithBackoff (\<lambda>i. pm_operation lib (responses i)) adapterRetryOptions"

text \<open>
  \<^verbatim>\<open>fetchMarketById\<close> classifies the error only to log it; every failure ends in
  \<^verbatim>\<open>return null\<close>.
\<close>

definition fetchMarketById :: "js_lib \<Rightarrow> PolyMarketEvent api_response \<Rightarrow> js_error + StandardMarket option" where
  "fetchMarketById lib resp =
     (case (case resp of
              RequestFailed e \<Rightarrow> Inl e
            | SchemaMismatch \<Rightarrow> Inl ValidationError
            | Validated validatedData \<Rightarrow> toStandardMarket_pm lib validatedData)
      of Inr market \<Rightarrow> Inr (Some market)
       | Inl error \<Rightarrow> (let classifiedError = classifyError error in Inr None))"

text \<open>\<^verbatim>\<open>isValidMarket\<close> of utils/helpers.ts; no adapter calls it.\<close>

definition isValidMarket :: "StandardMarket \<Rightarrow> bool" where
  "isValidMarket market =
     (0 < length (market_id market) \<and> 0 < length (title market) \<and>
      2 \<le> length (outcomes market) \<and>
      list_all (\<lambda>p. greaterThanOrEqualTo (price p) (Fin 0) \<and> lessThanOrEqualTo (price p) (Fin 1))
        (outcomes market))"

section \<open>Cache (services/redis.ts)\<close>

text \<open>
  The Redis server is a map from keys to a value and the time, in seconds, at which the
  key expires. Values are kept as the objects that were stored; what the JSON round trip
  changes is applied when they are read back (\<open>deserializeMarkets\<close>). Every command can
  fail: the flag \<open>ok\<close> of an operation says whether the Redis command of this call
  succeeded, and \<^verbatim>\<open>Cache.get\<close> and \<^verbatim>\<open>Cache.set\<close> catch the failure. Their log lines are
  not modelled.
\<close>

record ScanResult =
  sr_timestamp :: int
  sr_opportunities :: "ArbitrageOpportunity list"
  marketsScanned :: "string \<rightharpoonup> nat"
  matchesFound :: nat
  duration :: int

datatype cache_value =
    CachedMarkets "StandardMarket list"
  | CachedAlert int
  | CachedScan ScanResult

type_synonym redis = "string \<rightharpoonup> (cache_value \<times> int)"

definition Cache_set :: "bool \<Rightarrow> int \<Rightarrow> string \<Rightarrow> cache_value \<Rightarrow> int \<Rightarrow> redis \<Rightarrow> redis" where
  "Cache_set ok now key v ttlSeconds db = (if ok then db(key \<mapsto> (v, now + ttlSeconds)) else db)"

definition Cache_get :: "bool \<Rightarrow> int \<Rightarrow> string \<Rightarrow> redis \<Rightarrow> cache_value option" where
  "Cache_get ok now key db =
     (if ok then
        (case db key of
           Some (v, expiry) \<Rightarrow> if now < expiry then Some v else None
         | None \<Rightarrow> None)
      else None)"

definition CacheKeys_markets :: "string \<Rightarrow> string" where
  "CacheKeys_markets p = ''markets:'' @ p"

definition CacheKeys_opportunities :: string where
  "CacheKeys_opportunities = ''opportunities:latest''"

definition CacheKeys_scanResults :: "string \<Rightarrow> string" where
  "CacheKeys_scanResults ts = ''scan:results:'' @ ts"

definition CacheKeys_alertSent :: "string \<Rightarrow> string \<Rightarrow> string" where
  "CacheKeys_alertSent marketAId marketBId = ''alert:sent:'' @ marketAId @ '':'' @ marketBId"

section \<open>Alert dispatcher (services/alerts.ts)\<close>

record AlertConfig =
  enabled :: bool
  discordWebhook :: string
  minProfitPercent :: rat
  minProfitAmount :: rat
  cooldownMinutes :: int

datatype log_entry = LogDebug string | LogInfo string | LogError string | LogSuccess string

text \<open>
  The state the dispatcher and the worker act on: the Redis server, the webhook POSTs
  issued so far (each with the opportunity its embed was formatted from), the log and the
  adapters invoked so far.
\<close>

record world =
  store :: redis
  posts :: "ArbitrageOpportunity list"
  logs :: "log_entry list"
  adapter_calls :: "string list"

text \<open>
  \<^verbatim>\<open>.toNumber()\<close> is taken as exact, so the two comparisons of numbers are comparisons of
  the decimals.
\<close>

definition meetsAlertThreshold :: "AlertConfig \<Rightarrow> ArbitrageOpportunity \<Rightarrow> bool" where
  "meetsAlertThreshold cfg opportunity =
     (let profitPercent = times_d (roi opportunity) (Fin 100);
          profitAmount = profitMargin opportunity
      in greaterThanOrEqualTo profitPercent (Fin (minProfitPercent cfg)) \<and>
         greaterThanOrEqualTo profitAmount (Fin (minProfitAmount cfg)))"

text \<open>
  What one call of \<^verbatim>\<open>sendArbitrageAlert\<close> meets: the time of the call in seconds on the
  clock of the Redis server, what \<^verbatim>\<open>Date.now()\<close> returns (milliseconds), whether its
  Redis read and its Redis write succeed, and what \<^verbatim>\<open>fetch\<close> does with the POST.
\<close>

datatype fetch_outcome = FetchThrows | FetchResponse nat

record alert_env =
  call_time :: int
  date_now :: int
  get_ok :: bool
  webhook :: fetch_outcome
  set_ok :: bool

definition isInCooldown :: "alert_env \<Rightarrow> ArbitrageOpportunity \<Rightarrow> world \<Rightarrow> bool" where
  "isInCooldown env opportunity w =
     (let cacheKey = CacheKeys_alertSent (market_id (marketA opportunity))
                       (market_id (marketB opportunity))
      in Cache_get (get_ok env) (call_time env) cacheKey (store w) \<noteq> None)"

definition markAlerted :: "AlertConfig \<Rightarrow> alert_env \<Rightarrow> ArbitrageOpportunity \<Rightarrow> world \<Rightarrow> world" where
  "markAlerted cfg env opportunity w =
     (let cacheKey = CacheKeys_alertSent (market_id (marketA opportunity))
                       (market_id (marketB opportunity));
          ttl = cooldownMinutes cfg * 60
      in w\<lparr>store := Cache_set (set_ok env) (call_time env) cacheKey (CachedAlert (date_now env)) ttl (store w)\<rparr>)"

definition sendToDiscord ::
  "AlertConfig \<Rightarrow> alert_env \<Rightarrow> ArbitrageOpportunity \<Rightarrow> world \<Rightarrow> (js_error + unit) \<times> world" where
  "sendToDiscord cfg env embedded w =
     (if discordWebhook cfg = [] then (Inl (Error ''Discord webhook URL not configured''), w)
      else
        let w1 = w\<lparr>posts := posts w @ [embedded]\<rparr> in
        case webhook env of
          FetchThrows \<Rightarrow>
            (Inl (Error ''fetch failed''),
             w1\<lparr>logs := logs w1 @ [LogError ''Failed to send Discord alert'']\<rparr>)
        | FetchResponse st \<Rightarrow>
            if 200 \<le> st \<and> st \<le> 299
            then (Inr (), w1\<lparr>logs := logs w1 @ [LogDebug ''Successfully sent Discord alert'']\<rparr>)
            else (Inl (Error ''Discord webhook failed''),
                  w1\<lparr>logs := logs w1 @ [LogError ''Failed to send Discord alert'']\<rparr>))"

text \<open>The body of the \<^verbatim>\<open>try\<close> block of \<^verbatim>\<open>sendArbitrageAlert\<close>.\<close>

definition sendArbitrageAlert_try ::
  "AlertConfig \<Rightarrow> alert_env \<Rightarrow> ArbitrageOpportunity \<Rightarrow> world \<Rightarrow> (js_error + unit) \<times> world" where
  "sendArbitrageAlert_try cfg env opportunity w =
     (if \<not> enabled cfg
      then (Inr (), w\<lparr>logs := logs w @ [LogDebug ''Alerts disabled, skipping'']\<rparr>)
      else if isInCooldown env opportunity w
      then (Inr (), w\<lparr>logs := logs w @ [LogDebug ''Alert cooldown active'']\<rparr>)
      else
        case sendToDiscord cfg env opportunity w of
          (Inl error, w1) \<Rightarrow> (Inl error, w1)
        | (Inr _, w1) \<Rightarrow>
            let w2 = markAlerted cfg env opportunity w1
            in (Inr (), w2\<lparr>logs := logs w2 @ [LogSuccess ''Alert sent for opportunity'']\<rparr>))"

definition sendArbitrageAlert ::
  "AlertConfig \<Rightarrow> alert_env \<Rightarrow> ArbitrageOpportunity \<Rightarrow> world \<Rightarrow> (js_error + unit) \<times> world" where
  "sendArbitrageAlert cfg env opportunity w =
     (case sendArbitrageAlert_try cfg env opportunity w of
        (Inl error, w1) \<Rightarrow> (Inr (), w1\<lparr>logs := logs w1 @ [LogError ''Failed to send alert'']\<rparr>)
      | (Inr u, w1) \<Rightarrow> (Inr u, w1))"

text \<open>
  \<^verbatim>\<open>sendAlerts\<close>: the calls are sequential; \<open>envs i\<close> is what call number \<open>i\<close> meets. The
  pause between the calls shows only in the times of the calls.
\<close>

fun sendAlerts_loop ::
  "AlertConfig \<Rightarrow> (nat \<Rightarrow> alert_env) \<Rightarrow> nat \<Rightarrow> ArbitrageOpportunity list \<Rightarrow> world \<Rightarrow> (js_error + unit) \<times> world" where
  "sendAlerts_loop cfg envs i [] w = (Inr (), w)"
| "sendAlerts_loop cfg envs i (opportunity # rest) w =
     (case sendArbitrageAlert cfg (envs i) opportunity w of
        (Inl error, w1) \<Rightarrow> (Inl error, w1)
      | (Inr _, w1) \<Rightarrow> sendAlerts_loop cfg envs (i + 1) rest w1)"

definition sendAlerts ::
  "AlertConfig \<Rightarrow> (nat \<Rightarrow> alert_env) \<Rightarrow> ArbitrageOpportunity list \<Rightarrow> world \<Rightarrow> (js_error + unit) \<times> world" where
  "sendAlerts cfg envs opportunities w =
     (if length opportunities = 0 then (Inr (), w)
      else sendAlerts_loop cfg envs 0 opportunities
             (w\<lparr>logs := logs w @ [LogInfo ''Sending alerts'']\<rparr>))"

section \<open>Queue worker (services/queue.ts)\<close>

record ScanJobData =
  platformA :: string
  platformB :: string
  limit :: nat

text \<open>
  What one call of \<^verbatim>\<open>fetchMarketsWithCache\<close> meets: the time in seconds, whether its Redis
  read and write succeed, and what \<^verbatim>\<open>fetchMarkets(limit)\<close> of each adapter would return
  or throw if it were called.
\<close>

record fetch_env =
  fe_now :: int
  fe_get_ok :: bool
  fe_set_ok :: bool
  polymarket_fetchMarkets :: "nat \<Rightarrow> js_error + StandardMarket list"
  manifold_fetchMarkets :: "nat \<Rightarrow> js_error + StandardMarket list"

text \<open>
  An invalid date is stored as \<^verbatim>\<open>null\<close> by \<^verbatim>\<open>JSON.stringify\<close> and read back as no date;
  decimals and valid dates come back as they were.
\<close>

definition deserializeMarkets :: "StandardMarket list \<Rightarrow> StandardMarket list" where
  "deserializeMarkets markets =
     map (\<lambda>market. market\<lparr>endDate := (case endDate market of
                                          Some InvalidDate \<Rightarrow> None | d \<Rightarrow> d)\<rparr>) markets"

definition fetchMarketsWithCache ::
  "fetch_env \<Rightarrow> string \<Rightarrow> nat \<Rightarrow> world \<Rightarrow> (js_error + StandardMarket list) \<times> world" where
  "fetchMarketsWithCache env p lmt w =
     (let cacheKey = CacheKeys_markets p in
      case Cache_get (fe_get_ok env) (fe_now env) cacheKey (store w) of
        Some cached \<Rightarrow>
          (case cached of
             CachedMarkets ms \<Rightarrow> (Inr (deserializeMarkets ms), w)
           | _ \<Rightarrow> (Inl TypeError, w))
      | None \<Rightarrow>
          (case (if p = ''POLYMARKET''
                 then (polymarket_fetchMarkets env lmt,
                       w\<lparr>adapter_calls := adapter_calls w @ [''POLYMARKET'']\<rparr>)
                 else if p = ''MANIFOLD''
                 then (manifold_fetchMarkets env lmt,
                       w\<lparr>adapter_calls := adapter_calls w @ [''MANIFOLD'']\<rparr>)
                 else (Inr [], w))
           of (Inl error, w1) \<Rightarrow> (Inl error, w1)
            | (Inr markets, w1) \<Rightarrow>
                (Inr markets,
                 w1\<lparr>store := Cache_set (fe_set_ok env) (fe_now env) cacheKey
                                (CachedMarkets markets) 120 (store w1)\<rparr>)))"

text \<open>
  What one run of \<^verbatim>\<open>processScanJob\<close> meets. The two fetches of \<^verbatim>\<open>Promise.all\<close> are run
  one after the other; the progress updates of the job are not modelled.
\<close>

record scan_env =
  envA :: fetch_env
  envB :: fetch_env
  scan_lib :: js_lib
  fuse :: fuse_search
  startTime :: int
  calcTime :: int
  resultTime :: int
  resultTime_string :: string
  endTime :: int
  alert_envs :: "nat \<Rightarrow> alert_env"
  cache_now :: int
  latest_set_ok :: bool
  results_set_ok :: bool

definition job_failed :: "js_error \<Rightarrow> world \<Rightarrow> (js_error + ScanResult) \<times> world" where
  "job_failed error w = (Inl error, w\<lparr>logs := logs w @ [LogError ''Scan job failed'']\<rparr>)"

definition scan_fetched ::
  "AlertConfig \<Rightarrow> scan_env \<Rightarrow> ScanJobData \<Rightarrow> StandardMarket list \<Rightarrow> StandardMarket list \<Rightarrow> world \<Rightarrow>
   (js_error + ScanResult) \<times> world" where
  "scan_fetched cfg env job marketsA marketsB w =
     (let matches = findMatches (scan_lib env) (fuse env) marketsA marketsB in
      case findArbitrageOpportunities (calcTime env) matches of
        Inl error \<Rightarrow> job_failed error w
      | Inr opportunities \<Rightarrow>
          (let alertableOpportunities = filter (meetsAlertThreshold cfg) opportunities in
           case (if 0 < length alertableOpportunities
                 then sendAlerts cfg (alert_envs env) alertableOpportunities w
                 else (Inr (), w))
           of (Inl error, w1) \<Rightarrow> job_failed error w1
            | (Inr u, w1) \<Rightarrow>
                (let result = \<lparr>sr_timestamp = resultTime env,
                               sr_opportunities = opportunities,
                               marketsScanned =
                                 (Map.empty(platformA job \<mapsto> length marketsA))
                                   (platformB job \<mapsto> length marketsB),
                               matchesFound = length matches,
                               duration = endTime env - startTime env\<rparr>;
                     db1 = Cache_set (latest_set_ok env) (cache_now env) CacheKeys_opportunities
                             (CachedScan result) 120 (store w1);
                     db2 = Cache_set (results_set_ok env) (cache_now env)
                             (CacheKeys_scanResults (resultTime_string env))
                             (CachedScan result) 3600 db1
                 in (Inr result, w1\<lparr>store := db2\<rparr>))))"

definition processScanJob ::
  "AlertConfig \<Rightarrow> scan_env \<Rightarrow> ScanJobData \<Rightarrow> world \<Rightarrow> (js_error + ScanResult) \<times> world" where
  "processScanJob cfg env job w =
     (case fetchMarketsWithCache (envA env) (platformA job) (limit job) w of
        (rA, wA) \<Rightarrow>
          (case fetchMarketsWithCache (envB env) (platformB job) (limit job) wA of
             (rB, wB) \<Rightarrow>
               (case rA of
                  Inl error \<Rightarrow> job_failed error wB
                | Inr marketsA \<Rightarrow>
                    (case rB of
                       Inl error \<Rightarrow> job_failed error wB
                     | Inr marketsB \<Rightarrow> scan_fetched cfg env job marketsA marketsB wB))))"

text \<open>
  The condition on the Redis server under which a platform without adapter branch reads
  back what \<^verbatim>\<open>fetchMarketsWithCache\<close> itself wrote: the key of the platform is absent or
  holds the empty list.
\<close>

definition markets_key_clean :: "string \<Rightarrow> redis \<Rightarrow> bool" where
  "markets_key_clean p db =
     (case db (CacheKeys_markets p) of
        None \<Rightarrow> True
      | Some (v, expiry) \<Rightarrow> v = CachedMarkets [])"

section \<open>Reference values used in the statements\<close>

text \<open>The fee table in the words of section 4.6: PM = 0.02, KAL = 0.07, MAN = 0.\<close>

definition fee_rate :: "platform \<Rightarrow> rat" where
  "fee_rate p = (case p of POLYMARKET \<Rightarrow> 2 / 100 | KALSHI \<Rightarrow> 7 / 100 | MANIFOLD \<Rightarrow> 0)"

text \<open>
  The two strategies \<^verbatim>\<open>analyzeMarketPair\<close> evaluates for a match, and the opportunities
  that the evaluations of a list of matches construct, in order.
\<close>

definition strategy_results :: "int \<Rightarrow> MarketMatch \<Rightarrow> (js_error + ArbitrageOpportunity option) list" where
  "strategy_results now m =
     (if length (outcomes (match_marketA m)) = 2 \<and> length (outcomes (match_marketB m)) = 2
      then [calculateArbitrage now (match_marketA m) (match_marketB m) 0 1,
            calculateArbitrage now (match_marketA m) (match_marketB m) 1 0]
      else [])"

definition evaluated :: "int \<Rightarrow> MarketMatch list \<Rightarrow> ArbitrageOpportunity list" where
  "evaluated now matches =
     concat (map (\<lambda>r. case r of Inr (Some opp) \<Rightarrow> [opp] | _ \<Rightarrow> [])
               (concat (map (strategy_results now) matches)))"

text \<open>
  The pre-filter in the words of section 4.5. A token of a string is a maximal non-empty
  run of code units that are not white space; white space is the white space and the
  line terminators of ECMAScript, listed code point by code point.
\<close>

definition white_space :: "nat set" where
  "white_space =
     {9, 10, 11, 12, 13, 32, 160, 5760, 8192, 8193, 8194, 8195, 8196, 8197, 8198, 8199, 8200,
      8201, 8202, 8232, 8233, 8239, 8287, 12288, 65279}"

definition is_token :: "js_string \<Rightarrow> js_string \<Rightarrow> bool" where
  "is_token s w \<longleftrightarrow>
     w \<noteq> [] \<and> (\<forall>c \<in> set w. c \<notin> white_space) \<and>
     (\<exists>pre post. s = pre @ w @ post \<and>
        (pre = [] \<or> last pre \<in> white_space) \<and> (post = [] \<or> hd post \<in> white_space))"

definition stop_word_set :: "js_string set" where
  "stop_word_set =
     utf16 ` {''will'', ''the'', ''be'', ''in'', ''on'', ''at'', ''to'', ''a'', ''an'',
              ''is'', ''are'', ''was'', ''were'', ''for'', ''of'', ''by'', ''or''}"

text \<open>
  The keyword set of a title as section 4.5 words it: the punctuation is turned into
  white space, and the keywords are the lowercased tokens of length above 2 that are not
  stop words. The punctuation marks are those of ASCII: \<^verbatim>\<open>!\<close> to \<^verbatim>\<open>/\<close>, \<^verbatim>\<open>:\<close> to \<^verbatim>\<open>@\<close>,
  \<^verbatim>\<open>[\<close> to \<^verbatim>\<open>^\<close>, the backquote and \<^verbatim>\<open>{\<close> to \<^verbatim>\<open>~\<close>.
\<close>

definition punctuation_marks :: "nat set" where
  "punctuation_marks =
     set [33..<48] \<union> set [58..<65] \<union> set [91..<95] \<union> {96} \<union> set [123..<127]"

definition spec_keywords :: "js_lib \<Rightarrow> js_string \<Rightarrow> js_string set" where
  "spec_keywords lib t =
     {w. is_token (map (\<lambda>c. if c \<in> punctuation_marks then 32 else c) (toLowerCase lib t)) w \<and>
         2 < length w \<and> w \<notin> stop_word_set}"

text \<open>
  The keyword set when every code unit that is not an ASCII letter, an ASCII digit, the
  underscore or white space is turned into a space: an accented letter then separates
  tokens as a punctuation mark does.
\<close>

definition ascii_word_characters :: "nat set" where
  "ascii_word_characters =
     of_char ` set (''abcdefghijklmnopqrstuvwxyz'' @ ''ABCDEFGHIJKLMNOPQRSTUVWXYZ'' @
                    ''0123456789'' @ ''_'')"

definition word_keywords :: "js_lib \<Rightarrow> js_string \<Rightarrow> js_string set" where
  "word_keywords lib t =
     {w. is_token (map (\<lambda>c. if c \<in> ascii_word_characters \<union> white_space then c else 32)
                     (toLowerCase lib t)) w \<and>
         2 < length w \<and> w \<notin> stop_word_set}"

definition spec_date_far_apart :: "StandardMarket \<Rightarrow> StandardMarket \<Rightarrow> bool" where
  "spec_date_far_apart a b \<longleftrightarrow>
     (\<exists>ta tb. endDate a = Some (Date ta) \<and> endDate b = Some (Date tb) \<and>
        30 * (24 * 60 * 60 * 1000) < \<bar>ta - tb\<bar>)"

text \<open>
  What \<^verbatim>\<open>findMatches\<close> does for one market of the first list: it hands the pre-filtered
  candidates to the ranker, unless there are none.
\<close>

definition match_for ::
  "js_lib \<Rightarrow> fuse_search \<Rightarrow> StandardMarket list \<Rightarrow> StandardMarket \<Rightarrow> MarketMatch list" where
  "match_for lib search marketsB a =
     (if preFilterCandidates lib a marketsB = [] then []
      else case search (title a) (preFilterCandidates lib a marketsB) of
             [] \<Rightarrow> []
           | r # _ \<Rightarrow>
               [\<lparr>match_marketA = a, match_marketB = item r,
                 score = Math_round (number_times lib
                           (number_minus lib 1 (case fuse_score r of Some d \<Rightarrow> d | None \<Rightarrow> 0)) 100),
                 matchedBy = fuzzy\<rparr>])"

text \<open>
  A number with at most 20 significant digits: a decimal.js operation with such an exact
  result returns it unrounded.
\<close>

definition representable :: "rat \<Rightarrow> bool" where
  "representable x \<longleftrightarrow> (\<exists>m k. \<bar>m\<bar> < 10 ^ 20 \<and> x = of_int m * 10 powi k)"

text \<open>The markets of the end-to-end scenarios 1 and 2 of section 8.\<close>

definition demo_pm :: StandardMarket where
  "demo_pm = \<lparr>market_id = ''pm-1'', platform = POLYMARKET, title = utf16 ''US recession in 2025?'',
     outcomes = [\<lparr>name = ''Yes'', price = Fin (45 / 100)\<rparr>, \<lparr>name = ''No'', price = Fin (55 / 100)\<rparr>],
     url = ''https://polymarket.com/event/pm-1'', category = None, endDate = None, liquidity = None\<rparr>"

definition demo_mf :: StandardMarket where
  "demo_mf = \<lparr>market_id = ''mf-1'', platform = MANIFOLD, title = utf16 ''US recession 2025'',
     outcomes = [\<lparr>name = ''Yes'', price = Fin (60 / 100)\<rparr>, \<lparr>name = ''No'', price = Fin (38 / 100)\<rparr>],
     url = ''https://manifold.markets/mf-1'', category = None, endDate = None, liquidity = None\<rparr>"

definition demo_pm2 :: StandardMarket where
  "demo_pm2 = \<lparr>market_id = ''pm-2'', platform = POLYMARKET, title = utf16 ''Fed rate cut in March?'',
     outcomes = [\<lparr>name = ''Yes'', price = Fin (50 / 100)\<rparr>, \<lparr>name = ''No'', price = Fin (49 / 100)\<rparr>],
     url = ''https://polymarket.com/event/pm-2'', category = None, endDate = None, liquidity = None\<rparr>"

definition demo_kal :: StandardMarket where
  "demo_kal = \<lparr>market_id = ''KX-2'', platform = KALSHI, title = utf16 ''Fed rate cut March'',
     outcomes = [\<lparr>name = ''YES'', price = Fin (51 / 100)\<rparr>, \<lparr>name = ''NO'', price = Fin (48 / 100)\<rparr>],
     url = ''https://kalshi.com/markets/KX-2'', category = None, endDate = None, liquidity = None\<rparr>"

definition demo_matches :: "MarketMatch list" where
  "demo_matches =
     [\<lparr>match_marketA = demo_pm, match_marketB = demo_mf, score = 80, matchedBy = fuzzy\<rparr>,
      \<lparr>match_marketA = demo_pm2, match_marketB = demo_kal, score = 75, matchedBy = fuzzy\<rparr>]"

text \<open>The two opportunities that the evaluation of these matches constructs.\<close>

definition recession_opportunity :: ArbitrageOpportunity where
  "recession_opportunity =
     \<lparr>marketA = demo_pm, marketB = demo_mf, outcomeA = ''Yes'', outcomeB = ''No'',
      priceA = Fin (45 / 100), priceB = Fin (38 / 100), totalCost = Fin (83 / 100),
      feesA = Fin (9 / 1000), feesB = Fin 0, totalFees = Fin (9 / 1000),
      netCost = Fin (839 / 1000), profitMargin = Fin (161 / 1000),
      roi = Fin (19189511323003575685 / 10 ^ 18), isProfitable = True, timestamp = 0\<rparr>"

definition fed_evaluation :: ArbitrageOpportunity where
  "fed_evaluation =
     \<lparr>marketA = demo_pm2, marketB = demo_kal, outcomeA = ''Yes'', outcomeB = ''NO'',
      priceA = Fin (50 / 100), priceB = Fin (48 / 100), totalCost = Fin (98 / 100),
      feesA = Fin (1 / 100), feesB = Fin (336 / 10000), totalFees = Fin (436 / 10000),
      netCost = Fin (10236 / 10000), profitMargin = Fin (- 236 / 10000),
      roi = Fin 0, isProfitable = False, timestamp = 0\<rparr>"


section \<open>Retry driver: reference values\<close>

text \<open>The delay the retry driver sleeps after the failed call number \<open>i\<close> (from 0).\<close>

definition backoff :: "RetryOptions \<Rightarrow> nat \<Rightarrow> int" where
  "backoff opts i = min (initialDelay opts * 2 ^ i) (maxDelay opts)"

text \<open>Options with room for the cap of the delays to show.\<close>

definition demo_retry_options :: RetryOptions where
  "demo_retry_options =
     \<lparr>maxRetries = 6, initialDelay = 1000, maxDelay = 10000, shouldRetry = adapterShouldRetry\<rparr>"

text \<open>
  Concrete values for the closed statements. The stand-in for the runtime and the
  libraries knows a few strings; it lowercases the letters of Basic Latin and Latin-1;
  its arithmetic is exact, except for the difference \<^verbatim>\<open>1 - 0.99\<close>, which is the double
  \<^verbatim>\<open>0.010000000000000009\<close>. It is used only on operands for which that is the result of
  the operation on doubles: \<^verbatim>\<open>150 / 100\<close>, \<^verbatim>\<open>1 - 0.25\<close>, \<^verbatim>\<open>0.75 * 100\<close>,
  \<^verbatim>\<open>1 - 0.4375\<close> and \<^verbatim>\<open>0.5625 * 100\<close> are exact in binary.
\<close>

definition demo_lib :: js_lib where
  \<open>demo_lib =
     \<lparr>number_minus = (\<lambda>a b. if a = 1 \<and> b = 99 / 100 then 10000000000000009 / 10 ^ 18 else a - b),
      number_times = (\<lambda>a b. a * b),
      number_divide = (\<lambda>a b. a / b),
      toLowerCase =
        map (\<lambda>n. if (65 \<le> n \<and> n \<le> 90) \<or> (192 \<le> n \<and> n \<le> 222 \<and> n \<noteq> 215) then n + 32 else n),
      JSON_parse = (\<lambda>s.
        if s = ''["Yes","No"]'' then Some [''Yes'', ''No'']
        else if s = ''["0.52","0.48"]'' then Some [''0.52'', ''0.48'']
        else if s = ''["A","B","C"]'' then Some [''A'', ''B'', ''C'']
        else if s = ''["0.2","0.3","0.5"]'' then Some [''0.2'', ''0.3'', ''0.5'']
        else None),
      Decimal_of_string = (\<lambda>s.
        if s = ''0.52'' then Some (Fin (52 / 100))
        else if s = ''0.48'' then Some (Fin (48 / 100))
        else if s = ''0.2'' then Some (Fin (2 / 10))
        else if s = ''0.3'' then Some (Fin (3 / 10))
        else if s = ''0.5'' then Some (Fin (5 / 10))
        else None),
      Date_of_string = (\<lambda>s. if s = ''2025-12-31T00:00:00Z'' then Date 1767139200000 else InvalidDate)\<rparr>\<close>

definition demo_mf2 :: StandardMarket where
  "demo_mf2 = \<lparr>market_id = ''mf-2'', platform = MANIFOLD, title = utf16 ''Fed rate cut in March'',
     outcomes = [\<lparr>name = ''Yes'', price = Fin (53 / 100)\<rparr>, \<lparr>name = ''No'', price = Fin (48 / 100)\<rparr>],
     url = ''https://manifold.markets/mf-2'', category = None, endDate = None, liquidity = None\<rparr>"

definition thin_opportunity :: ArbitrageOpportunity where
  "thin_opportunity =
     \<lparr>marketA = demo_pm2, marketB = demo_mf2, outcomeA = ''Yes'', outcomeB = ''No'',
      priceA = Fin (50 / 100), priceB = Fin (48 / 100), totalCost = Fin (98 / 100),
      feesA = Fin (1 / 100), feesB = Fin 0, totalFees = Fin (1 / 100),
      netCost = Fin (99 / 100), profitMargin = Fin (1 / 100),
      roi = Fin (1010101010101010101 / 10 ^ 18), isProfitable = True, timestamp = 0\<rparr>"

definition demo_alert_config :: AlertConfig where
  "demo_alert_config =
     \<lparr>enabled = True, discordWebhook = ''https://discord.com/api/webhooks/1/x'',
      minProfitPercent = 5, minProfitAmount = 1 / 100, cooldownMinutes = 10\<rparr>"

text \<open>Payloads that pass the schemas and give markets outside the invariants of section 3.\<close>

definition odd_kalshi_market :: KalshiMarket where
  "odd_kalshi_market =
     \<lparr>ticker = '''', event_ticker = ''EV'', market_type = binary, k_title = [],
      k_status = ''active'', close_time = ''2025-12-31T00:00:00Z'',
      yes_ask = Some (Num 150), no_ask = None, k_liquidity = None, k_category = None\<rparr>"

definition odd_kalshi_responses :: "nat \<Rightarrow> KalshiMarket list api_response" where
  "odd_kalshi_responses i = Validated [odd_kalshi_market]"

definition certain_manifold_market :: ManifoldMarket where
  "certain_manifold_market =
     \<lparr>mf_id = ''mf-9'', mf_question = utf16 ''Will the sun rise tomorrow?'',
      mf_url = ''https://manifold.markets/mf-9'', closeTime = Some (Num 1767139200000),
      outcomeType = ''BINARY'', probability = Some (Num (99 / 100)), isResolved = False,
      totalLiquidity = Some (Num 1000)\<rparr>"

definition certain_manifold_responses :: "nat \<Rightarrow> ManifoldMarket list api_response" where
  "certain_manifold_responses i = Validated [certain_manifold_market]"

definition three_way_event :: PolyMarketEvent where
  \<open>three_way_event =
     \<lparr>pm_id = ''517'', question = utf16 ''Who wins the election?'', endDateIso = None,
      groupItemTitle = None, outcomes_json = ''["A","B","C"]'',
      outcomePrices = ''["0.2","0.3","0.5"]'', pm_liquidity = None\<rparr>\<close>

definition three_way_responses :: "nat \<Rightarrow> PolyMarketEvent list api_response" where
  "three_way_responses i = Validated [three_way_event]"

definition three_way_market :: StandardMarket where
  "three_way_market =
     \<lparr>market_id = ''517'', platform = POLYMARKET, title = utf16 ''Who wins the election?'',
      outcomes = [\<lparr>name = ''A'', price = Fin (2 / 10)\<rparr>, \<lparr>name = ''B'', price = Fin (3 / 10)\<rparr>,
                  \<lparr>name = ''C'', price = Fin (5 / 10)\<rparr>],
      url = ''https://polymarket.com/event/517'', category = None, endDate = None,
      liquidity = None\<rparr>"

text \<open>
  A stand-in for the ranker in the closed statements: it returns every candidate, in
  order, at the distance \<open>d\<close>.
\<close>

definition fixed_distance_ranker :: "rat \<Rightarrow> fuse_search" where
  "fixed_distance_ranker d q cs = map (\<lambda>c. \<lparr>item = c, fuse_score = Some d\<rparr>) cs"

definition demo_pm_twin :: StandardMarket where
  "demo_pm_twin = \<lparr>market_id = ''pm-7'', platform = POLYMARKET, title = utf16 ''US recession 2025'',
     outcomes = [\<lparr>name = ''Yes'', price = Fin (44 / 100)\<rparr>, \<lparr>name = ''No'', price = Fin (56 / 100)\<rparr>],
     url = ''https://polymarket.com/event/pm-7'', category = None, endDate = None, liquidity = None\<rparr>"

text \<open>A sequence of calls of \<^verbatim>\<open>sendArbitrageAlert\<close>, each with what it meets.\<close>

fun send_all :: "AlertConfig \<Rightarrow> (alert_env \<times> ArbitrageOpportunity) list \<Rightarrow> world \<Rightarrow> world" where
  "send_all cfg [] w = w"
| "send_all cfg ((env, opportunity) # rest) w =
     send_all cfg rest (snd (sendArbitrageAlert cfg env opportunity w))"

definition post_succeeds :: "AlertConfig \<Rightarrow> alert_env \<Rightarrow> bool" where
  "post_succeeds cfg env \<longleftrightarrow>
     discordWebhook cfg \<noteq> [] \<and>
     (case webhook env of FetchResponse st \<Rightarrow> 200 \<le> st \<and> st \<le> 299 | FetchThrows \<Rightarrow> False)"

definition alert_env1 :: alert_env where
  "alert_env1 = \<lparr>call_time = 1000, date_now = 1000000, get_ok = True, webhook = FetchResponse 204, set_ok = True\<rparr>"

definition alert_env2 :: alert_env where
  "alert_env2 = \<lparr>call_time = 1300, date_now = 1300000, get_ok = True, webhook = FetchResponse 204, set_ok = True\<rparr>"

definition alert_env3 :: alert_env where
  "alert_env3 = \<lparr>call_time = 1700, date_now = 1700000, get_ok = True, webhook = FetchResponse 500, set_ok = True\<rparr>"

definition fresh_world :: world where
  "fresh_world = \<lparr>store = Map.empty, posts = [], logs = [], adapter_calls = []\<rparr>"

text \<open>
  The states of the Redis server that the program itself produces from an empty server:
  by scan jobs, by single fetches, by alerts, and by keys that expire or are deleted.
\<close>

inductive reachable :: "world \<Rightarrow> bool" where
  fresh: "store w = Map.empty \<Longrightarrow> reachable w"
| scan: "reachable w \<Longrightarrow> reachable (snd (processScanJob cfg env job w))"
| fetch: "reachable w \<Longrightarrow> reachable (snd (fetchMarketsWithCache fenv p n w))"
| alert: "reachable w \<Longrightarrow> reachable (snd (sendArbitrageAlert cfg aenv opp w))"
| expire: "reachable w \<Longrightarrow> reachable (w\<lparr>store := (store w)(key := None)\<rparr>)"

definition demo_fetch_env :: fetch_env where
  "demo_fetch_env =
     \<lparr>fe_now = 5000, fe_get_ok = True, fe_set_ok = True,
      polymarket_fetchMarkets = (\<lambda>n. Inr (take n [demo_pm, demo_pm2])),
      manifold_fetchMarkets = (\<lambda>n. Inr (take n [demo_mf]))\<rparr>"

definition demo_scan_env :: scan_env where
  "demo_scan_env =
     \<lparr>envA = demo_fetch_env, envB = demo_fetch_env, scan_lib = demo_lib,
      fuse = fixed_distance_ranker (1 / 4),
      startTime = 5000000, calcTime = 5000100, resultTime = 5000200,
      resultTime_string = ''5000200'', endTime = 5000200,
      alert_envs = (\<lambda>i. alert_env1), cache_now = 5000,
      latest_set_ok = True, results_set_ok = True\<rparr>"

definition kalshi_job :: ScanJobData where
  "kalshi_job = \<lparr>platformA = ''KALSHI'', platformB = ''POLYMARKET'', limit = 100\<rparr>"

text \<open>
  Two markets whose prices add up to less than 1 by \<open>10^-22\<close>; the first price has 22
  significant digits, as a price string of the PolyMarket API can have.
\<close>

definition tight_pm :: StandardMarket where
  "tight_pm = \<lparr>market_id = ''pm-3'', platform = POLYMARKET, title = utf16 ''Rain in Paris tomorrow?'',
     outcomes = [\<lparr>name = ''Yes'', price = Fin (4999999999999999999999 / 10 ^ 22)\<rparr>,
                 \<lparr>name = ''No'', price = Fin (5000000000000000000001 / 10 ^ 22)\<rparr>],
     url = ''https://polymarket.com/event/pm-3'', category = None, endDate = None, liquidity = None\<rparr>"

definition tight_mf :: StandardMarket where
  "tight_mf = \<lparr>market_id = ''mf-3'', platform = MANIFOLD, title = utf16 ''Rain in Paris tomorrow'',
     outcomes = [\<lparr>name = ''Yes'', price = Fin (1 / 2)\<rparr>, \<lparr>name = ''No'', price = Fin (1 / 2)\<rparr>],
     url = ''https://manifold.markets/mf-3'', category = None, endDate = None, liquidity = None\<rparr>"

text \<open>
  Two titles that share the name \<^verbatim>\<open>Zo\<close>+U+00EB and no other keyword:
  \<^verbatim>\<open>Zo\<close>+U+00EB\<^verbatim>\<open> 2025?\<close> and \<^verbatim>\<open>Zo\<close>+U+00EB\<^verbatim>\<open> elected\<close>.
\<close>

definition zoe_pm :: StandardMarket where
  "zoe_pm = \<lparr>market_id = ''pm-4'', platform = POLYMARKET,
     title = [90, 111, 235] @ utf16 '' 2025?'',
     outcomes = [\<lparr>name = ''Yes'', price = Fin (40 / 100)\<rparr>, \<lparr>name = ''No'', price = Fin (60 / 100)\<rparr>],
     url = ''https://polymarket.com/event/pm-4'', category = None, endDate = None, liquidity = None\<rparr>"

definition zoe_mf :: StandardMarket where
  "zoe_mf = \<lparr>market_id = ''mf-4'', platform = MANIFOLD,
     title = [90, 111, 235] @ utf16 '' elected'',
     outcomes = [\<lparr>name = ''Yes'', price = Fin (45 / 100)\<rparr>, \<lparr>name = ''No'', price = Fin (55 / 100)\<rparr>],
     url = ''https://manifold.markets/mf-4'', category = None, endDate = None, liquidity = None\<rparr>"

section \<open>Verified properties\<close>

subsection \<open>Rounding to 20 significant digits\<close>

lemma digits_pos: "0 < digits n"
  by (subst digits.simps) simp

lemma digits_bounds: "0 < n \<Longrightarrow> 10 ^ (digits n - 1) \<le> n \<and> n < 10 ^ digits n"
proof (induction n rule: digits.induct)
  case (1 n)
  show ?case
  proof (cases "n < 10")
    case True
    then show ?thesis using 1(2) by (simp add: digits.simps)
  next
    case False
    then have pos: "0 < n div 10" by simp
    from 1(1)[OF False pos] have ih: "10 ^ (digits (n div 10) - 1) \<le> n div 10" "n div 10 < 10 ^ digits (n div 10)"
      by simp_all
    have d: "digits n = Suc (digits (n div 10))" using False by (simp add: digits.simps)
    have "10 ^ (digits n - 1) = 10 * 10 ^ (digits (n div 10) - 1)"
      using d digits_pos[of "n div 10"] by (cases "digits (n div 10)") simp_all
    also have "\<dots> \<le> 10 * (n div 10)" using ih(1) by simp
    also have "\<dots> \<le> n" by simp
    finally have a: "10 ^ (digits n - 1) \<le> n" .
    have "n < 10 * (n div 10 + 1)" by presburger
    also have "\<dots> \<le> 10 * 10 ^ digits (n div 10)" using ih(2) by simp
    finally have b: "n < 10 ^ digits n" using d by simp
    show ?thesis using a b by simp
  qed
qed

lemma floor_digits_bounds:
  fixes y :: rat
  assumes "1 \<le> y"
  shows "10 ^ (digits (nat \<lfloor>y\<rfloor>) - 1) \<le> y" and "y < 10 ^ digits (nat \<lfloor>y\<rfloor>)"
proof -
  let ?n = "nat \<lfloor>y\<rfloor>"
  have fl: "1 \<le> \<lfloor>y\<rfloor>" using assms by (simp add: le_floor_iff)
  then have npos: "0 < ?n" by simp
  have n_eq: "(of_nat ?n :: rat) = of_int \<lfloor>y\<rfloor>" using fl by simp
  from digits_bounds[OF npos] have b: "10 ^ (digits ?n - 1) \<le> ?n" "?n < 10 ^ digits ?n" by simp_all
  have "(10 :: rat) ^ (digits ?n - 1) = of_nat (10 ^ (digits ?n - 1))" by simp
  also have "\<dots> \<le> of_nat ?n" using b(1) by (simp only: of_nat_le_iff)
  also have "\<dots> \<le> y" using n_eq by simp
  finally show "10 ^ (digits ?n - 1) \<le> y" .
  have "Suc ?n \<le> 10 ^ digits ?n" using b(2) by (rule Suc_leI)
  then have "(of_nat (Suc ?n) :: rat) \<le> of_nat (10 ^ digits ?n)" by (simp only: of_nat_le_iff)
  then have "of_int \<lfloor>y\<rfloor> + 1 \<le> (10 :: rat) ^ digits ?n" using n_eq by simp
  moreover have "y < of_int \<lfloor>y\<rfloor> + 1" by linarith
  ultimately show "y < 10 ^ digits ?n" by linarith
qed

lemma decimal_exponent_bounds:
  assumes "0 < x"
  shows "10 powi decimal_exponent x \<le> x" and "x < 10 powi (decimal_exponent x + 1)"
proof -
  have "10 powi decimal_exponent x \<le> x \<and> x < 10 powi (decimal_exponent x + 1)"
  proof (cases "1 \<le> x")
    case True
    let ?d = "digits (nat \<lfloor>x\<rfloor>)"
    have e: "decimal_exponent x = int (?d - 1)"
      using True digits_pos[of "nat \<lfloor>x\<rfloor>"] by (simp add: decimal_exponent_def)
    have e1: "decimal_exponent x + 1 = int ?d"
      using e digits_pos[of "nat \<lfloor>x\<rfloor>"] by simp
    have "10 powi decimal_exponent x \<le> x"
      unfolding e power_int_of_nat by (rule floor_digits_bounds(1)[OF True])
    moreover have "x < 10 powi (decimal_exponent x + 1)"
      unfolding e1 power_int_of_nat by (rule floor_digits_bounds(2)[OF True])
    ultimately show ?thesis by simp
  next
    case False
    let ?y = "1 / x"
    let ?d = "digits (nat \<lfloor>?y\<rfloor>)"
    have y1: "1 \<le> ?y" using False assms by simp
    note b = floor_digits_bounds[OF y1]
    have dpos: "0 < ?d" by (rule digits_pos)
    have unf: "decimal_exponent x = (if ?y = 10 ^ (?d - 1) then - int (?d - 1) else - int ?d)"
      using False by (simp add: decimal_exponent_def Let_def)
    show ?thesis
    proof (cases "?y = 10 ^ (?d - 1)")
      case True
      have e: "decimal_exponent x = - int (?d - 1)"
        by (simp only: unf if_P[OF True])
      have "x = 1 / (1 / x)" by simp
      also have "\<dots> = 1 / 10 ^ (?d - 1)"
        using True by (rule arg_cong[where f = "\<lambda>z. 1 / z"])
      finally have x_eq: "x = 1 / 10 ^ (?d - 1)" .
      have p: "(10 :: rat) powi (- int (?d - 1)) = 1 / 10 ^ (?d - 1)"
        by (simp add: power_int_minus_divide)
      have px: "(10 :: rat) powi (- int (?d - 1)) = x"
        unfolding p by (rule x_eq[symmetric])
      have "(10 :: rat) powi (- int (?d - 1) + 1) = 10 powi (- int (?d - 1)) * 10"
        by (rule power_int_add_1) simp
      then have p1: "(10 :: rat) powi (- int (?d - 1) + 1) = x * 10" unfolding px .
      show ?thesis unfolding e p1 px using assms by simp
    next
      case ne: False
      have e: "decimal_exponent x = - int ?d"
        by (simp only: unf if_not_P[OF ne])
      have p: "(10 :: rat) powi (- int ?d) = 1 / 10 ^ ?d"
        by (simp add: power_int_minus_divide)
      have eq: "- int ?d + 1 = - int (?d - 1)" using dpos by simp
      have p1: "(10 :: rat) powi (- int ?d + 1) = 1 / 10 ^ (?d - 1)"
        unfolding eq by (simp add: power_int_minus_divide)
      have lt: "10 ^ (?d - 1) < ?y" using b(1) ne[symmetric] by (rule le_neq_trans)
      have "1 / 10 ^ ?d < x"
        using b(2) assms by (simp add: field_simps)
      moreover have "x < 1 / 10 ^ (?d - 1)"
        using lt assms by (simp add: field_simps)
      ultimately show ?thesis unfolding e p p1 by simp
    qed
  qed
  then show "10 powi decimal_exponent x \<le> x" and "x < 10 powi (decimal_exponent x + 1)"
    by simp_all
qed

lemma decimal_exponent_unique:
  assumes "0 < x" "10 powi e \<le> x" "x < 10 powi (e + 1)"
  shows "decimal_exponent x = e"
proof -
  let ?f = "decimal_exponent x"
  note b = decimal_exponent_bounds[OF assms(1)]
  have lt1: "(10 :: rat) powi e < 10 powi (?f + 1)" using assms(2) b(2) by linarith
  have "e < ?f + 1"
  proof (rule ccontr)
    assume "\<not> e < ?f + 1"
    then have "?f + 1 \<le> e" by simp
    then have "(10 :: rat) powi (?f + 1) \<le> 10 powi e" by (rule power_int_increasing) simp
    with lt1 show False by simp
  qed
  moreover have lt2: "(10 :: rat) powi ?f < 10 powi (e + 1)" using assms(3) b(1) by linarith
  have "?f < e + 1"
  proof (rule ccontr)
    assume "\<not> ?f < e + 1"
    then have "e + 1 \<le> ?f" by simp
    then have "(10 :: rat) powi (e + 1) \<le> 10 powi ?f" by (rule power_int_increasing) simp
    with lt2 show False by simp
  qed
  ultimately show ?thesis by simp
qed


lemma finalise_0 [simp]: "finalise 0 = 0"
  by (simp add: finalise_def)

lemma finalise_minus: "finalise (- x) = - finalise x"
  by (simp add: finalise_def Let_def)

lemma finalise_pos_eq:
  assumes "0 < x" "10 powi e \<le> x" "x < 10 powi (e + 1)"
  shows "finalise x = of_int \<lfloor>x / 10 powi (e - 19) + 1 / 2\<rfloor> * 10 powi (e - 19)"
proof -
  have e: "decimal_exponent x = e" using assms by (rule decimal_exponent_unique)
  have ax: "\<bar>x\<bar> = x" "sgn x = 1" "x \<noteq> 0" using assms(1) by simp_all
  show ?thesis by (simp add: finalise_def Let_def ax e)
qed

lemma finalise_eval:
  assumes "0 < x" "10 powi e \<le> x" "x < 10 powi (e + 1)"
    and "of_int n \<le> x * 10 powi (19 - e) + 1 / 2" "x * 10 powi (19 - e) + 1 / 2 < of_int n + 1"
  shows "finalise x = of_int n / 10 powi (19 - e)"
proof -
  have inv: "(10 :: rat) powi (e - 19) = 1 / 10 powi (19 - e)"
    using power_int_minus_divide[of "10 :: rat" "19 - e"] by simp
  have "\<lfloor>x / 10 powi (e - 19) + 1 / 2\<rfloor> = n"
    unfolding inv using assms(4,5) by (intro floor_unique) simp_all
  then show ?thesis
    using finalise_pos_eq[OF assms(1-3)] by (simp add: inv)
qed

lemma finalise_exact_pos:
  assumes "0 < m" "m < 10 ^ 20"
  shows "finalise (of_int m * 10 powi k) = of_int m * 10 powi k"
proof -
  let ?n = "nat m"
  let ?d = "digits ?n"
  let ?x = "(of_int m :: rat) * 10 powi k"
  have npos: "0 < ?n" using assms(1) by simp
  note b = digits_bounds[OF npos]
  have dpos: "0 < ?d" by (rule digits_pos)
  have m_nat: "(of_int m :: rat) = of_nat ?n" using assms(1) by simp
  have "(10 :: nat) ^ (?d - 1) < 10 ^ 20"
  proof -
    have "nat m < nat (10 ^ 20)" using assms by (simp only: zless_nat_conj) simp
    moreover have "nat (10 ^ 20) = (10 :: nat) ^ 20" by simp
    ultimately have "?n < 10 ^ 20" by (simp only:)
    with b show ?thesis by linarith
  qed
  then have "?d - 1 < 20" by (simp only: power_strict_increasing_iff) 
  then have d20: "?d \<le> 20" by simp
  have lo: "(10 :: rat) ^ (?d - 1) \<le> of_int m"
  proof -
    have "(of_nat (10 ^ (?d - 1)) :: rat) \<le> of_nat ?n" using b by (simp only: of_nat_le_iff)
    then show ?thesis unfolding m_nat by simp
  qed
  have hi: "(of_int m :: rat) < 10 ^ ?d"
  proof -
    have "(of_nat ?n :: rat) < of_nat (10 ^ ?d)" using b by (simp only: of_nat_less_iff)
    then show ?thesis unfolding m_nat by simp
  qed
  define e where "e = int ?d - 1 + k"
  have pk: "0 < (10 :: rat) powi k" by simp
  have pe: "(10 :: rat) powi e = 10 ^ (?d - 1) * 10 powi k"
  proof -
    have "e = int (?d - 1) + k" using dpos by (simp add: e_def)
    then show ?thesis by (simp add: power_int_add)
  qed
  have pe1: "(10 :: rat) powi (e + 1) = 10 ^ ?d * 10 powi k"
  proof -
    have "e + 1 = int ?d + k" by (simp add: e_def)
    then show ?thesis by (simp add: power_int_add)
  qed
  have xpos: "0 < ?x" using assms(1) pk by simp
  have b1: "10 powi e \<le> ?x" unfolding pe using lo pk by simp
  have b2: "?x < 10 powi (e + 1)" unfolding pe1 using hi pk by simp
  have scale: "(10 :: rat) powi k * 10 powi (19 - e) = 10 ^ (20 - ?d)"
  proof -
    have "k + (19 - e) = int (20 - ?d)" using d20 by (simp add: e_def)
    moreover have "(10 :: rat) powi k * 10 powi (19 - e) = 10 powi (k + (19 - e))"
      by (simp add: power_int_add)
    ultimately show ?thesis by simp
  qed
  have xs: "?x * 10 powi (19 - e) = of_int (m * 10 ^ (20 - ?d))"
    using scale by (simp add: mult.assoc)
  have c1: "of_int (m * 10 ^ (20 - ?d)) \<le> ?x * 10 powi (19 - e) + 1 / 2"
    unfolding xs by simp
  have c2: "?x * 10 powi (19 - e) + 1 / 2 < of_int (m * 10 ^ (20 - ?d)) + 1"
    unfolding xs by simp
  have fin: "finalise ?x = of_int (m * 10 ^ (20 - ?d)) / 10 powi (19 - e)"
    using xpos b1 b2 c1 c2 by (rule finalise_eval)
  have "of_int (m * 10 ^ (20 - ?d)) / 10 powi (19 - e) = ?x * 10 powi (19 - e) / 10 powi (19 - e)"
    by (simp only: xs)
  also have "\<dots> = ?x" by simp
  finally show ?thesis using fin by simp
qed

lemma finalise_exact:
  assumes "\<bar>m\<bar> < 10 ^ 20"
  shows "finalise (of_int m * 10 powi k) = of_int m * 10 powi k"
proof (cases "m = 0")
  case True
  then show ?thesis by simp
next
  case False
  show ?thesis
  proof (cases "0 < m")
    case True
    then show ?thesis using assms by (intro finalise_exact_pos) simp_all
  next
    case neg: False
    have "finalise (of_int (- m) * 10 powi k) = of_int (- m) * 10 powi k"
      using False neg assms by (intro finalise_exact_pos) simp_all
    then have "finalise (- (of_int m * 10 powi k)) = - (of_int m * 10 powi k)" by simp
    then show ?thesis by (simp add: finalise_minus)
  qed
qed

lemma finalise_lower:
  assumes "0 < x"
  shows "10 powi decimal_exponent x \<le> finalise x"
proof -
  let ?e = "decimal_exponent x"
  let ?u = "(10 :: rat) powi (?e - 19)"
  note b = decimal_exponent_bounds[OF assms]
  have upos: "0 < ?u" by simp
  have pe: "(10 :: rat) powi ?e = 10 ^ 19 * ?u"
  proof -
    have "?e = 19 + (?e - 19)" by simp
    then have "(10 :: rat) powi ?e = 10 powi 19 * 10 powi (?e - 19)"
      by (metis power_int_add zero_neq_numeral)
    then show ?thesis by simp
  qed
  have "(10 :: rat) ^ 19 \<le> x / ?u" using b(1) upos unfolding pe by (simp add: pos_le_divide_eq)
  then have "of_int (10 ^ 19) \<le> x / ?u + 1 / 2" by simp
  then have "10 ^ 19 \<le> \<lfloor>x / ?u + 1 / 2\<rfloor>" by (simp only: le_floor_iff)
  then have "(of_int (10 ^ 19) :: rat) \<le> of_int \<lfloor>x / ?u + 1 / 2\<rfloor>" by (simp only: of_int_le_iff)
  then have "10 ^ 19 * ?u \<le> of_int \<lfloor>x / ?u + 1 / 2\<rfloor> * ?u" using upos by simp
  then show ?thesis unfolding pe using finalise_pos_eq[OF assms b] by simp
qed

lemma finalise_pos: "0 < x \<Longrightarrow> 0 < finalise x"
  using finalise_lower[of x] zero_less_power_int[of "10 :: rat" "decimal_exponent x"]
  by linarith

lemma finalise_neg: "x < 0 \<Longrightarrow> finalise x < 0"
  using finalise_pos[of "- x"] by (simp add: finalise_minus)

lemma finalise_eq_0_iff [simp]: "finalise x = 0 \<longleftrightarrow> x = 0"
  using finalise_pos[of x] finalise_neg[of x] by (cases "x = 0"; cases "0 < x") auto

lemma finalise_ge_one:
  assumes "1 \<le> x"
  shows "1 \<le> finalise x"
proof -
  have xpos: "0 < x" using assms by simp
  note b = decimal_exponent_bounds[OF xpos]
  have "(10 :: rat) powi 0 < 10 powi (decimal_exponent x + 1)" using assms b(2) by simp
  have "0 \<le> decimal_exponent x"
  proof (rule ccontr)
    assume "\<not> 0 \<le> decimal_exponent x"
    then have "decimal_exponent x + 1 \<le> 0" by simp
    then have "(10 :: rat) powi (decimal_exponent x + 1) \<le> 10 powi 0"
      by (rule power_int_increasing) simp
    with b(2) assms show False by simp
  qed
  then have "(1 :: rat) \<le> 10 powi decimal_exponent x" by simp
  with finalise_lower[OF xpos] show ?thesis by linarith
qed

lemma finalise_error:
  assumes "0 < x"
  shows "\<bar>finalise x - x\<bar> * (2 * 10 ^ 19) \<le> x"
proof -
  let ?e = "decimal_exponent x"
  let ?u = "(10 :: rat) powi (?e - 19)"
  let ?N = "\<lfloor>x / ?u + 1 / 2\<rfloor>"
  note b = decimal_exponent_bounds[OF assms]
  have upos: "0 < ?u" by simp
  have pe: "(10 :: rat) powi ?e = 10 ^ 19 * ?u"
  proof -
    have "?e = 19 + (?e - 19)" by simp
    then have "(10 :: rat) powi ?e = 10 powi 19 * 10 powi (?e - 19)"
      by (metis power_int_add zero_neq_numeral)
    then show ?thesis by simp
  qed
  have f: "finalise x = of_int ?N * ?u" using finalise_pos_eq[OF assms b] .
  have "of_int ?N \<le> x / ?u + 1 / 2" by (rule of_int_floor_le)
  moreover have "x / ?u + 1 / 2 < of_int ?N + 1" by linarith
  ultimately have "\<bar>of_int ?N - x / ?u\<bar> \<le> 1 / 2" by linarith
  then have "\<bar>of_int ?N - x / ?u\<bar> * ?u \<le> 1 / 2 * ?u" using upos by (simp only: mult_le_cancel_right_pos)
  moreover have "\<bar>of_int ?N - x / ?u\<bar> * ?u = \<bar>of_int ?N * ?u - x\<bar>"
  proof -
    have "\<bar>of_int ?N - x / ?u\<bar> * ?u = \<bar>(of_int ?N - x / ?u) * ?u\<bar>"
      using upos by (simp add: abs_mult)
    also have "(of_int ?N - x / ?u) * ?u = of_int ?N * ?u - x"
      using upos by (simp add: field_simps)
    finally show ?thesis .
  qed
  ultimately have "\<bar>finalise x - x\<bar> \<le> ?u / 2" unfolding f by simp
  then have "\<bar>finalise x - x\<bar> * (2 * 10 ^ 19) \<le> ?u / 2 * (2 * 10 ^ 19)"
    by (rule mult_right_mono) simp
  also have "?u / 2 * (2 * 10 ^ 19) = 10 powi ?e" unfolding pe by simp
  finally show ?thesis using b(1) by linarith
qed


lemma finalise_exact_frac:
  assumes "x * 10 ^ k \<in> \<int>" and "\<bar>x * 10 ^ k\<bar> < 10 ^ 20"
  shows "finalise x = x"
proof -
  from assms(1) obtain m :: int where m: "x * 10 ^ k = of_int m" by (auto elim: Ints_cases)
  have "\<bar>(of_int m :: rat)\<bar> < of_int (10 ^ 20)" using assms(2) m by simp
  then have "(of_int \<bar>m\<bar> :: rat) < of_int (10 ^ 20)" by simp
  then have lt: "\<bar>m\<bar> < 10 ^ 20" by (simp only: of_int_less_iff)
  have "x = x * 10 ^ k / 10 ^ k" by simp
  also have "\<dots> = of_int m * 10 powi (- int k)" unfolding m by (simp add: power_int_minus_divide)
  finally have x: "x = of_int m * 10 powi (- int k)" .
  show ?thesis by (subst (1 2) x) (rule finalise_exact[OF lt])
qed

lemma representable_exact: "representable x \<Longrightarrow> finalise x = x"
  unfolding representable_def using finalise_exact by blast

lemma isFinite_simps [simp]:
  "isFinite (Fin a)" "isFinite NegZero" "\<not> isFinite PosInf" "\<not> isFinite NegInf" "\<not> isFinite NaN"
  by (simp_all add: isFinite_def)

lemma isNaN_simps [simp]:
  "\<not> isNaN (Fin a)" "\<not> isNaN NegZero" "\<not> isNaN PosInf" "\<not> isNaN NegInf" "isNaN NaN"
  by (simp_all add: isNaN_def)

lemma isZero_simps [simp]:
  "isZero (Fin a) \<longleftrightarrow> a = 0" "isZero NegZero" "\<not> isZero PosInf" "\<not> isZero NegInf" "\<not> isZero NaN"
  by (simp_all add: isZero_def)

lemma isNegative_simps [simp]:
  "isNegative (Fin a) \<longleftrightarrow> a < 0" "isNegative NegZero" "\<not> isNegative PosInf" "isNegative NegInf"
  "\<not> isNegative NaN"
  by (simp_all add: isNegative_def)

lemma rat_of_simps [simp]:
  "rat_of (Fin a) = a" "rat_of NegZero = 0"
  by (simp_all add: rat_of_def)

lemma plus_Fin [simp]: "plus_d (Fin a) (Fin b) = Fin (finalise (a + b))"
  by (simp add: plus_d_def)

lemma minus_Fin [simp]: "minus_d (Fin a) (Fin b) = Fin (finalise (a - b))"
  by (simp add: minus_d_def dneg_def plus_d_def)

lemma times_Fin:
  "times_d (Fin a) (Fin b) =
     (if a = 0 \<or> b = 0 then zero_of_sign ((a < 0) = (b < 0)) else Fin (finalise (a * b)))"
  by (simp add: times_d_def)

lemma times_Fin_nonneg: "0 \<le> a \<Longrightarrow> 0 \<le> b \<Longrightarrow> times_d (Fin a) (Fin b) = Fin (finalise (a * b))"
  by (auto simp: times_Fin zero_of_sign_def)

lemma dividedBy_Fin:
  "a \<noteq> 0 \<Longrightarrow> b \<noteq> 0 \<Longrightarrow> dividedBy (Fin a) (Fin b) = Fin (finalise (a / b))"
  by (simp add: dividedBy_def)

lemma gt_Fin [simp]: "greaterThan_d (Fin a) (Fin b) \<longleftrightarrow> b < a"
  by (simp add: greaterThan_d_def)

lemma gte_Fin [simp]: "greaterThanOrEqualTo (Fin a) (Fin b) \<longleftrightarrow> b \<le> a"
  by (auto simp: greaterThanOrEqualTo_def greaterThan_d_def eq_d_def)

lemma finalise_values:
  "finalise (161 / 839) = 19189511323003575685 / 10 ^ 20"
  "finalise (1 / 99) = 1010101010101010101 / 10 ^ 20"
  "finalise (9999999999999999999999 / 10 ^ 22) = 1"
proof -
  show "finalise (161 / 839) = 19189511323003575685 / 10 ^ 20"
    using finalise_eval[of "161 / 839" "- 1" 19189511323003575685] by simp
  show "finalise (1 / 99) = 1010101010101010101 / 10 ^ 20"
    using finalise_eval[of "1 / 99" "- 2" 10101010101010101010] by (simp add: power_int_minus_divide)
  show "finalise (9999999999999999999999 / 10 ^ 22) = 1"
    using finalise_eval[of "9999999999999999999999 / 10 ^ 22" "- 1" "10 ^ 20"] by simp
qed

subsection \<open>Calculator\<close>

lemma getFeeRate_simps:
  "getFeeRate POLYMARKET = Fin (2 / 100)"
  "getFeeRate KALSHI = Fin (7 / 100)"
  "getFeeRate MANIFOLD = Fin 0"
  by (simp_all add: getFeeRate_def platformFees_def)

lemma getFeeRate_finite: "getFeeRate p = Fin (fee_rate p)"
  by (cases p) (simp_all add: getFeeRate_simps fee_rate_def)

lemma fee_rate_nonneg: "0 \<le> fee_rate p"
  by (cases p) (simp_all add: fee_rate_def)

lemma calc_Some_fields:
  assumes "calculateArbitrage now mA mB i j = Inr (Some opp)"
  shows "i < length (outcomes mA) \<and> j < length (outcomes mB) \<and>
         \<not> greaterThanOrEqualTo (plus_d (price (outcomes mA ! i)) (price (outcomes mB ! j))) (Fin 1) \<and>
         marketA opp = mA \<and> marketB opp = mB \<and>
         priceA opp = price (outcomes mA ! i) \<and> priceB opp = price (outcomes mB ! j) \<and>
         totalCost opp = plus_d (priceA opp) (priceB opp) \<and>
         feesA opp = times_d (priceA opp) (getFeeRate (platform mA)) \<and>
         feesB opp = times_d (priceB opp) (getFeeRate (platform mB)) \<and>
         totalFees opp = plus_d (feesA opp) (feesB opp) \<and>
         netCost opp = plus_d (totalCost opp) (totalFees opp) \<and>
         profitMargin opp = minus_d (Fin 1) (netCost opp) \<and>
         isProfitable opp = greaterThan_d (profitMargin opp) (Fin 0) \<and>
         roi opp = (if isProfitable opp then times_d (dividedBy (profitMargin opp) (netCost opp)) (Fin 100) else Fin 0)"
  using assms by (auto simp: calculateArbitrage_def Let_def split: if_splits)

lemma calc_None_iff:
  assumes "i < length (outcomes mA)" "j < length (outcomes mB)"
  shows "calculateArbitrage now mA mB i j = Inr None \<longleftrightarrow>
         greaterThanOrEqualTo (plus_d (price (outcomes mA ! i)) (price (outcomes mB ! j))) (Fin 1)"
  using assms by (simp add: calculateArbitrage_def Let_def)

lemma calc_Some_ex:
  assumes "i < length (outcomes mA)" "j < length (outcomes mB)"
    "\<not> greaterThanOrEqualTo (plus_d (price (outcomes mA ! i)) (price (outcomes mB ! j))) (Fin 1)"
  shows "\<exists>opp. calculateArbitrage now mA mB i j = Inr (Some opp)"
  using assms by (simp add: calculateArbitrage_def Let_def)

lemma tight_sum:
  "calculateArbitrage 0 tight_pm tight_mf 0 1 = Inr None"
proof -
  have "(4999999999999999999999 / 10 ^ 22 + 1 / 2 :: rat) = 9999999999999999999999 / 10 ^ 22"
    by simp
  then have "finalise (4999999999999999999999 / 10 ^ 22 + 1 / 2) = 1"
    by (simp only: finalise_values)
  then show ?thesis
    by (simp add: calculateArbitrage_def tight_pm_def tight_mf_def Let_def del: finalise_eq_0_iff)
qed

text \<open>
  Claim C1, as stated, fails. The prices 0.4999999999999999999999 and 0.5 add up to
  less than 1, and \<open>calculateArbitrage\<close> emits no opportunity for them: the sum has 22
  significant digits and \<^verbatim>\<open>plus\<close> rounds it to 1.
\<close>

theorem C1_counterexample:
  "length (outcomes tight_pm) = 2 \<and> length (outcomes tight_mf) = 2 \<and>
   price (outcomes tight_pm ! 0) = Fin (4999999999999999999999 / 10 ^ 22) \<and>
   price (outcomes tight_mf ! 1) = Fin (1 / 2) \<and>
   (4999999999999999999999 / 10 ^ 22 + 1 / 2 < (1 :: rat)) \<and>
   calculateArbitrage 0 tight_pm tight_mf 0 1 = Inr None"
  using tight_sum by (simp add: tight_pm_def tight_mf_def)

text \<open>
  Claim C1, amended. For a match whose two markets both have exactly two outcomes, and
  for each of the two strategies (outcome 0 of A with outcome 1 of B, outcome 1 of A with
  outcome 0 of B), \<open>calculateArbitrage\<close> returns no opportunity exactly when the decimal
  sum of the two prices is at least 1 (equality included); otherwise it returns an
  opportunity with \<open>totalCost = priceA + priceB\<close>, \<open>feesA = priceA \<times> rateA\<close>,
  \<open>feesB = priceB \<times> rateB\<close> for the rates PM = 0.02, KAL = 0.07, MAN = 0,
  \<open>totalFees = feesA + feesB\<close>, \<open>netCost = totalCost + totalFees\<close> and
  \<open>profitMargin = 1 - netCost\<close>, where every sum, product and difference is the decimal.js
  one: the exact result rounded to 20 significant digits, half away from zero. So for
  finite prices \<open>a\<close> and \<open>b\<close> there is no opportunity exactly when the rounded sum is at
  least 1, which is the case whenever \<open>a + b \<ge> 1\<close>; a number with at most 20 significant
  digits is not changed by the rounding, so when the exact sums, products and the
  difference have at most 20 significant digits the fields are the exact values the
  claim names.
\<close>

theorem C1_calculateArbitrage:
  assumes "length (outcomes mA) = 2" and "length (outcomes mB) = 2"
    and "(i = 0 \<and> j = 1) \<or> (i = 1 \<and> j = 0)"
    and "pA = price (outcomes mA ! i)" and "pB = price (outcomes mB ! j)"
    and "rA = fee_rate (platform mA)" and "rB = fee_rate (platform mB)"
  shows "(calculateArbitrage now mA mB i j = Inr None \<longleftrightarrow>
            greaterThanOrEqualTo (plus_d pA pB) (Fin 1)) \<and>
         (calculateArbitrage now mA mB i j \<noteq> Inr None \<longrightarrow>
            (\<exists>opp. calculateArbitrage now mA mB i j = Inr (Some opp) \<and>
               totalCost opp = plus_d pA pB \<and>
               feesA opp = times_d pA (getFeeRate (platform mA)) \<and>
               feesB opp = times_d pB (getFeeRate (platform mB)) \<and>
               totalFees opp = plus_d (feesA opp) (feesB opp) \<and>
               netCost opp = plus_d (totalCost opp) (totalFees opp) \<and>
               profitMargin opp = minus_d (Fin 1) (netCost opp))) \<and>
         getFeeRate POLYMARKET = Fin (2 / 100) \<and> getFeeRate KALSHI = Fin (7 / 100) \<and>
         getFeeRate MANIFOLD = Fin 0 \<and>
         (\<forall>x. representable x \<longrightarrow> finalise x = x) \<and>
         (\<forall>a b. pA = Fin a \<and> pB = Fin b \<longrightarrow>
            (calculateArbitrage now mA mB i j = Inr None \<longleftrightarrow> 1 \<le> finalise (a + b)) \<and>
            (1 \<le> a + b \<longrightarrow> calculateArbitrage now mA mB i j = Inr None) \<and>
            (representable (a + b) \<longrightarrow>
               (calculateArbitrage now mA mB i j = Inr None \<longleftrightarrow> 1 \<le> a + b)) \<and>
            (0 \<le> a \<and> 0 \<le> b \<and> finalise (a + b) < 1 \<longrightarrow>
               (\<exists>opp. calculateArbitrage now mA mB i j = Inr (Some opp) \<and>
                  totalCost opp = Fin (finalise (a + b)) \<and>
                  feesA opp = Fin (finalise (a * rA)) \<and>
                  feesB opp = Fin (finalise (b * rB)) \<and>
                  totalFees opp = Fin (finalise (finalise (a * rA) + finalise (b * rB))) \<and>
                  netCost opp =
                    Fin (finalise (finalise (a + b) +
                                   finalise (finalise (a * rA) + finalise (b * rB)))) \<and>
                  profitMargin opp =
                    Fin (finalise (1 - finalise (finalise (a + b) +
                                     finalise (finalise (a * rA) + finalise (b * rB))))))) \<and>
            (0 \<le> a \<and> 0 \<le> b \<and> a + b < 1 \<and>
             representable (a + b) \<and> representable (a * rA) \<and> representable (b * rB) \<and>
             representable (a * rA + b * rB) \<and> representable (a + b + (a * rA + b * rB)) \<and>
             representable (1 - (a + b + (a * rA + b * rB))) \<longrightarrow>
               (\<exists>opp. calculateArbitrage now mA mB i j = Inr (Some opp) \<and>
                  totalCost opp = Fin (a + b) \<and>
                  feesA opp = Fin (a * rA) \<and>
                  feesB opp = Fin (b * rB) \<and>
                  totalFees opp = Fin (a * rA + b * rB) \<and>
                  netCost opp = Fin (a + b + (a * rA + b * rB)) \<and>
                  profitMargin opp = Fin (1 - (a + b + (a * rA + b * rB))))))"
proof -
  have ri: "i < length (outcomes mA)" and rj: "j < length (outcomes mB)"
    using assms(1-3) by auto
  have none: "calculateArbitrage now mA mB i j = Inr None \<longleftrightarrow>
      greaterThanOrEqualTo (plus_d pA pB) (Fin 1)"
    using calc_None_iff [OF ri rj] assms(4,5) by simp
  have some: "\<exists>opp. calculateArbitrage now mA mB i j = Inr (Some opp) \<and>
               totalCost opp = plus_d pA pB \<and>
               feesA opp = times_d pA (getFeeRate (platform mA)) \<and>
               feesB opp = times_d pB (getFeeRate (platform mB)) \<and>
               totalFees opp = plus_d (feesA opp) (feesB opp) \<and>
               netCost opp = plus_d (totalCost opp) (totalFees opp) \<and>
               profitMargin opp = minus_d (Fin 1) (netCost opp)"
    if "calculateArbitrage now mA mB i j \<noteq> Inr None"
  proof -
    from that none have "\<not> greaterThanOrEqualTo (plus_d (price (outcomes mA ! i)) (price (outcomes mB ! j))) (Fin 1)"
      using assms(4,5) by simp
    from calc_Some_ex [OF ri rj this] obtain opp
      where opp: "calculateArbitrage now mA mB i j = Inr (Some opp)" by blast
    from calc_Some_fields [OF opp] opp assms(4,5) show ?thesis by auto
  qed
  have exact: "\<forall>x. representable x \<longrightarrow> finalise x = x"
    using representable_exact by blast
  have rates: "0 \<le> rA" "0 \<le> rB" using assms(6,7) fee_rate_nonneg by simp_all
  have fin: "(calculateArbitrage now mA mB i j = Inr None \<longleftrightarrow> 1 \<le> finalise (a + b)) \<and>
            (1 \<le> a + b \<longrightarrow> calculateArbitrage now mA mB i j = Inr None) \<and>
            (representable (a + b) \<longrightarrow>
               (calculateArbitrage now mA mB i j = Inr None \<longleftrightarrow> 1 \<le> a + b)) \<and>
            (0 \<le> a \<and> 0 \<le> b \<and> finalise (a + b) < 1 \<longrightarrow>
               (\<exists>opp. calculateArbitrage now mA mB i j = Inr (Some opp) \<and>
                  totalCost opp = Fin (finalise (a + b)) \<and>
                  feesA opp = Fin (finalise (a * rA)) \<and>
                  feesB opp = Fin (finalise (b * rB)) \<and>
                  totalFees opp = Fin (finalise (finalise (a * rA) + finalise (b * rB))) \<and>
                  netCost opp =
                    Fin (finalise (finalise (a + b) +
                                   finalise (finalise (a * rA) + finalise (b * rB)))) \<and>
                  profitMargin opp =
                    Fin (finalise (1 - finalise (finalise (a + b) +
                                     finalise (finalise (a * rA) + finalise (b * rB))))))) \<and>
            (0 \<le> a \<and> 0 \<le> b \<and> a + b < 1 \<and>
             representable (a + b) \<and> representable (a * rA) \<and> representable (b * rB) \<and>
             representable (a * rA + b * rB) \<and> representable (a + b + (a * rA + b * rB)) \<and>
             representable (1 - (a + b + (a * rA + b * rB))) \<longrightarrow>
               (\<exists>opp. calculateArbitrage now mA mB i j = Inr (Some opp) \<and>
                  totalCost opp = Fin (a + b) \<and>
                  feesA opp = Fin (a * rA) \<and>
                  feesB opp = Fin (b * rB) \<and>
                  totalFees opp = Fin (a * rA + b * rB) \<and>
                  netCost opp = Fin (a + b + (a * rA + b * rB)) \<and>
                  profitMargin opp = Fin (1 - (a + b + (a * rA + b * rB)))))"
    if ab: "pA = Fin a \<and> pB = Fin b" for a b
  proof -
    have n: "calculateArbitrage now mA mB i j = Inr None \<longleftrightarrow> 1 \<le> finalise (a + b)"
      using none ab by simp
    have ge: "1 \<le> a + b \<longrightarrow> calculateArbitrage now mA mB i j = Inr None"
      using n finalise_ge_one by blast
    have rep: "representable (a + b) \<longrightarrow>
               (calculateArbitrage now mA mB i j = Inr None \<longleftrightarrow> 1 \<le> a + b)"
      using n representable_exact by simp
    have rounded: "\<exists>opp. calculateArbitrage now mA mB i j = Inr (Some opp) \<and>
                  totalCost opp = Fin (finalise (a + b)) \<and>
                  feesA opp = Fin (finalise (a * rA)) \<and>
                  feesB opp = Fin (finalise (b * rB)) \<and>
                  totalFees opp = Fin (finalise (finalise (a * rA) + finalise (b * rB))) \<and>
                  netCost opp =
                    Fin (finalise (finalise (a + b) +
                                   finalise (finalise (a * rA) + finalise (b * rB)))) \<and>
                  profitMargin opp =
                    Fin (finalise (1 - finalise (finalise (a + b) +
                                     finalise (finalise (a * rA) + finalise (b * rB)))))"
      if lt: "0 \<le> a \<and> 0 \<le> b \<and> finalise (a + b) < 1"
    proof -
      from lt n have "calculateArbitrage now mA mB i j \<noteq> Inr None" by simp
      from some [OF this] obtain opp where
        opp: "calculateArbitrage now mA mB i j = Inr (Some opp)"
          "totalCost opp = plus_d pA pB"
          "feesA opp = times_d pA (getFeeRate (platform mA))"
          "feesB opp = times_d pB (getFeeRate (platform mB))"
          "totalFees opp = plus_d (feesA opp) (feesB opp)"
          "netCost opp = plus_d (totalCost opp) (totalFees opp)"
          "profitMargin opp = minus_d (Fin 1) (netCost opp)"
        by blast
      have fa: "feesA opp = Fin (finalise (a * rA))"
        using opp(3) ab lt rates by (simp add: getFeeRate_finite times_Fin_nonneg assms(6))
      have fb: "feesB opp = Fin (finalise (b * rB))"
        using opp(4) ab lt rates by (simp add: getFeeRate_finite times_Fin_nonneg assms(7))
      have tc: "totalCost opp = Fin (finalise (a + b))" using opp(2) ab by simp
      have tf: "totalFees opp = Fin (finalise (finalise (a * rA) + finalise (b * rB)))"
        using opp(5) fa fb by simp
      have nc: "netCost opp = Fin (finalise (finalise (a + b) +
                                   finalise (finalise (a * rA) + finalise (b * rB))))"
        using opp(6) tc tf by simp
      have pm: "profitMargin opp = Fin (finalise (1 - finalise (finalise (a + b) +
                                     finalise (finalise (a * rA) + finalise (b * rB)))))"
        using opp(7) nc by simp
      show ?thesis using opp(1) tc fa fb tf nc pm by blast
    qed
    have exact_fields: "\<exists>opp. calculateArbitrage now mA mB i j = Inr (Some opp) \<and>
                  totalCost opp = Fin (a + b) \<and>
                  feesA opp = Fin (a * rA) \<and>
                  feesB opp = Fin (b * rB) \<and>
                  totalFees opp = Fin (a * rA + b * rB) \<and>
                  netCost opp = Fin (a + b + (a * rA + b * rB)) \<and>
                  profitMargin opp = Fin (1 - (a + b + (a * rA + b * rB)))"
      if h: "0 \<le> a \<and> 0 \<le> b \<and> a + b < 1 \<and>
             representable (a + b) \<and> representable (a * rA) \<and> representable (b * rB) \<and>
             representable (a * rA + b * rB) \<and> representable (a + b + (a * rA + b * rB)) \<and>
             representable (1 - (a + b + (a * rA + b * rB)))"
    proof -
      have e: "finalise (a + b) = a + b" "finalise (a * rA) = a * rA" "finalise (b * rB) = b * rB"
        "finalise (a * rA + b * rB) = a * rA + b * rB"
        "finalise (a + b + (a * rA + b * rB)) = a + b + (a * rA + b * rB)"
        "finalise (1 - (a + b + (a * rA + b * rB))) = 1 - (a + b + (a * rA + b * rB))"
        using h by (simp_all add: representable_exact)
      have "0 \<le> a \<and> 0 \<le> b \<and> finalise (a + b) < 1" using h e(1) by simp
      from rounded [OF this] show ?thesis by (simp only: e)
    qed
    show ?thesis using n ge rep rounded exact_fields by blast
  qed
  show ?thesis
    using none some fin exact getFeeRate_simps by blast
qed

lemma demo_representable:
  "representable (83 / 100)" "representable (9 / 1000)" "representable 0"
  "representable (839 / 1000)" "representable (161 / 1000)"
proof -
  have "\<bar>83 :: int\<bar> < 10 ^ 20 \<and> (83 / 100 :: rat) = of_int 83 * 10 powi (- 2)"
    by (simp add: power_int_minus_divide)
  then show "representable (83 / 100)" unfolding representable_def by blast
  have "\<bar>9 :: int\<bar> < 10 ^ 20 \<and> (9 / 1000 :: rat) = of_int 9 * 10 powi (- 3)"
    by (simp add: power_int_minus_divide)
  then show "representable (9 / 1000)" unfolding representable_def by blast
  have "\<bar>0 :: int\<bar> < 10 ^ 20 \<and> (0 :: rat) = of_int 0 * 10 powi 0" by simp
  then show "representable 0" unfolding representable_def by blast
  have "\<bar>839 :: int\<bar> < 10 ^ 20 \<and> (839 / 1000 :: rat) = of_int 839 * 10 powi (- 3)"
    by (simp add: power_int_minus_divide)
  then show "representable (839 / 1000)" unfolding representable_def by blast
  have "\<bar>161 :: int\<bar> < 10 ^ 20 \<and> (161 / 1000 :: rat) = of_int 161 * 10 powi (- 3)"
    by (simp add: power_int_minus_divide)
  then show "representable (161 / 1000)" unfolding representable_def by blast
qed

theorem C1_calculateArbitrage_witness:
  "length (outcomes demo_pm) = 2 \<and> length (outcomes demo_mf) = 2 \<and>
   calculateArbitrage 0 demo_pm demo_mf 0 1 \<noteq> Inr None \<and>
   (\<exists>opp. calculateArbitrage 0 demo_pm demo_mf 0 1 = Inr (Some opp) \<and>
      totalCost opp = Fin (83 / 100) \<and> feesA opp = Fin (9 / 1000) \<and> feesB opp = Fin 0 \<and>
      totalFees opp = Fin (9 / 1000) \<and> netCost opp = Fin (839 / 1000) \<and>
      profitMargin opp = Fin (161 / 1000))"
proof -
  have l: "length (outcomes demo_pm) = 2" "length (outcomes demo_mf) = 2"
    by (simp_all add: demo_pm_def demo_mf_def)
  have p: "Fin (45 / 100) = price (outcomes demo_pm ! 0)" "Fin (38 / 100) = price (outcomes demo_mf ! 1)"
    by (simp_all add: demo_pm_def demo_mf_def)
  have r: "2 / 100 = fee_rate (platform demo_pm)" "0 = fee_rate (platform demo_mf)"
    by (simp_all add: demo_pm_def demo_mf_def fee_rate_def)
  have ij: "((0::nat) = 0 \<and> (1::nat) = 1) \<or> ((0::nat) = 1 \<and> (1::nat) = 0)" by simp
  note inst = C1_calculateArbitrage [OF l ij p r, of 0]
  have rep: "representable ((45 / 100 :: rat) + 38 / 100)"
    "representable ((45 / 100 :: rat) * (2 / 100))" "representable ((38 / 100 :: rat) * 0)"
    "representable ((45 / 100 :: rat) * (2 / 100) + 38 / 100 * 0)"
    "representable ((45 / 100 :: rat) + 38 / 100 + (45 / 100 * (2 / 100) + 38 / 100 * 0))"
    "representable (1 - ((45 / 100 :: rat) + 38 / 100 + (45 / 100 * (2 / 100) + 38 / 100 * 0)))"
    using demo_representable by simp_all
  from inst rep(1) have a: "calculateArbitrage 0 demo_pm demo_mf 0 1 = Inr None \<longleftrightarrow> (1::rat) \<le> 45 / 100 + 38 / 100"
    by blast
  have b: "calculateArbitrage 0 demo_pm demo_mf 0 1 \<noteq> Inr None"
    using a by simp
  have pre: "(0 :: rat) \<le> 45 / 100 \<and> (0 :: rat) \<le> 38 / 100 \<and> (45 / 100 + 38 / 100 < (1 :: rat))"
    by simp
  from inst pre rep
  have "\<exists>opp. calculateArbitrage 0 demo_pm demo_mf 0 1 = Inr (Some opp) \<and>
                  totalCost opp = Fin (45 / 100 + 38 / 100) \<and>
                  feesA opp = Fin (45 / 100 * (2 / 100)) \<and>
                  feesB opp = Fin (38 / 100 * 0) \<and>
                  totalFees opp = Fin (45 / 100 * (2 / 100) + 38 / 100 * 0) \<and>
                  netCost opp = Fin (45 / 100 + 38 / 100 + (45 / 100 * (2 / 100) + 38 / 100 * 0)) \<and>
                  profitMargin opp =
                    Fin (1 - (45 / 100 + 38 / 100 + (45 / 100 * (2 / 100) + 38 / 100 * 0)))"
    by blast
  then have c: "\<exists>opp. calculateArbitrage 0 demo_pm demo_mf 0 1 = Inr (Some opp) \<and>
      totalCost opp = Fin (83 / 100) \<and> feesA opp = Fin (9 / 1000) \<and> feesB opp = Fin 0 \<and>
      totalFees opp = Fin (9 / 1000) \<and> netCost opp = Fin (839 / 1000) \<and>
      profitMargin opp = Fin (161 / 1000)"
    by simp
  show ?thesis using l b c by blast
qed

lemma finalise_error_abs: "\<bar>finalise x - x\<bar> * (2 * 10 ^ 19) \<le> \<bar>x\<bar>"
proof (cases "x = 0")
  case True
  then show ?thesis by simp
next
  case False
  show ?thesis
  proof (cases "0 < x")
    case True
    then show ?thesis using finalise_error[of x] by simp
  next
    case neg: False
    then have "0 < - x" using False by simp
    from finalise_error[OF this] have "\<bar>- finalise x + x\<bar> * (2 * 10 ^ 19) \<le> - x"
      by (simp add: finalise_minus)
    moreover have "\<bar>- finalise x + x\<bar> = \<bar>finalise x - x\<bar>" by linarith
    ultimately show ?thesis using neg by simp
  qed
qed

lemma analyzeMarketPair_eq:
  "analyzeMarketPair now m =
     Inr (concat (map (\<lambda>r. case r of Inr (Some opp) \<Rightarrow> [opp] | _ \<Rightarrow> []) (strategy_results now m)))"
proof (cases "length (outcomes (match_marketA m)) = 2 \<and> length (outcomes (match_marketB m)) = 2")
  case False
  then show ?thesis by (auto simp: analyzeMarketPair_def strategy_results_def Let_def)
next
  case True
  then have r: "(0::nat) < length (outcomes (match_marketA m))" "(1::nat) < length (outcomes (match_marketB m))"
    "(1::nat) < length (outcomes (match_marketA m))" "(0::nat) < length (outcomes (match_marketB m))"
    by simp_all
  have a: "calculateArbitrage now (match_marketA m) (match_marketB m) 0 1 \<noteq> Inl e" for e
    using r by (simp add: calculateArbitrage_def Let_def)
  have b: "calculateArbitrage now (match_marketA m) (match_marketB m) 1 0 \<noteq> Inl e" for e
    using r by (simp add: calculateArbitrage_def Let_def)
  show ?thesis
    using True a b
    by (auto simp: analyzeMarketPair_def strategy_results_def Let_def push_opt_def
             split: sum.splits option.splits)
qed

lemma collectOpportunities_eq: "collectOpportunities now ms = Inr (evaluated now ms)"
  by (induction ms) (simp_all add: evaluated_def analyzeMarketPair_eq)

lemma evaluated_fields:
  assumes "opp \<in> set (evaluated now ms)"
  shows "isProfitable opp = greaterThan_d (profitMargin opp) (Fin 0) \<and>
         roi opp = (if isProfitable opp then times_d (dividedBy (profitMargin opp) (netCost opp)) (Fin 100) else Fin 0)"
proof -
  from assms obtain m i j where "m \<in> set ms"
    "calculateArbitrage now (match_marketA m) (match_marketB m) i j = Inr (Some opp)"
    by (auto simp: evaluated_def strategy_results_def split: if_splits sum.splits option.splits)
  from calc_Some_fields [OF this(2)] show ?thesis by blast
qed

lemma roi_finite:
  assumes "0 < p" "n \<noteq> 0"
  shows "times_d (dividedBy (Fin p) (Fin n)) (Fin 100) = Fin (finalise (finalise (p / n) * 100))"
proof -
  have "p / n \<noteq> 0" using assms by simp
  then have "finalise (p / n) \<noteq> 0" by simp
  then show ?thesis using assms by (simp add: dividedBy_Fin times_Fin)
qed

lemma demo_evaluated:
  "evaluated 0 demo_matches = [recession_opportunity, fed_evaluation]"
proof -
  note ex = finalise_exact_frac[where k = 6] finalise_exact_frac[where k = 18]
  have q: "finalise (161 / 839) = 3837902264600715137 / 20000000000000000000"
    by (simp add: finalise_values)
  show ?thesis
    by (simp add: evaluated_def demo_matches_def strategy_results_def calculateArbitrage_def Let_def
          getFeeRate_simps times_Fin dividedBy_Fin zero_of_sign_def q ex
          demo_pm_def demo_mf_def demo_pm2_def demo_kal_def
          recession_opportunity_def fed_evaluation_def)
qed

text \<open>
  Claim C2, as stated, fails in its equation for \<open>roi\<close>. For the markets of scenario 1
  (PolyMarket Yes at 0.45, Manifold No at 0.38) the returned opportunity has
  \<open>profitMargin = 0.161\<close>, \<open>netCost = 0.839\<close> and \<open>roi = 19.189511323003575685\<close>, which
  is not \<open>0.161 / 0.839 \<times> 100\<close>: the quotient has no finite decimal expansion and
  \<^verbatim>\<open>dividedBy\<close> rounds it to 20 significant digits.
\<close>

theorem C2_counterexample:
  "findArbitrageOpportunities 0 demo_matches = Inr [recession_opportunity] \<and>
   profitMargin recession_opportunity = Fin (161 / 1000) \<and>
   netCost recession_opportunity = Fin (839 / 1000) \<and>
   roi recession_opportunity = Fin (19189511323003575685 / 10 ^ 18) \<and>
   (19189511323003575685 / 10 ^ 18 \<noteq> (161 / 1000 :: rat) / (839 / 1000) * 100)"
  by (simp add: findArbitrageOpportunities_def collectOpportunities_eq demo_evaluated
        recession_opportunity_def fed_evaluation_def)

text \<open>
  Claim C2, amended. \<open>findArbitrageOpportunities\<close> returns exactly the evaluated strategy
  results whose \<open>isProfitable\<close> flag is set. Every opportunity constructed has
  \<open>isProfitable\<close> iff \<open>profitMargin > 0\<close>; every returned opportunity has
  \<open>profitMargin > 0\<close> and \<open>roi = profitMargin.dividedBy(netCost).times(100)\<close> in decimal.js
  arithmetic: for a net cost other than zero, the quotient \<open>profitMargin / netCost\<close>
  rounded to 20 significant digits, multiplied by 100 and rounded again, each rounding
  changing its argument by at most half a unit of the 20th significant digit; it is
  \<open>profitMargin / netCost \<times> 100\<close> itself when the quotient and the product have at most
  20 significant digits. Every evaluation that is not profitable has \<open>roi = 0\<close> and is
  not returned.
\<close>

theorem C2_findArbitrageOpportunities:
  "findArbitrageOpportunities now matches = Inr (filter isProfitable (evaluated now matches)) \<and>
   (\<forall>opp \<in> set (evaluated now matches).
      (isProfitable opp \<longleftrightarrow> greaterThan_d (profitMargin opp) (Fin 0)) \<and>
      (\<not> isProfitable opp \<longrightarrow>
         roi opp = Fin 0 \<and> opp \<notin> set (filter isProfitable (evaluated now matches)))) \<and>
   (\<forall>opp \<in> set (filter isProfitable (evaluated now matches)).
      greaterThan_d (profitMargin opp) (Fin 0) \<and>
      roi opp = times_d (dividedBy (profitMargin opp) (netCost opp)) (Fin 100) \<and>
      (\<forall>p n. profitMargin opp = Fin p \<and> netCost opp = Fin n \<and> n \<noteq> 0 \<longrightarrow>
         roi opp = Fin (finalise (finalise (p / n) * 100)) \<and>
         \<bar>finalise (p / n) - p / n\<bar> * (2 * 10 ^ 19) \<le> \<bar>p / n\<bar> \<and>
         \<bar>finalise (finalise (p / n) * 100) - finalise (p / n) * 100\<bar> * (2 * 10 ^ 19)
           \<le> \<bar>finalise (p / n) * 100\<bar> \<and>
         (representable (p / n) \<and> representable (p / n * 100) \<longrightarrow>
            roi opp = Fin (p / n * 100))))"
proof -
  have "findArbitrageOpportunities now matches = Inr (filter isProfitable (evaluated now matches))"
    by (simp add: findArbitrageOpportunities_def collectOpportunities_eq)
  moreover have "\<forall>opp \<in> set (evaluated now matches).
      (isProfitable opp \<longleftrightarrow> greaterThan_d (profitMargin opp) (Fin 0)) \<and>
      (\<not> isProfitable opp \<longrightarrow>
         roi opp = Fin 0 \<and> opp \<notin> set (filter isProfitable (evaluated now matches)))"
    using evaluated_fields by auto
  moreover have "greaterThan_d (profitMargin opp) (Fin 0) \<and>
      roi opp = times_d (dividedBy (profitMargin opp) (netCost opp)) (Fin 100) \<and>
      (\<forall>p n. profitMargin opp = Fin p \<and> netCost opp = Fin n \<and> n \<noteq> 0 \<longrightarrow>
         roi opp = Fin (finalise (finalise (p / n) * 100)) \<and>
         \<bar>finalise (p / n) - p / n\<bar> * (2 * 10 ^ 19) \<le> \<bar>p / n\<bar> \<and>
         \<bar>finalise (finalise (p / n) * 100) - finalise (p / n) * 100\<bar> * (2 * 10 ^ 19)
           \<le> \<bar>finalise (p / n) * 100\<bar> \<and>
         (representable (p / n) \<and> representable (p / n * 100) \<longrightarrow>
            roi opp = Fin (p / n * 100)))"
    if mem: "opp \<in> set (filter isProfitable (evaluated now matches))" for opp
  proof -
    from mem have ev: "opp \<in> set (evaluated now matches)" and pr: "isProfitable opp" by simp_all
    from evaluated_fields [OF ev] pr
    have gt: "greaterThan_d (profitMargin opp) (Fin 0)"
      and r: "roi opp = times_d (dividedBy (profitMargin opp) (netCost opp)) (Fin 100)"
      by simp_all
    have "roi opp = Fin (finalise (finalise (p / n) * 100)) \<and>
         \<bar>finalise (p / n) - p / n\<bar> * (2 * 10 ^ 19) \<le> \<bar>p / n\<bar> \<and>
         \<bar>finalise (finalise (p / n) * 100) - finalise (p / n) * 100\<bar> * (2 * 10 ^ 19)
           \<le> \<bar>finalise (p / n) * 100\<bar> \<and>
         (representable (p / n) \<and> representable (p / n * 100) \<longrightarrow> roi opp = Fin (p / n * 100))"
      if h: "profitMargin opp = Fin p \<and> netCost opp = Fin n \<and> n \<noteq> 0" for p n
    proof -
      have ppos: "0 < p" using gt h by simp
      have v: "roi opp = Fin (finalise (finalise (p / n) * 100))"
        using r h roi_finite [OF ppos] by simp
      have "roi opp = Fin (p / n * 100)"
        if "representable (p / n) \<and> representable (p / n * 100)"
        using v that by (simp add: representable_exact)
      then show ?thesis using v finalise_error_abs by blast
    qed
    then show ?thesis using gt r by blast
  qed
  ultimately show ?thesis by blast
qed

theorem C2_findArbitrageOpportunities_witness:
  "evaluated 0 demo_matches = [recession_opportunity, fed_evaluation] \<and>
   findArbitrageOpportunities 0 demo_matches = Inr [recession_opportunity] \<and>
   isProfitable recession_opportunity \<and> \<not> isProfitable fed_evaluation \<and>
   roi fed_evaluation = Fin 0 \<and>
   greaterThan_d (profitMargin recession_opportunity) (Fin 0) \<and>
   roi recession_opportunity =
     times_d (dividedBy (profitMargin recession_opportunity) (netCost recession_opportunity)) (Fin 100) \<and>
   roi recession_opportunity = Fin (finalise (finalise (161 / 839) * 100)) \<and>
   roi recession_opportunity = Fin (19189511323003575685 / 10 ^ 18)"
proof -
  note ev = demo_evaluated
  have flags: "isProfitable recession_opportunity" "\<not> isProfitable fed_evaluation"
    "roi fed_evaluation = Fin 0"
    by (simp_all add: recession_opportunity_def fed_evaluation_def)
  have res: "findArbitrageOpportunities 0 demo_matches = Inr [recession_opportunity]"
    using C2_findArbitrageOpportunities [of 0 demo_matches] by (simp add: ev flags)
  have mem: "recession_opportunity \<in> set (filter isProfitable (evaluated 0 demo_matches))"
    by (simp add: ev flags)
  have pn: "profitMargin recession_opportunity = Fin (161 / 1000) \<and>
            netCost recession_opportunity = Fin (839 / 1000) \<and> (839 / 1000 :: rat) \<noteq> 0"
    by (simp add: recession_opportunity_def)
  from C2_findArbitrageOpportunities [of 0 demo_matches] mem
  have a: "greaterThan_d (profitMargin recession_opportunity) (Fin 0) \<and>
        roi recession_opportunity =
          times_d (dividedBy (profitMargin recession_opportunity) (netCost recession_opportunity)) (Fin 100)"
    by blast
  from C2_findArbitrageOpportunities [of 0 demo_matches] mem pn
  have "roi recession_opportunity = Fin (finalise (finalise ((161 / 1000) / (839 / 1000)) * 100))"
    by blast
  then have b: "roi recession_opportunity = Fin (finalise (finalise (161 / 839) * 100))" by simp
  have c: "roi recession_opportunity = Fin (19189511323003575685 / 10 ^ 18)"
    by (simp add: recession_opportunity_def)
  show ?thesis using ev res flags a b c by simp
qed

subsection \<open>Retry driver\<close>

lemma retry_loop_failure:
  assumes "int k < maxRetries opts" and "i \<le> k"
    and "\<forall>j. i \<le> j \<and> j < k \<longrightarrow> (\<exists>e'. fn j = Inl e' \<and> shouldRetry opts e')"
    and "fn k = Inl e" and "\<not> shouldRetry opts e \<or> int k = maxRetries opts - 1"
  shows "retry_loop fn opts i slept =
           \<lparr>outcome_of = Inl e, attempts = k + 1, sleeps = slept @ map (backoff opts) [i..<k]\<rparr>"
  using assms
proof (induction "k - i" arbitrary: i slept)
  case 0
  then have "i = k" by simp
  with 0 show ?case
    by (subst retry_loop.simps) auto
next
  case (Suc d)
  then have lt: "i < k" by simp
  with Suc.prems obtain e' where e': "fn i = Inl e'" "shouldRetry opts e'" by auto
  have ih: "retry_loop fn opts (i + 1) (slept @ [backoff opts i]) =
      \<lparr>outcome_of = Inl e, attempts = k + 1,
       sleeps = (slept @ [backoff opts i]) @ map (backoff opts) [i + 1..<k]\<rparr>"
    using Suc.hyps(2) Suc.prems lt by (intro Suc.hyps(1)) auto
  have nl: "int i \<noteq> maxRetries opts - 1" "int i < maxRetries opts"
    using lt Suc.prems(1) by auto
  have "[i..<k] = i # [i + 1..<k]" using lt by (simp add: upt_conv_Cons)
  then show ?case
    using e' nl ih by (subst retry_loop.simps) (simp add: backoff_def)
qed

lemma retry_loop_success:
  assumes "int k < maxRetries opts" and "i \<le> k"
    and "\<forall>j. i \<le> j \<and> j < k \<longrightarrow> (\<exists>e'. fn j = Inl e' \<and> shouldRetry opts e')"
    and "fn k = Inr v"
  shows "retry_loop fn opts i slept =
           \<lparr>outcome_of = Inr v, attempts = k + 1, sleeps = slept @ map (backoff opts) [i..<k]\<rparr>"
  using assms
proof (induction "k - i" arbitrary: i slept)
  case 0
  then have "i = k" by simp
  with 0 show ?case
    by (subst retry_loop.simps) auto
next
  case (Suc d)
  then have lt: "i < k" by simp
  with Suc.prems obtain e' where e': "fn i = Inl e'" "shouldRetry opts e'" by auto
  have ih: "retry_loop fn opts (i + 1) (slept @ [backoff opts i]) =
      \<lparr>outcome_of = Inr v, attempts = k + 1,
       sleeps = (slept @ [backoff opts i]) @ map (backoff opts) [i + 1..<k]\<rparr>"
    using Suc.hyps(2) Suc.prems lt by (intro Suc.hyps(1)) auto
  have nl: "int i \<noteq> maxRetries opts - 1" "int i < maxRetries opts"
    using lt Suc.prems(1) by auto
  have "[i..<k] = i # [i + 1..<k]" using lt by (simp add: upt_conv_Cons)
  then show ?case
    using e' nl ih by (subst retry_loop.simps) (simp add: backoff_def)
qed

lemma retry_loop_Inr_source:
  "outcome_of (retry_loop fn opts i slept) = Inr v \<Longrightarrow> \<exists>j. fn j = Inr v"
proof (induction fn opts i slept rule: retry_loop.induct)
  case (1 fn opts i slept)
  show ?case
  proof (cases "int i < maxRetries opts")
    case False
    with "1.prems" show ?thesis by (subst (asm) retry_loop.simps) simp
  next
    case True
    show ?thesis
    proof (cases "fn i")
      case (Inr w)
      with True "1.prems" have "w = v" by (subst (asm) retry_loop.simps) simp
      with Inr show ?thesis by blast
    next
      case (Inl err)
      show ?thesis
      proof (cases "int i = maxRetries opts - 1 \<or> \<not> shouldRetry opts err")
        case True
        with \<open>int i < maxRetries opts\<close> Inl "1.prems" show ?thesis
          by (subst (asm) retry_loop.simps) (auto split: if_splits)
      next
        case False
        with \<open>int i < maxRetries opts\<close> Inl "1.prems"
        have "outcome_of (retry_loop fn opts (i + 1)
                (slept @ [min (initialDelay opts * 2 ^ i) (maxDelay opts)])) = Inr v"
          by (subst (asm) retry_loop.simps) simp
        with "1.IH" [OF \<open>int i < maxRetries opts\<close> Inl] False show ?thesis by blast
      qed
    qed
  qed
qed

lemma retryWithBackoff_no_attempts:
  "maxRetries opts \<le> 0 \<Longrightarrow>
   retryWithBackoff fn opts = \<lparr>outcome_of = Inl (Error ''Retry failed''), attempts = 0, sleeps = []\<rparr>"
  unfolding retryWithBackoff_def by (subst retry_loop.simps) simp

text \<open>
  Claim C9. \<open>retryWithBackoff\<close> with \<open>maxRetries = N\<close>, \<open>N \<ge> 1\<close>: if every call of
  \<open>fn\<close> throws an error for which \<open>shouldRetry\<close> holds, exactly \<open>N\<close> calls are made,
  the delays slept are \<open>min (initialDelay \<times> 2^i) maxDelay\<close> for \<open>i = 0 .. N - 2\<close>, in this
  order, and the error of the last call is propagated. If the call number \<open>k\<close> (from 0) is
  the first to throw an error for which \<open>shouldRetry\<close> is false, or is the last call
  allowed, that error is propagated after \<open>k + 1\<close> calls and no further call is made.
\<close>

theorem C9_retryWithBackoff:
  assumes "maxRetries opts = int N" and "1 \<le> N"
  shows "((\<forall>i<N. \<exists>e. fn i = Inl e \<and> shouldRetry opts e) \<longrightarrow>
            attempts (retryWithBackoff fn opts) = N \<and>
            sleeps (retryWithBackoff fn opts) =
              map (\<lambda>i. min (initialDelay opts * 2 ^ i) (maxDelay opts)) [0..<N - 1] \<and>
            outcome_of (retryWithBackoff fn opts) = fn (N - 1)) \<and>
         (\<forall>k e. k < N \<and> (\<forall>j<k. \<exists>e'. fn j = Inl e' \<and> shouldRetry opts e') \<and>
                 fn k = Inl e \<and> (\<not> shouldRetry opts e \<or> k = N - 1) \<longrightarrow>
            outcome_of (retryWithBackoff fn opts) = Inl e \<and>
            attempts (retryWithBackoff fn opts) = k + 1 \<and>
            sleeps (retryWithBackoff fn opts) =
              map (\<lambda>i. min (initialDelay opts * 2 ^ i) (maxDelay opts)) [0..<k])"
proof -
  have b: "backoff opts = (\<lambda>i. min (initialDelay opts * 2 ^ i) (maxDelay opts))"
    by (rule ext) (simp add: backoff_def)
  have gen: "retryWithBackoff fn opts =
      \<lparr>outcome_of = Inl e, attempts = k + 1,
       sleeps = map (\<lambda>i. min (initialDelay opts * 2 ^ i) (maxDelay opts)) [0..<k]\<rparr>"
    if "k < N" "\<forall>j<k. \<exists>e'. fn j = Inl e' \<and> shouldRetry opts e'" "fn k = Inl e"
       "\<not> shouldRetry opts e \<or> k = N - 1" for k e
  proof -
    have "int k < maxRetries opts" using that(1) assms(1) by simp
    moreover have "\<not> shouldRetry opts e \<or> int k = maxRetries opts - 1"
      using that(4) assms by auto
    ultimately show ?thesis
      unfolding retryWithBackoff_def
      using retry_loop_failure [of k opts 0 fn e "[]"] that(2,3) by (simp add: b)
  qed
  have all: "attempts (retryWithBackoff fn opts) = N \<and>
            sleeps (retryWithBackoff fn opts) =
              map (\<lambda>i. min (initialDelay opts * 2 ^ i) (maxDelay opts)) [0..<N - 1] \<and>
            outcome_of (retryWithBackoff fn opts) = fn (N - 1)"
    if h: "\<forall>i<N. \<exists>e. fn i = Inl e \<and> shouldRetry opts e"
  proof -
    have lt: "N - 1 < N" using assms(2) by simp
    with h have "\<exists>e. fn (N - 1) = Inl e \<and> shouldRetry opts e" by blast
    then obtain e where e: "fn (N - 1) = Inl e" by blast
    note lt
    moreover have "\<forall>j<N - 1. \<exists>e'. fn j = Inl e' \<and> shouldRetry opts e'" using h by simp
    ultimately show ?thesis using gen [of "N - 1" e] e assms(2) by simp
  qed
  have part2: "\<forall>k e. k < N \<and> (\<forall>j<k. \<exists>e'. fn j = Inl e' \<and> shouldRetry opts e') \<and>
                 fn k = Inl e \<and> (\<not> shouldRetry opts e \<or> k = N - 1) \<longrightarrow>
            outcome_of (retryWithBackoff fn opts) = Inl e \<and>
            attempts (retryWithBackoff fn opts) = k + 1 \<and>
            sleeps (retryWithBackoff fn opts) =
              map (\<lambda>i. min (initialDelay opts * 2 ^ i) (maxDelay opts)) [0..<k]"
  proof (intro allI impI)
    fix k e
    assume a: "k < N \<and> (\<forall>j<k. \<exists>e'. fn j = Inl e' \<and> shouldRetry opts e') \<and>
                 fn k = Inl e \<and> (\<not> shouldRetry opts e \<or> k = N - 1)"
    then have "retryWithBackoff fn opts =
      \<lparr>outcome_of = Inl e, attempts = k + 1,
       sleeps = map (\<lambda>i. min (initialDelay opts * 2 ^ i) (maxDelay opts)) [0..<k]\<rparr>"
      by (intro gen) blast+
    then show "outcome_of (retryWithBackoff fn opts) = Inl e \<and>
            attempts (retryWithBackoff fn opts) = k + 1 \<and>
            sleeps (retryWithBackoff fn opts) =
              map (\<lambda>i. min (initialDelay opts * 2 ^ i) (maxDelay opts)) [0..<k]"
      by simp
  qed
  from all part2 show ?thesis by blast
qed


theorem C9_retryWithBackoff_witness:
  "attempts (retryWithBackoff (\<lambda>i. (Inl (APIError (Some 503)) :: js_error + nat)) demo_retry_options) = 6 \<and>
   sleeps (retryWithBackoff (\<lambda>i. (Inl (APIError (Some 503)) :: js_error + nat)) demo_retry_options) =
     [1000, 2000, 4000, 8000, 10000] \<and>
   outcome_of (retryWithBackoff (\<lambda>i. (Inl (APIError (Some 503)) :: js_error + nat)) demo_retry_options) =
     Inl (APIError (Some 503)) \<and>
   outcome_of (retryWithBackoff (\<lambda>i. if i = 0 then Inl (APIError None) else (Inl (APIError (Some 404)) :: js_error + nat))
                demo_retry_options) = Inl (APIError (Some 404)) \<and>
   attempts (retryWithBackoff (\<lambda>i. if i = 0 then Inl (APIError None) else (Inl (APIError (Some 404)) :: js_error + nat))
                demo_retry_options) = 2 \<and>
   sleeps (retryWithBackoff (\<lambda>i. if i = 0 then Inl (APIError None) else (Inl (APIError (Some 404)) :: js_error + nat))
                demo_retry_options) = [1000]"
proof -
  have m: "maxRetries demo_retry_options = int 6" by (simp add: demo_retry_options_def)
  have n: "(1::nat) \<le> 6" by simp
  have r503: "shouldRetry demo_retry_options (APIError (Some 503))"
    by (simp add: demo_retry_options_def adapterShouldRetry_def isAPIError_def isRetryable_def statusCode_def)
  have rnet: "shouldRetry demo_retry_options (APIError None)"
    by (simp add: demo_retry_options_def adapterShouldRetry_def isAPIError_def isRetryable_def statusCode_def)
  have r404: "\<not> shouldRetry demo_retry_options (APIError (Some 404))"
    by (simp add: demo_retry_options_def adapterShouldRetry_def isAPIError_def isRetryable_def statusCode_def)
  have u5: "[0..<5] = [0, 1, 2, 3, 4::nat]" by code_simp
  have u1: "[0..<1] = [0::nat]" by simp
  let ?f = "\<lambda>i::nat. (Inl (APIError (Some 503)) :: js_error + nat)"
  let ?g = "\<lambda>i::nat. if i = 0 then Inl (APIError None) else (Inl (APIError (Some 404)) :: js_error + nat)"
  have "\<forall>i<6. \<exists>e. ?f i = Inl e \<and> shouldRetry demo_retry_options e"
    using r503 by simp
  with C9_retryWithBackoff [OF m n, of ?f]
  have a: "attempts (retryWithBackoff ?f demo_retry_options) = 6 \<and>
     sleeps (retryWithBackoff ?f demo_retry_options) =
       map (\<lambda>i. min (initialDelay demo_retry_options * 2 ^ i) (maxDelay demo_retry_options)) [0..<6 - 1] \<and>
     outcome_of (retryWithBackoff ?f demo_retry_options) = ?f (6 - 1)"
    by blast
  have "(1::nat) < 6 \<and> (\<forall>j<1. \<exists>e'. ?g j = Inl e' \<and> shouldRetry demo_retry_options e') \<and>
        ?g 1 = Inl (APIError (Some 404)) \<and>
        (\<not> shouldRetry demo_retry_options (APIError (Some 404)) \<or> (1::nat) = 6 - 1)"
    using rnet r404 by simp
  with C9_retryWithBackoff [OF m n, of ?g]
  have b: "outcome_of (retryWithBackoff ?g demo_retry_options) = Inl (APIError (Some 404)) \<and>
     attempts (retryWithBackoff ?g demo_retry_options) = 1 + 1 \<and>
     sleeps (retryWithBackoff ?g demo_retry_options) =
       map (\<lambda>i. min (initialDelay demo_retry_options * 2 ^ i) (maxDelay demo_retry_options)) [0..<1]"
    by blast
  from a have a': "attempts (retryWithBackoff ?f demo_retry_options) = 6 \<and>
     sleeps (retryWithBackoff ?f demo_retry_options) = [1000, 2000, 4000, 8000, 10000] \<and>
     outcome_of (retryWithBackoff ?f demo_retry_options) = Inl (APIError (Some 503))"
    by (simp add: u5 demo_retry_options_def)
  from b have b': "outcome_of (retryWithBackoff ?g demo_retry_options) = Inl (APIError (Some 404)) \<and>
     attempts (retryWithBackoff ?g demo_retry_options) = 2 \<and>
     sleeps (retryWithBackoff ?g demo_retry_options) = [1000]"
    by (simp add: u1 demo_retry_options_def)
  from a' b' show ?thesis by blast
qed

subsection \<open>Alert threshold\<close>

lemma thin_evaluation:
  "calculateArbitrage 0 demo_pm2 demo_mf2 0 1 = Inr (Some thin_opportunity)"
proof -
  note ex = finalise_exact_frac[where k = 6] finalise_exact_frac[where k = 18]
  have q: "finalise (1 / 99) = 1010101010101010101 / 100000000000000000000"
    by (simp add: finalise_values)
  show ?thesis
    by (simp add: calculateArbitrage_def Let_def demo_pm2_def demo_mf2_def thin_opportunity_def
          getFeeRate_simps times_Fin dividedBy_Fin zero_of_sign_def q ex)
qed

lemma thin_passes: "meetsAlertThreshold demo_alert_config thin_opportunity"
proof -
  note ex = finalise_exact_frac[where k = 16]
  show ?thesis
    by (simp add: meetsAlertThreshold_def Let_def thin_opportunity_def demo_alert_config_def
          times_Fin ex)
qed

text \<open>
  Claim C7. The claim: for an opportunity that the calculator produced, the threshold test
  passes exactly when the ROI as a percentage, \<open>100 \<times> profitMargin / netCost\<close>, is at least
  \<open>minProfitPercent\<close> and \<open>profitMargin\<close> is at least \<open>minProfitAmount\<close>. The code at the
  failing input: the calculator's opportunity for PolyMarket Yes at 0.50 and Manifold No
  at 0.48 has \<open>profitMargin = 0.01\<close>, \<open>netCost = 0.99\<close> and \<open>roi = 1.010101010101010101\<close>,
  which is already the percentage (1.01 per cent); \<open>meetsAlertThreshold\<close> multiplies it by
  100 again and passes it against \<open>minProfitPercent = 5\<close>.
\<close>

theorem C7_meetsAlertThreshold_failing_input:
  "calculateArbitrage 0 demo_pm2 demo_mf2 0 1 = Inr (Some thin_opportunity) \<and>
   profitMargin thin_opportunity = Fin (1 / 100) \<and>
   netCost thin_opportunity = Fin (99 / 100) \<and>
   roi thin_opportunity = Fin (1010101010101010101 / 10 ^ 18) \<and>
   meetsAlertThreshold demo_alert_config thin_opportunity \<and>
   \<not> (minProfitPercent demo_alert_config \<le> 100 * ((1 / 100) / (99 / 100))) \<and>
   \<not> (minProfitPercent demo_alert_config \<le> 1010101010101010101 / 10 ^ 18) \<and>
   minProfitAmount demo_alert_config \<le> 1 / 100"
  using thin_evaluation thin_passes by (simp add: thin_opportunity_def demo_alert_config_def)

theorem C7_meetsAlertThreshold_failing_input_witness:
  "meetsAlertThreshold demo_alert_config thin_opportunity \<and>
   100 * ((1 / 100) / (99 / 100)) < minProfitPercent demo_alert_config"
  using C7_meetsAlertThreshold_failing_input by (simp add: demo_alert_config_def)

lemma meetsAlertThreshold_finite:
  assumes "roi opp = Fin r" and "profitMargin opp = Fin p" and "0 < r"
  shows "meetsAlertThreshold cfg opp \<longleftrightarrow>
           minProfitPercent cfg \<le> finalise (r * 100) \<and> minProfitAmount cfg \<le> p"
  using assms by (simp add: meetsAlertThreshold_def Let_def times_Fin)

subsection \<open>Adapters\<close>

text \<open>
  Claim C10, as stated, fails for PolyMarket: on a request that fails with status 500,
  \<open>fetchMarketById\<close> returns null instead of propagating the error.
\<close>

theorem C10_counterexample:
  "fetchMarketById demo_lib (RequestFailed (AxiosError (Some 500) None)) = Inr None"
  by (simp add: fetchMarketById_def)

lemma classify_404_iff:
  "isAPIError (classifyError e) \<and> statusCode (classifyError e) = Some 404 \<longleftrightarrow>
     (\<exists>ra. e = AxiosError (Some 404) ra)"
  by (cases e) (auto simp: classifyError_def isAPIError_def statusCode_def split: option.splits)

text \<open>
  Claim C10, amended. Kalshi's \<open>fetchMarketByTicker\<close> returns null iff the HTTP request
  fails with status 404; for every other failure (another status, a network error, a
  payload that fails the schema) it propagates the classified error. PolyMarket's
  \<open>fetchMarketById\<close> never propagates an error: it returns null on every failure, the
  status 404 included.
\<close>

theorem C10_single_market_fetch:
  "(fetchMarketByTicker lib resp = Inr None \<longleftrightarrow>
      (\<exists>ra. resp = RequestFailed (AxiosError (Some 404) ra))) \<and>
   (\<forall>e. resp = RequestFailed e \<and> (\<forall>ra. e \<noteq> AxiosError (Some 404) ra) \<longrightarrow>
      fetchMarketByTicker lib resp = Inl (classifyError e)) \<and>
   (resp = SchemaMismatch \<longrightarrow> fetchMarketByTicker lib resp = Inl (classifyError ValidationError)) \<and>
   (\<forall>v. resp = Validated v \<longrightarrow>
      fetchMarketByTicker lib resp = Inr (Some (toStandardMarket_kalshi lib v))) \<and>
   (\<forall>e. fetchMarketById lib presp \<noteq> Inl e) \<and>
   (fetchMarketById lib presp = Inr None \<longleftrightarrow>
      (\<forall>ev m. presp = Validated ev \<longrightarrow> toStandardMarket_pm lib ev \<noteq> Inr m))"
proof -
  have k1: "fetchMarketByTicker lib resp = Inr None \<longleftrightarrow>
      (\<exists>ra. resp = RequestFailed (AxiosError (Some 404) ra))"
  proof (cases resp)
    case (Validated v)
    then show ?thesis by (simp add: fetchMarketByTicker_def)
  next
    case SchemaMismatch
    then show ?thesis
      by (simp add: fetchMarketByTicker_def classifyError_def isAPIError_def)
  next
    case (RequestFailed e)
    then show ?thesis
      using classify_404_iff [of e] by (auto simp: fetchMarketByTicker_def Let_def)
  qed
  have k2: "\<forall>e. resp = RequestFailed e \<and> (\<forall>ra. e \<noteq> AxiosError (Some 404) ra) \<longrightarrow>
      fetchMarketByTicker lib resp = Inl (classifyError e)"
    using classify_404_iff by (auto simp: fetchMarketByTicker_def Let_def)
  have k3: "resp = SchemaMismatch \<longrightarrow> fetchMarketByTicker lib resp = Inl (classifyError ValidationError)"
    by (simp add: fetchMarketByTicker_def classifyError_def isAPIError_def)
  have k4: "\<forall>v. resp = Validated v \<longrightarrow>
      fetchMarketByTicker lib resp = Inr (Some (toStandardMarket_kalshi lib v))"
    by (simp add: fetchMarketByTicker_def)
  have p1: "\<forall>e. fetchMarketById lib presp \<noteq> Inl e"
    by (auto simp: fetchMarketById_def Let_def split: api_response.splits sum.splits)
  have p2: "fetchMarketById lib presp = Inr None \<longleftrightarrow>
      (\<forall>ev m. presp = Validated ev \<longrightarrow> toStandardMarket_pm lib ev \<noteq> Inr m)"
    by (cases presp) (auto simp: fetchMarketById_def Let_def split: sum.splits)
  from k1 k2 k3 k4 p1 p2 show ?thesis by blast
qed

theorem C10_single_market_fetch_witness:
  "fetchMarketByTicker demo_lib (RequestFailed (AxiosError (Some 404) None)) = Inr None \<and>
   fetchMarketByTicker demo_lib (RequestFailed (AxiosError (Some 500) None)) = Inl (APIError (Some 500)) \<and>
   fetchMarketByTicker demo_lib SchemaMismatch = Inl ScannerError \<and>
   fetchMarketById demo_lib (RequestFailed (AxiosError (Some 404) None)) = Inr None \<and>
   fetchMarketById demo_lib SchemaMismatch = Inr None"
proof -
  have a: "fetchMarketByTicker demo_lib (RequestFailed (AxiosError (Some 404) None)) = Inr None"
    using C10_single_market_fetch [of demo_lib "RequestFailed (AxiosError (Some 404) None)"]
    by blast
  have "\<forall>ra. AxiosError (Some 500) None \<noteq> AxiosError (Some 404) ra" by simp
  then have b: "fetchMarketByTicker demo_lib (RequestFailed (AxiosError (Some 500) None)) =
      Inl (classifyError (AxiosError (Some 500) None))"
    using C10_single_market_fetch [of demo_lib "RequestFailed (AxiosError (Some 500) None)"]
    by blast
  have c: "fetchMarketByTicker demo_lib SchemaMismatch = Inl (classifyError ValidationError)"
    using C10_single_market_fetch [of demo_lib SchemaMismatch] by blast
  have d: "fetchMarketById demo_lib (RequestFailed (AxiosError (Some 404) None)) = Inr None"
    using C10_single_market_fetch [of demo_lib _ "RequestFailed (AxiosError (Some 404) None)"]
    by simp
  have e: "fetchMarketById demo_lib SchemaMismatch = Inr None"
    using C10_single_market_fetch [of demo_lib _ SchemaMismatch] by simp
  from a b c d e show ?thesis by (simp add: classifyError_def)
qed


lemma retryWithBackoff_first_success:
  "0 < maxRetries opts \<Longrightarrow> fn 0 = Inr v \<Longrightarrow> outcome_of (retryWithBackoff fn opts) = Inr v"
  unfolding retryWithBackoff_def by (subst retry_loop.simps) simp

lemma retryWithBackoff_Inr_source:
  "outcome_of (retryWithBackoff fn opts) = Inr v \<Longrightarrow> \<exists>j. fn j = Inr v"
  unfolding retryWithBackoff_def by (rule retry_loop_Inr_source)

lemma odd_kalshi_fetch:
  "outcome_of (fetchMarkets_kalshi demo_lib odd_kalshi_responses) =
     Inr [toStandardMarket_kalshi demo_lib odd_kalshi_market]"
proof -
  have k: "kalshi_operation demo_lib (odd_kalshi_responses 0) =
      Inr [toStandardMarket_kalshi demo_lib odd_kalshi_market]"
    by (simp add: kalshi_operation_def odd_kalshi_responses_def odd_kalshi_market_def)
  show ?thesis
    unfolding fetchMarkets_kalshi_def
    by (rule retryWithBackoff_first_success) (simp_all add: adapterRetryOptions_def k)
qed

lemma three_way_fetch:
  "outcome_of (fetchMarkets_pm demo_lib three_way_responses) = Inr [three_way_market]"
proof -
  have p: "pm_operation demo_lib (three_way_responses 0) = Inr [three_way_market]"
    by (simp add: pm_operation_def three_way_responses_def three_way_event_def
          toStandardMarket_pm_def demo_lib_def three_way_market_def)
  show ?thesis
    unfolding fetchMarkets_pm_def
    by (rule retryWithBackoff_first_success) (simp_all add: adapterRetryOptions_def p)
qed

lemma certain_manifold_fetch:
  "outcome_of (fetchMarkets_manifold demo_lib 10 certain_manifold_responses) =
     Inr [toStandardMarket_manifold demo_lib certain_manifold_market]"
proof -
  have p: "manifold_operation demo_lib 10 (certain_manifold_responses 0) =
      Inr [toStandardMarket_manifold demo_lib certain_manifold_market]"
    by (simp add: manifold_operation_def certain_manifold_responses_def
          certain_manifold_market_def isBinaryMarket_def)
  show ?thesis
    unfolding fetchMarkets_manifold_def
    by (rule retryWithBackoff_first_success) (simp_all add: adapterRetryOptions_def p)
qed

text \<open>
  Claim C3, as stated, fails: a Kalshi payload that passes the schema gives a market with
  an empty id, an empty title and the price 1.5, and a PolyMarket payload with three
  outcomes gives a market with three outcomes.
\<close>

theorem C3_counterexample:
  "outcome_of (fetchMarkets_kalshi demo_lib odd_kalshi_responses) =
     Inr [toStandardMarket_kalshi demo_lib odd_kalshi_market] \<and>
   market_id (toStandardMarket_kalshi demo_lib odd_kalshi_market) = [] \<and>
   title (toStandardMarket_kalshi demo_lib odd_kalshi_market) = [] \<and>
   map price (outcomes (toStandardMarket_kalshi demo_lib odd_kalshi_market)) = [Fin (3 / 2), Fin 0] \<and>
   \<not> lessThanOrEqualTo (Fin (3 / 2)) (Fin 1) \<and>
   outcome_of (fetchMarkets_pm demo_lib three_way_responses) = Inr [three_way_market] \<and>
   length (outcomes three_way_market) = 3"
proof -
  have c: "market_id (toStandardMarket_kalshi demo_lib odd_kalshi_market) = [] \<and>
   title (toStandardMarket_kalshi demo_lib odd_kalshi_market) = [] \<and>
   map price (outcomes (toStandardMarket_kalshi demo_lib odd_kalshi_market)) = [Fin (3 / 2), Fin 0]"
    by (simp add: toStandardMarket_kalshi_def odd_kalshi_market_def cents_or_zero_def Let_def
          truthy_def Decimal_of_number_def demo_lib_def)
  have d: "\<not> lessThanOrEqualTo (Fin (3 / 2)) (Fin 1)"
    by (simp add: lessThanOrEqualTo_def)
  have e: "length (outcomes three_way_market) = 3" by (simp add: three_way_market_def)
  from odd_kalshi_fetch three_way_fetch c d e show ?thesis by blast
qed

lemma map_outcomes_names:
  "map_outcomes lib prices i names = Inr outs \<Longrightarrow> map name outs = names"
  by (induction names arbitrary: i outs) (auto split: if_splits option.splits sum.splits)

lemma toStandardMarket_pm_fields:
  assumes "toStandardMarket_pm lib ev = Inr m"
  shows "\<exists>names. JSON_parse lib (outcomes_json ev) = Some names \<and> market_id m = pm_id ev \<and>
           title m = question ev \<and> platform m = POLYMARKET \<and> map name (outcomes m) = names"
  using assms
  by (auto simp: toStandardMarket_pm_def split: option.splits sum.splits if_splits
           dest: map_outcomes_names)

lemma map_events_member:
  "map_events lib evs = Inr ms \<Longrightarrow> m \<in> set ms \<Longrightarrow>
     \<exists>ev \<in> set evs. toStandardMarket_pm lib ev = Inr m"
  by (induction evs arbitrary: ms) (auto split: sum.splits)

lemma kalshi_operation_Inr:
  "kalshi_operation lib resp = Inr ms \<Longrightarrow>
     \<exists>ks. resp = Validated ks \<and>
       ms = map (toStandardMarket_kalshi lib)
              (filter (\<lambda>market. market_type market = binary \<and> yes_ask market \<noteq> None) ks)"
  by (cases resp) (simp_all add: kalshi_operation_def)

lemma manifold_operation_Inr:
  "manifold_operation lib n resp = Inr ms \<Longrightarrow>
     \<exists>ks. resp = Validated ks \<and>
       ms = map (toStandardMarket_manifold lib) (take n (filter isBinaryMarket ks))"
  by (cases resp) (simp_all add: manifold_operation_def)

lemma pm_operation_Inr:
  "pm_operation lib resp = Inr ms \<Longrightarrow> \<exists>evs. resp = Validated evs \<and> map_events lib evs = Inr ms"
  by (cases resp) (auto simp: pm_operation_def split: sum.splits)

text \<open>
  Claim C3, amended. Every market that \<open>fetchMarkets\<close> of the Kalshi or of the Manifold
  adapter returns has exactly two outcomes: YES and NO at \<^verbatim>\<open>new Decimal(ask / 100)\<close> for
  the two asks of a binary entry of the payload, the quotient being a quotient of doubles
  (a missing or zero ask gives 0), respectively Yes and No at \<^verbatim>\<open>new Decimal(p)\<close> and
  \<^verbatim>\<open>new Decimal(1 - p)\<close> for the probability \<open>p\<close> of a binary unresolved entry (0.5 when
  it is 0), the difference being a difference of doubles. A market that the PolyMarket
  adapter returns has one outcome per entry of the outcomes array of its event. In all
  three the id and the title are those of the payload entry, as they are: nothing checks
  that they are not empty or that a price is in \<open>[0, 1]\<close>.
\<close>

theorem C3_adapter_markets:
  "(outcome_of (fetchMarkets_kalshi lib krs) = Inr ms \<and> m \<in> set ms \<longrightarrow>
      (\<exists>i ks k. krs i = Validated ks \<and> k \<in> set ks \<and> market_type k = binary \<and>
         yes_ask k \<noteq> None \<and> platform m = KALSHI \<and>
         market_id m = ticker k \<and> title m = k_title k \<and> length (outcomes m) = 2 \<and>
         outcomes m =
           [\<lparr>name = ''YES'', price = Decimal_of_number (cents_or_zero lib (yes_ask k))\<rparr>,
            \<lparr>name = ''NO'', price = Decimal_of_number (cents_or_zero lib (no_ask k))\<rparr>])) \<and>
   (outcome_of (fetchMarkets_manifold lib n mrs) = Inr ms \<and> m \<in> set ms \<longrightarrow>
      (\<exists>i ks k q. mrs i = Validated ks \<and> k \<in> set ks \<and> isBinaryMarket k \<and>
         probability k = Some q \<and> platform m = MANIFOLD \<and>
         market_id m = mf_id k \<and> title m = mf_question k \<and> length (outcomes m) = 2 \<and>
         outcomes m =
           [\<lparr>name = ''Yes'', price = Decimal_of_number (if q = Num 0 then Num (1 / 2) else q)\<rparr>,
            \<lparr>name = ''No'',
              price = Decimal_of_number (one_minus lib (if q = Num 0 then Num (1 / 2) else q))\<rparr>])) \<and>
   (outcome_of (fetchMarkets_pm lib prs) = Inr ms \<and> m \<in> set ms \<longrightarrow>
      (\<exists>i evs ev names. prs i = Validated evs \<and> ev \<in> set evs \<and>
         JSON_parse lib (outcomes_json ev) = Some names \<and> platform m = POLYMARKET \<and>
         market_id m = pm_id ev \<and> title m = question ev \<and>
         map name (outcomes m) = names \<and> length (outcomes m) = length names)) \<and>
   cents_or_zero lib None = Num 0 \<and> cents_or_zero lib (Some (Num 0)) = Num 0 \<and>
   (\<forall>a. a \<noteq> 0 \<longrightarrow> cents_or_zero lib (Some (Num a)) = Num (number_divide lib a 100)) \<and>
   (\<forall>p. one_minus lib (Num p) = Num (number_minus lib 1 p)) \<and>
   (\<forall>a. Decimal_of_number (Num a) = Fin a)"
proof -
  have kal: "\<exists>i ks k. krs i = Validated ks \<and> k \<in> set ks \<and> market_type k = binary \<and>
         yes_ask k \<noteq> None \<and> platform m = KALSHI \<and>
         market_id m = ticker k \<and> title m = k_title k \<and> length (outcomes m) = 2 \<and>
         outcomes m =
           [\<lparr>name = ''YES'', price = Decimal_of_number (cents_or_zero lib (yes_ask k))\<rparr>,
            \<lparr>name = ''NO'', price = Decimal_of_number (cents_or_zero lib (no_ask k))\<rparr>]"
    if h: "outcome_of (fetchMarkets_kalshi lib krs) = Inr ms" "m \<in> set ms"
  proof -
    from h(1) obtain i where "kalshi_operation lib (krs i) = Inr ms"
      unfolding fetchMarkets_kalshi_def by (blast dest: retryWithBackoff_Inr_source)
    from kalshi_operation_Inr [OF this] obtain ks where ks: "krs i = Validated ks"
      "ms = map (toStandardMarket_kalshi lib)
              (filter (\<lambda>market. market_type market = binary \<and> yes_ask market \<noteq> None) ks)"
      by blast
    with h(2) obtain k where k: "k \<in> set ks" "market_type k = binary" "yes_ask k \<noteq> None"
      "m = toStandardMarket_kalshi lib k" by auto
    show ?thesis
      using ks(1) k by (intro exI [of _ i] exI [of _ ks] exI [of _ k])
        (simp add: toStandardMarket_kalshi_def Let_def)
  qed
  have man: "\<exists>i ks k q. mrs i = Validated ks \<and> k \<in> set ks \<and> isBinaryMarket k \<and>
         probability k = Some q \<and> platform m = MANIFOLD \<and>
         market_id m = mf_id k \<and> title m = mf_question k \<and> length (outcomes m) = 2 \<and>
         outcomes m =
           [\<lparr>name = ''Yes'', price = Decimal_of_number (if q = Num 0 then Num (1 / 2) else q)\<rparr>,
            \<lparr>name = ''No'',
              price = Decimal_of_number (one_minus lib (if q = Num 0 then Num (1 / 2) else q))\<rparr>]"
    if h: "outcome_of (fetchMarkets_manifold lib n mrs) = Inr ms" "m \<in> set ms"
  proof -
    from h(1) obtain i where "manifold_operation lib n (mrs i) = Inr ms"
      unfolding fetchMarkets_manifold_def by (blast dest: retryWithBackoff_Inr_source)
    from manifold_operation_Inr [OF this] obtain ks where ks: "mrs i = Validated ks"
      "ms = map (toStandardMarket_manifold lib) (take n (filter isBinaryMarket ks))"
      by blast
    with h(2) obtain k where k0: "k \<in> set (take n (filter isBinaryMarket ks))"
      "m = toStandardMarket_manifold lib k" by auto
    from k0(1) have k: "k \<in> set ks" "isBinaryMarket k"
      by (auto dest: in_set_takeD)
    then obtain q where q: "probability k = Some q" by (auto simp: isBinaryMarket_def)
    show ?thesis
      using ks(1) k k0(2) q by (intro exI [of _ i] exI [of _ ks] exI [of _ k] exI [of _ q])
        (simp add: toStandardMarket_manifold_def Let_def truthy_def)
  qed
  have pm: "\<exists>i evs ev names. prs i = Validated evs \<and> ev \<in> set evs \<and>
         JSON_parse lib (outcomes_json ev) = Some names \<and> platform m = POLYMARKET \<and>
         market_id m = pm_id ev \<and> title m = question ev \<and>
         map name (outcomes m) = names \<and> length (outcomes m) = length names"
    if h: "outcome_of (fetchMarkets_pm lib prs) = Inr ms" "m \<in> set ms"
  proof -
    from h(1) obtain i where "pm_operation lib (prs i) = Inr ms"
      unfolding fetchMarkets_pm_def by (blast dest: retryWithBackoff_Inr_source)
    from pm_operation_Inr [OF this] obtain evs where evs: "prs i = Validated evs"
      "map_events lib evs = Inr ms" by blast
    from map_events_member [OF evs(2) h(2)] obtain ev where ev: "ev \<in> set evs"
      "toStandardMarket_pm lib ev = Inr m" by blast
    from toStandardMarket_pm_fields [OF ev(2)] obtain names where
      n: "JSON_parse lib (outcomes_json ev) = Some names" "market_id m = pm_id ev"
         "title m = question ev" "platform m = POLYMARKET" "map name (outcomes m) = names"
      by blast
    from n(5) have "length (outcomes m) = length names" by (metis length_map)
    with evs(1) ev(1) n show ?thesis by blast
  qed
  have defs: "cents_or_zero lib None = Num 0 \<and> cents_or_zero lib (Some (Num 0)) = Num 0 \<and>
   (\<forall>a. a \<noteq> 0 \<longrightarrow> cents_or_zero lib (Some (Num a)) = Num (number_divide lib a 100)) \<and>
   (\<forall>p. one_minus lib (Num p) = Num (number_minus lib 1 p)) \<and>
   (\<forall>a. Decimal_of_number (Num a) = Fin a)"
    by (simp add: cents_or_zero_def truthy_def one_minus_def Decimal_of_number_def)
  from kal man pm defs show ?thesis by blast
qed

theorem C3_adapter_markets_witness:
  "length (outcomes (toStandardMarket_kalshi demo_lib odd_kalshi_market)) = 2 \<and>
   length (outcomes (toStandardMarket_manifold demo_lib certain_manifold_market)) = 2 \<and>
   outcomes (toStandardMarket_manifold demo_lib certain_manifold_market) =
     [\<lparr>name = ''Yes'', price = Fin (99 / 100)\<rparr>,
      \<lparr>name = ''No'', price = Fin (10000000000000009 / 10 ^ 18)\<rparr>] \<and>
   map name (outcomes three_way_market) = [''A'', ''B'', ''C'']"
proof -
  let ?k = "toStandardMarket_kalshi demo_lib odd_kalshi_market"
  let ?m = "toStandardMarket_manifold demo_lib certain_manifold_market"
  have "outcome_of (fetchMarkets_kalshi demo_lib odd_kalshi_responses) = Inr [?k] \<and> ?k \<in> set [?k]"
    using odd_kalshi_fetch by simp
  with C3_adapter_markets [where lib = demo_lib and krs = odd_kalshi_responses and
      ms = "[?k]" and m = ?k]
  have a: "length (outcomes ?k) = 2" by blast
  have "outcome_of (fetchMarkets_manifold demo_lib 10 certain_manifold_responses) = Inr [?m] \<and>
        ?m \<in> set [?m]"
    using certain_manifold_fetch by simp
  with C3_adapter_markets [where lib = demo_lib and n = 10 and mrs = certain_manifold_responses and
      ms = "[?m]" and m = ?m]
  obtain i ks k q where b0: "certain_manifold_responses i = Validated ks" "k \<in> set ks"
      "probability k = Some q" "length (outcomes ?m) = 2"
      "outcomes ?m =
         [\<lparr>name = ''Yes'', price = Decimal_of_number (if q = Num 0 then Num (1 / 2) else q)\<rparr>,
          \<lparr>name = ''No'',
            price = Decimal_of_number (one_minus demo_lib (if q = Num 0 then Num (1 / 2) else q))\<rparr>]"
    by blast
  from b0(1,2) have "k = certain_manifold_market"
    by (auto simp: certain_manifold_responses_def)
  with b0(3) have "q = Num (99 / 100)" by (simp add: certain_manifold_market_def)
  with b0(5) have b: "outcomes ?m =
     [\<lparr>name = ''Yes'', price = Fin (99 / 100)\<rparr>,
      \<lparr>name = ''No'', price = Fin (10000000000000009 / 10 ^ 18)\<rparr>]"
    by (simp add: Decimal_of_number_def one_minus_def demo_lib_def)
  have "outcome_of (fetchMarkets_pm demo_lib three_way_responses) = Inr [three_way_market] \<and>
        three_way_market \<in> set [three_way_market]"
    using three_way_fetch by simp
  with C3_adapter_markets [where lib = demo_lib and prs = three_way_responses and
      ms = "[three_way_market]" and m = three_way_market]
  obtain j evs ev names where c0: "three_way_responses j = Validated evs" "ev \<in> set evs"
      "JSON_parse demo_lib (outcomes_json ev) = Some names"
      "map name (outcomes three_way_market) = names"
    by blast
  from c0(1,2) have "ev = three_way_event" by (auto simp: three_way_responses_def)
  with c0(3) have "names = [''A'', ''B'', ''C'']"
    by (simp add: three_way_event_def demo_lib_def)
  with c0(4) have c: "map name (outcomes three_way_market) = [''A'', ''B'', ''C'']" by simp
  from a b0(4) b c show ?thesis by blast
qed

subsection \<open>Matcher\<close>

lemma is_space_char_iff: "is_space_char c \<longleftrightarrow> c \<in> white_space"
  unfolding is_space_char_def white_space_def insert_iff empty_iff by presburger

lemma is_word_char_iff: "is_word_char c \<longleftrightarrow> c \<in> ascii_word_characters"
proof -
  have l: "(97 \<le> c \<and> c \<le> 122) \<longleftrightarrow> c \<in> of_char ` set ''abcdefghijklmnopqrstuvwxyz''"
    unfolding list.set image_insert image_empty insert_iff empty_iff by simp presburger
  have u: "(65 \<le> c \<and> c \<le> 90) \<longleftrightarrow> c \<in> of_char ` set ''ABCDEFGHIJKLMNOPQRSTUVWXYZ''"
    unfolding list.set image_insert image_empty insert_iff empty_iff by simp presburger
  have d: "(48 \<le> c \<and> c \<le> 57) \<longleftrightarrow> c \<in> of_char ` set ''0123456789''"
    unfolding list.set image_insert image_empty insert_iff empty_iff by simp presburger
  have s: "c = 95 \<longleftrightarrow> c \<in> of_char ` set ''_''" by simp
  show ?thesis
    unfolding is_word_char_def ascii_word_characters_def set_append image_Un Un_iff
    using l u d s by blast
qed

lemma is_token_alt:
  "is_token s w \<longleftrightarrow>
     w \<noteq> [] \<and> (\<forall>c \<in> set w. \<not> is_space_char c) \<and>
     (\<exists>pre post. s = pre @ w @ post \<and>
        (pre = [] \<or> is_space_char (last pre)) \<and> (post = [] \<or> is_space_char (hd post)))"
  by (simp add: is_token_def is_space_char_iff)

lemma is_token_no_space:
  assumes "\<forall>c \<in> set s. \<not> is_space_char c"
  shows "is_token s w \<longleftrightarrow> w = s \<and> s \<noteq> []"
proof
  assume t: "is_token s w"
  then obtain pre post where p: "w \<noteq> []" "s = pre @ w @ post"
    "pre = [] \<or> is_space_char (last pre)" "post = [] \<or> is_space_char (hd post)"
    unfolding is_token_alt by blast
  have "pre = []"
  proof (rule ccontr)
    assume "pre \<noteq> []"
    then have "last pre \<in> set s" "is_space_char (last pre)" using p(2,3) by auto
    with assms show False by blast
  qed
  moreover have "post = []"
  proof (rule ccontr)
    assume "post \<noteq> []"
    then have "hd post \<in> set s" "is_space_char (hd post)" using p(2,4) by auto
    with assms show False by blast
  qed
  ultimately show "w = s \<and> s \<noteq> []" using p(1,2) by simp
next
  assume ws: "w = s \<and> s \<noteq> []"
  have "s = [] @ w @ []" using ws by simp
  then have "\<exists>pre post. s = pre @ w @ post \<and>
        (pre = [] \<or> is_space_char (last pre)) \<and> (post = [] \<or> is_space_char (hd post))"
    by blast
  then show "is_token s w"
    unfolding is_token_alt using assms ws by simp
qed

lemma is_token_first_piece:
  assumes t: "\<forall>c \<in> set t. \<not> is_space_char c" and sp: "is_space_char sp"
  shows "is_token (t @ sp # rest) w \<longleftrightarrow> (w = t \<and> t \<noteq> []) \<or> is_token rest w"
proof
  assume "is_token (t @ sp # rest) w"
  then obtain pre post where p: "w \<noteq> []" "\<forall>c \<in> set w. \<not> is_space_char c"
    "t @ sp # rest = pre @ w @ post"
    "pre = [] \<or> is_space_char (last pre)" "post = [] \<or> is_space_char (hd post)"
    unfolding is_token_alt by blast
  show "(w = t \<and> t \<noteq> []) \<or> is_token rest w"
  proof (cases "pre = []")
    case True
    have "takeWhile (\<lambda>c. \<not> is_space_char c) (w @ post) = w"
      using p(2,5) by (cases post) (auto simp: takeWhile_append2)
    moreover have "takeWhile (\<lambda>c. \<not> is_space_char c) (t @ sp # rest) = t"
      using t sp by (simp add: takeWhile_append2)
    ultimately have "w = t" using p(3) True by simp
    with p(1) show ?thesis by simp
  next
    case False
    then have lsp: "is_space_char (last pre)" using p(4) by simp
    have "\<not> length pre \<le> length t"
    proof
      assume "length pre \<le> length t"
      then have "pre = take (length pre) t"
        using p(3) by (simp add: append_eq_conv_conj) (metis append_eq_conv_conj take_append min.absorb2 take_all_iff order_refl append.right_neutral diff_is_0_eq' take_0)
      then have "set pre \<subseteq> set t" by (metis set_take_subset)
      with False lsp t show False using last_in_set by blast
    qed
    then have longer: "length t < length pre" by simp
    from p(3) obtain us where us:
      "(t = pre @ us \<and> us @ sp # rest = w @ post) \<or> (t @ us = pre \<and> sp # rest = us @ w @ post)"
      by (auto simp: append_eq_append_conv2)
    with longer have us2: "t @ us = pre" "sp # rest = us @ w @ post" by auto
    with longer have "us \<noteq> []" by auto
    with us2(2) obtain pre' where "us = sp # pre'" by (cases us) auto
    with us2(1) have pre': "pre = t @ sp # pre'" by simp
    with p(3) have r: "rest = pre' @ w @ post" by simp
    have "pre' = [] \<or> is_space_char (last pre')" using lsp pre' by (auto split: if_splits)
    with r p show ?thesis unfolding is_token_alt by blast
  qed
next
  assume "(w = t \<and> t \<noteq> []) \<or> is_token rest w"
  then show "is_token (t @ sp # rest) w"
  proof
    assume wt: "w = t \<and> t \<noteq> []"
    have "t @ sp # rest = [] @ w @ (sp # rest)" using wt by simp
    moreover have "is_space_char (hd (sp # rest))" using sp by simp
    ultimately have "\<exists>pre post. t @ sp # rest = pre @ w @ post \<and>
        (pre = [] \<or> is_space_char (last pre)) \<and> (post = [] \<or> is_space_char (hd post))"
      by blast
    then show ?thesis
      unfolding is_token_alt using t wt by simp
  next
    assume "is_token rest w"
    then obtain pre post where p: "w \<noteq> []" "\<forall>c \<in> set w. \<not> is_space_char c"
      "rest = pre @ w @ post"
      "pre = [] \<or> is_space_char (last pre)" "post = [] \<or> is_space_char (hd post)"
      unfolding is_token_alt by blast
    have "t @ sp # rest = (t @ sp # pre) @ w @ post" using p(3) by simp
    moreover have "is_space_char (last (t @ sp # pre))" using p(4) sp by auto
    ultimately show ?thesis unfolding is_token_alt using p(1,2,5) by blast
  qed
qed

lemma is_token_space_Cons:
  assumes "is_space_char c"
  shows "is_token (c # s) w \<longleftrightarrow> is_token s w"
  using is_token_first_piece [of "[]" c s w] assms by simp

lemma is_token_dropWhile_space:
  "is_token (dropWhile is_space_char s) w \<longleftrightarrow> is_token s w"
  by (induction s) (simp_all add: is_token_space_Cons)

lemma split_whitespace_tokens:
  "w \<noteq> [] \<Longrightarrow> w \<in> set (split_whitespace s) \<longleftrightarrow> is_token s w"
proof (induction s rule: split_whitespace.induct)
  case (1 s)
  let ?t = "takeWhile (\<lambda>c. \<not> is_space_char c) s"
  let ?r = "dropWhile (\<lambda>c. \<not> is_space_char c) s"
  have s: "s = ?t @ ?r" by simp
  have t: "\<forall>c \<in> set ?t. \<not> is_space_char c" by (auto dest: set_takeWhileD)
  show ?case
  proof (cases ?r)
    case Nil
    then have "?t = s" using s by simp
    with t have ns: "\<forall>c \<in> set s. \<not> is_space_char c" by simp
    have "split_whitespace s = [s]"
      by (subst split_whitespace.simps) (simp only: Nil list.case \<open>?t = s\<close>)
    with is_token_no_space [OF ns] "1.prems" show ?thesis by auto
  next
    case (Cons sp rest)
    then have sp: "is_space_char sp" using hd_dropWhile [of "\<lambda>c. \<not> is_space_char c" s] by auto
    have sw: "split_whitespace s = ?t # split_whitespace (dropWhile is_space_char rest)"
      by (subst split_whitespace.simps) (simp only: Cons list.case)
    have "is_token s w \<longleftrightarrow> (w = ?t \<and> ?t \<noteq> []) \<or> is_token rest w"
      using is_token_first_piece [OF t sp, of rest w] s Cons by simp
    also have "\<dots> \<longleftrightarrow> w = ?t \<or> is_token (dropWhile is_space_char rest) w"
      using "1.prems" by (auto simp: is_token_dropWhile_space)
    also have "\<dots> \<longleftrightarrow> w = ?t \<or> w \<in> set (split_whitespace (dropWhile is_space_char rest))"
      using "1.IH" [OF Cons "1.prems"] by simp
    finally show ?thesis using sw by auto
  qed
qed

lemma replace_punctuation_eq:
  "replace_punctuation s =
     map (\<lambda>c. if c \<in> ascii_word_characters \<union> white_space then c else 32) s"
  by (simp add: replace_punctuation_def is_word_char_iff is_space_char_iff)

lemma set_stopWords: "set stopWords = stop_word_set"
  by (simp add: stopWords_def stop_word_set_def)

lemma set_extractKeywords: "set (extractKeywords lib t) = word_keywords lib t"
proof -
  have "w \<in> set (split_whitespace s) \<longleftrightarrow> is_token s w" if "2 < length w" for w s
  proof -
    from that have "w \<noteq> []" by auto
    then show ?thesis by (rule split_whitespace_tokens)
  qed
  then show ?thesis
    unfolding extractKeywords_def word_keywords_def set_stopWords replace_punctuation_eq
    by auto
qed

lemma date_check_far_apart:
  "(case (endDate a, endDate b) of
      (Some da, Some db) \<Rightarrow> (case daysDiff da db of Some d \<Rightarrow> 30 < d | None \<Rightarrow> False)
    | _ \<Rightarrow> False) \<longleftrightarrow> spec_date_far_apart a b"
proof -
  have "30 < (of_int x :: rat) / (1000 * 60 * 60 * 24) \<longleftrightarrow> 30 * (24 * 60 * 60 * 1000) < x" for x :: int
  proof -
    have "30 < (of_int x :: rat) / 86400000 \<longleftrightarrow> (30 * 86400000 :: rat) < of_int x"
      by (simp add: less_divide_eq)
    also have "\<dots> \<longleftrightarrow> (of_int (30 * 86400000) :: rat) < of_int x" by simp
    also have "\<dots> \<longleftrightarrow> 30 * 86400000 < x" by (simp only: of_int_less_iff)
    finally show ?thesis by simp
  qed
  then show ?thesis
    unfolding spec_date_far_apart_def daysDiff_def
    by (auto split: option.splits jsdate.splits)
qed


lemma findMatches_match_for:
  "findMatches lib search marketsA marketsB = concat (map (match_for lib search marketsB) marketsA)"
  by (induction marketsA)
     (auto simp: match_for_def findBestMatch_def Let_def split: list.splits)

lemma findMatches_cong:
  assumes "\<forall>a \<in> set marketsA. preFilterCandidates lib a marketsB \<noteq> [] \<longrightarrow>
             search (title a) (preFilterCandidates lib a marketsB) =
             search' (title a) (preFilterCandidates lib a marketsB)"
  shows "findMatches lib search marketsA marketsB = findMatches lib search' marketsA marketsB"
proof -
  have "match_for lib search marketsB a = match_for lib search' marketsB a"
    if "a \<in> set marketsA" for a
    using assms that by (simp add: match_for_def)
  then show ?thesis unfolding findMatches_match_for by (simp cong: map_cong)
qed

lemma demo_keywords:
  "extractKeywords demo_lib (title demo_pm) = [utf16 ''recession'', utf16 ''2025'']"
  "extractKeywords demo_lib (title demo_mf) = [utf16 ''recession'', utf16 ''2025'']"
  "extractKeywords demo_lib (title demo_pm_twin) = [utf16 ''recession'', utf16 ''2025'']"
  "extractKeywords demo_lib (title demo_kal) =
     [utf16 ''fed'', utf16 ''rate'', utf16 ''cut'', utf16 ''march'']"
  "extractKeywords demo_lib (title demo_pm2) =
     [utf16 ''fed'', utf16 ''rate'', utf16 ''cut'', utf16 ''march'']"
  "extractKeywords demo_lib (title zoe_pm) = [utf16 ''2025'']"
  "extractKeywords demo_lib (title zoe_mf) = [utf16 ''elected'']"
  by (simp_all add: extractKeywords_def split_whitespace.simps replace_punctuation_def
        is_word_char_def is_space_char_def demo_lib_def utf16_def stopWords_def
        demo_pm_def demo_mf_def demo_pm_twin_def demo_kal_def demo_pm2_def zoe_pm_def zoe_mf_def)

lemma demo_fields:
  "endDate demo_pm = None" "endDate demo_pm2 = None" "endDate zoe_pm = None"
  "length (outcomes demo_pm) = 2" "length (outcomes demo_mf) = 2"
  "length (outcomes demo_pm_twin) = 2" "length (outcomes demo_kal) = 2"
  "length (outcomes demo_pm2) = 2" "length (outcomes zoe_pm) = 2" "length (outcomes zoe_mf) = 2"
  by (simp_all add: demo_pm_def demo_mf_def demo_pm_twin_def demo_kal_def demo_pm2_def
        zoe_pm_def zoe_mf_def)

lemma demo_candidates:
  "preFilterCandidates demo_lib demo_pm [demo_mf] = [demo_mf]"
  "preFilterCandidates demo_lib demo_pm2 [demo_mf] = []"
  "preFilterCandidates demo_lib demo_pm [demo_pm_twin] = [demo_pm_twin]"
  "preFilterCandidates demo_lib demo_pm [demo_mf, demo_kal] = [demo_mf]"
  "preFilterCandidates demo_lib zoe_pm [zoe_mf] = []"
  by (simp_all add: preFilterCandidates_def candidate_passes_def demo_keywords demo_fields
        utf16_def)

lemma zoe_token:
  "[122, 111, 235] \<in> spec_keywords demo_lib (title zoe_pm) \<inter> spec_keywords demo_lib (title zoe_mf)"
proof -
  have s1: "map (\<lambda>c. if c \<in> punctuation_marks then 32 else c) (toLowerCase demo_lib (title zoe_pm)) =
      [] @ [122, 111, 235] @ [32, 50, 48, 50, 53, 32]"
    by (simp add: zoe_pm_def demo_lib_def utf16_def punctuation_marks_def)
  have s2: "map (\<lambda>c. if c \<in> punctuation_marks then 32 else c) (toLowerCase demo_lib (title zoe_mf)) =
      [] @ [122, 111, 235] @ [32, 101, 108, 101, 99, 116, 101, 100]"
    by (simp add: zoe_mf_def demo_lib_def utf16_def punctuation_marks_def)
  have w: "\<forall>c \<in> set [122, 111, 235 :: nat]. c \<notin> white_space" by (simp add: white_space_def)
  have sp: "(32 :: nat) \<in> white_space" by (simp add: white_space_def)
  have t1: "is_token ([] @ [122, 111, 235] @ [32, 50, 48, 50, 53, 32]) [122, 111, 235]"
    unfolding is_token_def using w sp by (intro conjI exI[of _ "[]"] exI[of _ "[32, 50, 48, 50, 53, 32]"]) simp_all
  have t2: "is_token ([] @ [122, 111, 235] @ [32, 101, 108, 101, 99, 116, 101, 100]) [122, 111, 235]"
    unfolding is_token_def using w sp
    by (intro conjI exI[of _ "[]"] exI[of _ "[32, 101, 108, 101, 99, 116, 101, 100]"]) simp_all
  have ns: "[122, 111, 235] \<notin> stop_word_set" by (simp add: stop_word_set_def utf16_def)
  show ?thesis using t1 t2 ns by (simp add: spec_keywords_def s1 s2 del: append.simps)
qed

lemma zoe_rejected: "preFilterCandidates demo_lib zoe_pm [zoe_mf] = []"
  by (rule demo_candidates)

text \<open>
  Claim C6, as stated, fails in its second condition. The titles \<^verbatim>\<open>Zo\<close>+U+00EB\<^verbatim>\<open> 2025?\<close>
  and \<^verbatim>\<open>Zo\<close>+U+00EB\<^verbatim>\<open> elected\<close> have the same number of outcomes, no end dates, and
  share the keyword \<^verbatim>\<open>zo\<close>+U+00EB when the punctuation is what is turned into white space;
  but the candidate is not handed to the ranker: the regular expression of
  \<open>extractKeywords\<close> turns every code unit outside \<^verbatim>\<open>[A-Za-z0-9_]\<close> and white space into a
  space, the accented letter included, which leaves the keywords \<^verbatim>\<open>2025\<close> and
  \<^verbatim>\<open>elected\<close>.
\<close>

theorem C6_counterexample:
  "zoe_mf \<in> set [zoe_mf] \<and>
   \<not> spec_date_far_apart zoe_pm zoe_mf \<and>
   [122, 111, 235] \<in> spec_keywords demo_lib (title zoe_pm) \<inter> spec_keywords demo_lib (title zoe_mf) \<and>
   length (outcomes zoe_pm) = length (outcomes zoe_mf) \<and>
   zoe_mf \<notin> set (preFilterCandidates demo_lib zoe_pm [zoe_mf]) \<and>
   extractKeywords demo_lib (title zoe_pm) = [utf16 ''2025''] \<and>
   extractKeywords demo_lib (title zoe_mf) = [utf16 ''elected''] \<and>
   findMatches demo_lib (fixed_distance_ranker 0) [zoe_pm] [zoe_mf] = []"
proof -
  have a: "\<not> spec_date_far_apart zoe_pm zoe_mf"
    by (simp add: spec_date_far_apart_def demo_fields)
  have b: "length (outcomes zoe_pm) = length (outcomes zoe_mf)"
    by (simp add: demo_fields)
  have c: "extractKeywords demo_lib (title zoe_pm) = [utf16 ''2025'']"
    "extractKeywords demo_lib (title zoe_mf) = [utf16 ''elected'']"
    by (simp_all add: demo_keywords)
  have d: "findMatches demo_lib (fixed_distance_ranker 0) [zoe_pm] [zoe_mf] = []"
    by (simp add: zoe_rejected)
  from a b c d zoe_token zoe_rejected show ?thesis by simp
qed

text \<open>
  Claim C6, amended. For each market \<open>a\<close> of the first list, \<open>findMatches\<close> hands the
  result of \<open>preFilterCandidates\<close> to the ranker, unless it is empty: its matches are
  those of \<open>match_for\<close>, one market after the other, and they depend on the ranker only
  through its answers on these candidate lists. A candidate \<open>b\<close> of list B is in that
  result for \<open>a\<close> iff (1) it is not the case that both have an end date and the two are
  more than 30 days apart, so that a missing end date on either side never rejects; (2)
  the keyword sets of the two titles share an element, where the keywords of a title are
  the tokens of length above 2, stop words removed, of the lowercased title in which every
  code unit that is not an ASCII letter, an ASCII digit, the underscore or white space has
  been turned into a space; and (3) both have the same number of outcomes.
\<close>

theorem C6_preFilterCandidates:
  "(b \<in> set (preFilterCandidates lib a bs) \<longleftrightarrow>
      b \<in> set bs \<and> \<not> spec_date_far_apart a b \<and>
      word_keywords lib (title a) \<inter> word_keywords lib (title b) \<noteq> {} \<and>
      length (outcomes a) = length (outcomes b)) \<and>
   (endDate a = None \<or> endDate b = None \<longrightarrow> \<not> spec_date_far_apart a b) \<and>
   findMatches lib search marketsA bs = concat (map (match_for lib search bs) marketsA) \<and>
   ((\<forall>x \<in> set marketsA. preFilterCandidates lib x bs \<noteq> [] \<longrightarrow>
        search (title x) (preFilterCandidates lib x bs) =
        search' (title x) (preFilterCandidates lib x bs)) \<longrightarrow>
      findMatches lib search marketsA bs = findMatches lib search' marketsA bs)"
proof -
  have ov: "list_ex (\<lambda>word. word \<in> set (extractKeywords lib (title b))) (extractKeywords lib (title a)) \<longleftrightarrow>
      word_keywords lib (title a) \<inter> word_keywords lib (title b) \<noteq> {}"
    unfolding set_extractKeywords [symmetric] by (auto simp: list_ex_iff)
  have "candidate_passes lib a b \<longleftrightarrow> \<not> spec_date_far_apart a b \<and>
      word_keywords lib (title a) \<inter> word_keywords lib (title b) \<noteq> {} \<and>
      length (outcomes a) = length (outcomes b)"
    unfolding candidate_passes_def date_check_far_apart Let_def ov by auto
  moreover have "endDate a = None \<or> endDate b = None \<longrightarrow> \<not> spec_date_far_apart a b"
    by (auto simp: spec_date_far_apart_def)
  ultimately show ?thesis
    using findMatches_match_for [of lib search marketsA bs]
      findMatches_cong [of marketsA lib bs search search']
    by (auto simp: preFilterCandidates_def)
qed

theorem C6_preFilterCandidates_witness:
  "demo_mf \<in> set (preFilterCandidates demo_lib demo_pm [demo_mf, demo_kal]) \<and>
   demo_kal \<notin> set (preFilterCandidates demo_lib demo_pm [demo_mf, demo_kal]) \<and>
   \<not> spec_date_far_apart demo_pm demo_mf \<and>
   word_keywords demo_lib (title demo_pm) \<inter> word_keywords demo_lib (title demo_mf) \<noteq> {} \<and>
   word_keywords demo_lib (title demo_pm) \<inter> word_keywords demo_lib (title demo_kal) = {} \<and>
   findMatches demo_lib (fixed_distance_ranker (1 / 4)) [demo_pm] [demo_mf, demo_kal] =
     match_for demo_lib (fixed_distance_ranker (1 / 4)) [demo_mf, demo_kal] demo_pm"
proof -
  have ne: "demo_kal \<noteq> demo_mf" by (simp add: demo_kal_def demo_mf_def)
  have a: "demo_mf \<in> set (preFilterCandidates demo_lib demo_pm [demo_mf, demo_kal])"
    by (simp add: demo_candidates)
  have b: "demo_kal \<notin> set (preFilterCandidates demo_lib demo_pm [demo_mf, demo_kal])"
    using ne by (simp add: demo_candidates)
  from a C6_preFilterCandidates [of demo_mf demo_lib demo_pm "[demo_mf, demo_kal]"]
  have c: "\<not> spec_date_far_apart demo_pm demo_mf \<and>
      word_keywords demo_lib (title demo_pm) \<inter> word_keywords demo_lib (title demo_mf) \<noteq> {}"
    by blast
  have "\<not> spec_date_far_apart demo_pm demo_kal"
    by (simp add: spec_date_far_apart_def demo_fields)
  moreover have "length (outcomes demo_pm) = length (outcomes demo_kal)"
    by (simp add: demo_fields)
  ultimately have d: "word_keywords demo_lib (title demo_pm) \<inter> word_keywords demo_lib (title demo_kal) = {}"
    using b C6_preFilterCandidates [of demo_kal demo_lib demo_pm "[demo_mf, demo_kal]"] by auto
  from C6_preFilterCandidates [of demo_mf demo_lib demo_pm "[demo_mf, demo_kal]"
      "fixed_distance_ranker (1 / 4)" "[demo_pm]"]
  have e: "findMatches demo_lib (fixed_distance_ranker (1 / 4)) [demo_pm] [demo_mf, demo_kal] =
     match_for demo_lib (fixed_distance_ranker (1 / 4)) [demo_mf, demo_kal] demo_pm"
    by simp
  from a b c d e show ?thesis by blast
qed

lemma Math_round_eq:
  "of_int z \<le> x + 1 / 2 \<Longrightarrow> x + 1 / 2 < of_int z + 1 \<Longrightarrow> Math_round x = z"
  unfolding Math_round_def by (rule floor_unique)

lemma Math_round_ge_60: "60 \<le> Math_round x \<longleftrightarrow> 119 / 2 \<le> x"
proof -
  have "60 \<le> \<lfloor>x + 1 / 2\<rfloor> \<longleftrightarrow> of_int 60 \<le> x + 1 / 2" by (rule le_floor_iff)
  then show ?thesis by (simp add: Math_round_def) linarith
qed

lemma match_for_cases:
  assumes "m \<in> set (match_for lib search marketsB a)"
  shows "match_for lib search marketsB a = [m] \<and> match_marketA m = a \<and> matchedBy m = fuzzy \<and>
         (\<exists>r rest. search (title a) (preFilterCandidates lib a marketsB) = r # rest \<and>
            match_marketB m = item r \<and>
            score m =
              Math_round (number_times lib
                (number_minus lib 1 (case fuse_score r of Some d \<Rightarrow> d | None \<Rightarrow> 0)) 100))"
  using assms by (auto simp: match_for_def split: if_splits list.splits)

lemma match_for_length: "length (match_for lib search marketsB a) \<le> 1"
  by (simp add: match_for_def split: list.splits)

lemma findMatches_subseq:
  "subseq (map match_marketA (findMatches lib search marketsA marketsB)) marketsA"
proof (induction marketsA)
  case Nil
  then show ?case by simp
next
  case (Cons a as)
  have f: "findMatches lib search (a # as) marketsB =
      match_for lib search marketsB a @ findMatches lib search as marketsB"
    by (simp add: findMatches_match_for)
  show ?case
  proof (cases "match_for lib search marketsB a")
    case Nil
    have "subseq (map match_marketA (findMatches lib search as marketsB)) (a # as)"
      using Cons.IH by (rule list_emb_Cons)
    then show ?thesis unfolding f Nil by simp
  next
    case (Cons m ms)
    then have "m \<in> set (match_for lib search marketsB a)" by simp
    from match_for_cases [OF this] have one: "match_for lib search marketsB a = [m]"
      and ma: "match_marketA m = a"
      by simp_all
    have "subseq (a # map match_marketA (findMatches lib search as marketsB)) (a # as)"
      using Cons.IH by simp
    then show ?thesis unfolding f one by (simp add: ma)
  qed
qed

lemma findMatches_member:
  assumes "m \<in> set (findMatches lib search marketsA marketsB)"
  shows "match_marketA m \<in> set marketsA \<and> matchedBy m = fuzzy \<and>
         (\<exists>r rest. search (title (match_marketA m))
                      (preFilterCandidates lib (match_marketA m) marketsB) = r # rest \<and>
            match_marketB m = item r \<and>
            score m =
              Math_round (number_times lib
                (number_minus lib 1 (case fuse_score r of Some d \<Rightarrow> d | None \<Rightarrow> 0)) 100))"
proof -
  from assms obtain a where a: "a \<in> set marketsA" "m \<in> set (match_for lib search marketsB a)"
    unfolding findMatches_match_for by auto
  from match_for_cases [OF a(2)] a(1) show ?thesis by auto
qed

lemma demo_twin_match:
  "findMatches demo_lib (fixed_distance_ranker (7 / 16)) [demo_pm] [demo_pm_twin] =
     [\<lparr>match_marketA = demo_pm, match_marketB = demo_pm_twin, score = 56, matchedBy = fuzzy\<rparr>]"
proof -
  note c = demo_candidates
  have r: "Math_round (number_times demo_lib (number_minus demo_lib 1 (7 / 16)) 100) = 56"
    by (rule Math_round_eq) (simp_all add: demo_lib_def)
  show ?thesis
    using r by (simp add: c findBestMatch_def fixed_distance_ranker_def)
qed

text \<open>
  Claim C5, as stated, fails in its second and in its third part. \<open>findBestMatch\<close> takes
  the first result of the ranker as it is: for a first result at the distance 0.4375 the
  emitted match has the score 56; and for two lists of PolyMarket markets the match pairs
  two markets of the same platform.
\<close>

theorem C5_counterexample:
  "findMatches demo_lib (fixed_distance_ranker (7 / 16)) [demo_pm] [demo_pm_twin] =
     [\<lparr>match_marketA = demo_pm, match_marketB = demo_pm_twin, score = 56, matchedBy = fuzzy\<rparr>] \<and>
   fixed_distance_ranker (7 / 16) (title demo_pm) [demo_pm_twin] =
     [\<lparr>item = demo_pm_twin, fuse_score = Some (7 / 16)\<rparr>] \<and>
   \<not> (7 / 16 \<le> (4 / 10 :: rat)) \<and>
   \<not> (60 \<le> score \<lparr>match_marketA = demo_pm, match_marketB = demo_pm_twin, score = 56,
                    matchedBy = fuzzy\<rparr>) \<and>
   platform demo_pm = platform demo_pm_twin"
  using demo_twin_match
  by (simp add: fixed_distance_ranker_def demo_pm_def demo_pm_twin_def)

text \<open>
  Claim C5, amended. For any two lists and any ranker, \<open>findMatches\<close> emits at most one
  match per element of the first list, in the order of that list. Every match is marked
  fuzzy and pairs a market \<open>a\<close> of the first list with the item of the first result that
  the ranker returns for the pre-filtered candidates of \<open>a\<close>; its score is the integer
  \<open>round((1 - d) \<times> 100)\<close> for the distance \<open>d\<close> of that first result (0 when the result
  has none), the difference and the product being operations on doubles. The matcher
  compares neither \<open>d\<close> with the threshold nor the platforms: the score is at least 60
  exactly when the double \<open>(1 - d) \<times> 100\<close> is at least 59.5, which for exact operations
  means \<open>d \<le> 0.405\<close>, so it holds for the distances up to 0.40 only; when the ranker
  returns only candidates it was given, the market \<open>b\<close> is a market of the second list that
  passed the pre-filter, and the two platforms of a match differ whenever no market of the
  first list has the platform of a market of the second.
\<close>

theorem C5_findMatches:
  "subseq (map match_marketA (findMatches lib search marketsA marketsB)) marketsA \<and>
   length (findMatches lib search marketsA marketsB) \<le> length marketsA \<and>
   (\<forall>m \<in> set (findMatches lib search marketsA marketsB).
      matchedBy m = fuzzy \<and> match_marketA m \<in> set marketsA \<and>
      (\<exists>r rest d. search (title (match_marketA m))
                     (preFilterCandidates lib (match_marketA m) marketsB) = r # rest \<and>
         match_marketB m = item r \<and>
         d = (case fuse_score r of Some x \<Rightarrow> x | None \<Rightarrow> 0) \<and>
         score m = Math_round (number_times lib (number_minus lib 1 d) 100) \<and>
         (60 \<le> score m \<longleftrightarrow> 119 / 2 \<le> number_times lib (number_minus lib 1 d) 100) \<and>
         (number_minus lib 1 d = 1 - d \<and> number_times lib (1 - d) 100 = (1 - d) * 100 \<longrightarrow>
            (60 \<le> score m \<longleftrightarrow> d \<le> 81 / 200) \<and> (d \<le> 4 / 10 \<longrightarrow> 60 \<le> score m)))) \<and>
   ((\<forall>a \<in> set marketsA. \<forall>r \<in> set (search (title a) (preFilterCandidates lib a marketsB)).
        item r \<in> set (preFilterCandidates lib a marketsB)) \<longrightarrow>
      (\<forall>m \<in> set (findMatches lib search marketsA marketsB).
         match_marketB m \<in> set marketsB \<and>
         candidate_passes lib (match_marketA m) (match_marketB m)) \<and>
      ((\<forall>a \<in> set marketsA. \<forall>b \<in> set marketsB. platform a \<noteq> platform b) \<longrightarrow>
       (\<forall>m \<in> set (findMatches lib search marketsA marketsB).
          platform (match_marketA m) \<noteq> platform (match_marketB m))))"
proof -
  let ?ms = "findMatches lib search marketsA marketsB"
  have s: "subseq (map match_marketA ?ms) marketsA" by (rule findMatches_subseq)
  from list_emb_length [OF s] have l: "length ?ms \<le> length marketsA" by simp
  have e: "matchedBy m = fuzzy \<and> match_marketA m \<in> set marketsA \<and>
      (\<exists>r rest d. search (title (match_marketA m))
                     (preFilterCandidates lib (match_marketA m) marketsB) = r # rest \<and>
         match_marketB m = item r \<and>
         d = (case fuse_score r of Some x \<Rightarrow> x | None \<Rightarrow> 0) \<and>
         score m = Math_round (number_times lib (number_minus lib 1 d) 100) \<and>
         (60 \<le> score m \<longleftrightarrow> 119 / 2 \<le> number_times lib (number_minus lib 1 d) 100) \<and>
         (number_minus lib 1 d = 1 - d \<and> number_times lib (1 - d) 100 = (1 - d) * 100 \<longrightarrow>
            (60 \<le> score m \<longleftrightarrow> d \<le> 81 / 200) \<and> (d \<le> 4 / 10 \<longrightarrow> 60 \<le> score m)))"
    if m: "m \<in> set ?ms" for m
  proof -
    from findMatches_member [OF m] obtain r rest where
      f: "matchedBy m = fuzzy" "match_marketA m \<in> set marketsA"
         "search (title (match_marketA m)) (preFilterCandidates lib (match_marketA m) marketsB) = r # rest"
         "match_marketB m = item r"
         "score m = Math_round (number_times lib
             (number_minus lib 1 (case fuse_score r of Some d \<Rightarrow> d | None \<Rightarrow> 0)) 100)"
      by blast
    define d where "d = (case fuse_score r of Some x \<Rightarrow> x | None \<Rightarrow> 0)"
    have sc: "score m = Math_round (number_times lib (number_minus lib 1 d) 100)"
      using f(5) by (simp add: d_def)
    have ge: "60 \<le> score m \<longleftrightarrow> 119 / 2 \<le> number_times lib (number_minus lib 1 d) 100"
      unfolding sc by (rule Math_round_ge_60)
    have ex: "(60 \<le> score m \<longleftrightarrow> d \<le> 81 / 200) \<and> (d \<le> 4 / 10 \<longrightarrow> 60 \<le> score m)"
      if "number_minus lib 1 d = 1 - d \<and> number_times lib (1 - d) 100 = (1 - d) * 100"
    proof -
      from that ge have "60 \<le> score m \<longleftrightarrow> 119 / 2 \<le> (1 - d) * 100" by simp
      then show ?thesis by auto
    qed
    from f(1-4) sc ge ex d_def show ?thesis by blast
  qed
  have g: "(\<forall>m \<in> set ?ms. match_marketB m \<in> set marketsB \<and>
               candidate_passes lib (match_marketA m) (match_marketB m)) \<and>
      ((\<forall>a \<in> set marketsA. \<forall>b \<in> set marketsB. platform a \<noteq> platform b) \<longrightarrow>
       (\<forall>m \<in> set ?ms. platform (match_marketA m) \<noteq> platform (match_marketB m)))"
    if h: "\<forall>a \<in> set marketsA. \<forall>r \<in> set (search (title a) (preFilterCandidates lib a marketsB)).
        item r \<in> set (preFilterCandidates lib a marketsB)"
  proof -
    have in_pre: "match_marketB m \<in> set (preFilterCandidates lib (match_marketA m) marketsB)"
      if m: "m \<in> set ?ms" for m
    proof -
      from findMatches_member [OF m] obtain r rest where
        f: "match_marketA m \<in> set marketsA"
           "search (title (match_marketA m)) (preFilterCandidates lib (match_marketA m) marketsB) = r # rest"
           "match_marketB m = item r"
        by blast
      from f(2) have "r \<in> set (search (title (match_marketA m))
                                 (preFilterCandidates lib (match_marketA m) marketsB))" by simp
      with h f(1,3) show ?thesis by auto
    qed
    then have a: "\<forall>m \<in> set ?ms. match_marketB m \<in> set marketsB \<and>
               candidate_passes lib (match_marketA m) (match_marketB m)"
      by (auto simp: preFilterCandidates_def)
    have "\<forall>m \<in> set ?ms. match_marketA m \<in> set marketsA"
      using findMatches_member by blast
    with a show ?thesis by blast
  qed
  from s l e g show ?thesis by blast
qed

theorem C5_findMatches_witness:
  "findMatches demo_lib (fixed_distance_ranker (1 / 4)) [demo_pm, demo_pm2] [demo_mf] =
     [\<lparr>match_marketA = demo_pm, match_marketB = demo_mf, score = 75, matchedBy = fuzzy\<rparr>] \<and>
   length (findMatches demo_lib (fixed_distance_ranker (1 / 4)) [demo_pm, demo_pm2] [demo_mf]) \<le> 2 \<and>
   fixed_distance_ranker (1 / 4) (title demo_pm) (preFilterCandidates demo_lib demo_pm [demo_mf]) =
     [\<lparr>item = demo_mf, fuse_score = Some (1 / 4)\<rparr>] \<and>
   Math_round (number_times demo_lib (number_minus demo_lib 1 (1 / 4)) 100) = 75 \<and>
   candidate_passes demo_lib demo_pm demo_mf \<and>
   platform demo_pm \<noteq> platform demo_mf"
proof -
  let ?m = "\<lparr>match_marketA = demo_pm, match_marketB = demo_mf, score = 75, matchedBy = fuzzy\<rparr>"
  note c = demo_candidates
  have r: "Math_round (number_times demo_lib (number_minus demo_lib 1 (1 / 4)) 100) = 75"
    by (rule Math_round_eq) (simp_all add: demo_lib_def)
  have b: "findMatches demo_lib (fixed_distance_ranker (1 / 4)) [demo_pm, demo_pm2] [demo_mf] = [?m]"
    using r by (simp add: c findBestMatch_def fixed_distance_ranker_def)
  have d: "\<forall>a \<in> set [demo_pm, demo_pm2]. \<forall>b \<in> set [demo_mf]. platform a \<noteq> platform b"
    by (simp add: demo_pm_def demo_pm2_def demo_mf_def)
  have h: "\<forall>a \<in> set [demo_pm, demo_pm2].
      \<forall>r \<in> set (fixed_distance_ranker (1 / 4) (title a) (preFilterCandidates demo_lib a [demo_mf])).
        item r \<in> set (preFilterCandidates demo_lib a [demo_mf])"
    by (simp add: c fixed_distance_ranker_def)
  note inst = C5_findMatches [of demo_lib "fixed_distance_ranker (1 / 4)" "[demo_pm, demo_pm2]" "[demo_mf]"]
  from inst have l: "length (findMatches demo_lib (fixed_distance_ranker (1 / 4)) [demo_pm, demo_pm2] [demo_mf])
      \<le> length [demo_pm, demo_pm2]" by blast
  from inst h d have e: "\<forall>m \<in> set (findMatches demo_lib (fixed_distance_ranker (1 / 4)) [demo_pm, demo_pm2] [demo_mf]).
      candidate_passes demo_lib (match_marketA m) (match_marketB m) \<and>
      platform (match_marketA m) \<noteq> platform (match_marketB m)"
    by blast
  from e have f: "candidate_passes demo_lib demo_pm demo_mf \<and> platform demo_pm \<noteq> platform demo_mf"
    unfolding b by simp
  have s: "fixed_distance_ranker (1 / 4) (title demo_pm) (preFilterCandidates demo_lib demo_pm [demo_mf]) =
     [\<lparr>item = demo_mf, fuse_score = Some (1 / 4)\<rparr>]"
    by (simp add: c fixed_distance_ranker_def)
  from b l f r s show ?thesis by simp
qed

subsection \<open>Alert dispatcher\<close>

lemma isInCooldown_iff:
  "isInCooldown env opp w \<longleftrightarrow>
     get_ok env \<and>
     (\<exists>v expiry. store w (CacheKeys_alertSent (market_id (marketA opp)) (market_id (marketB opp)))
                    = Some (v, expiry) \<and> call_time env < expiry)"
  by (auto simp: isInCooldown_def Cache_get_def Let_def split: option.splits)

lemma send_disabled:
  "\<not> enabled cfg \<Longrightarrow>
   sendArbitrageAlert cfg env opp w =
     (Inr (), w\<lparr>logs := logs w @ [LogDebug ''Alerts disabled, skipping'']\<rparr>)"
  by (simp add: sendArbitrageAlert_def sendArbitrageAlert_try_def)

lemma send_cooldown:
  "enabled cfg \<Longrightarrow> isInCooldown env opp w \<Longrightarrow>
   sendArbitrageAlert cfg env opp w =
     (Inr (), w\<lparr>logs := logs w @ [LogDebug ''Alert cooldown active'']\<rparr>)"
  by (simp add: sendArbitrageAlert_def sendArbitrageAlert_try_def)

lemma send_post_ok:
  assumes "enabled cfg" "\<not> isInCooldown env opp w" "post_succeeds cfg env"
  shows "fst (sendArbitrageAlert cfg env opp w) = Inr () \<and>
         posts (snd (sendArbitrageAlert cfg env opp w)) = posts w @ [opp] \<and>
         store (snd (sendArbitrageAlert cfg env opp w)) =
           Cache_set (set_ok env) (call_time env)
             (CacheKeys_alertSent (market_id (marketA opp)) (market_id (marketB opp)))
             (CachedAlert (date_now env)) (cooldownMinutes cfg * 60) (store w)"
  using assms
  by (auto simp: sendArbitrageAlert_def sendArbitrageAlert_try_def sendToDiscord_def
        post_succeeds_def markAlerted_def Let_def split: fetch_outcome.splits)

lemma send_post_fails:
  assumes "enabled cfg" "\<not> isInCooldown env opp w" "\<not> post_succeeds cfg env"
  shows "fst (sendArbitrageAlert cfg env opp w) = Inr () \<and>
         store (snd (sendArbitrageAlert cfg env opp w)) = store w \<and>
         posts (snd (sendArbitrageAlert cfg env opp w)) =
           (if discordWebhook cfg = [] then posts w else posts w @ [opp]) \<and>
         LogError ''Failed to send alert'' \<in> set (logs (snd (sendArbitrageAlert cfg env opp w)))"
  using assms
  by (auto simp: sendArbitrageAlert_def sendArbitrageAlert_try_def sendToDiscord_def
        post_succeeds_def Let_def split: fetch_outcome.splits)

lemma send_never_throws: "fst (sendArbitrageAlert cfg env opp w) = Inr ()"
  by (auto simp: sendArbitrageAlert_def split: prod.splits sum.splits)

lemma send_all_in_window:
  assumes "store w (CacheKeys_alertSent ida idb) = Some (v, expiry)"
    and "\<forall>(e, x) \<in> set calls. get_ok e \<and> call_time e < expiry \<and>
           market_id (marketA x) = ida \<and> market_id (marketB x) = idb"
  shows "posts (send_all cfg calls w) = posts w \<and> store (send_all cfg calls w) = store w"
  using assms
proof (induction calls arbitrary: w)
  case Nil
  then show ?case by simp
next
  case (Cons c calls)
  obtain e x where c: "c = (e, x)" by (cases c)
  from Cons.prems c have h: "get_ok e" "call_time e < expiry"
    "market_id (marketA x) = ida" "market_id (marketB x) = idb" by auto
  with Cons.prems(1) have cd: "isInCooldown e x w" by (auto simp: isInCooldown_iff)
  let ?w1 = "snd (sendArbitrageAlert cfg e x w)"
  have same: "posts ?w1 = posts w \<and> store ?w1 = store w"
  proof (cases "enabled cfg")
    case True
    with cd show ?thesis by (simp add: send_cooldown)
  next
    case False
    then show ?thesis by (simp add: send_disabled)
  qed
  with Cons.prems have "posts (send_all cfg calls ?w1) = posts ?w1 \<and>
      store (send_all cfg calls ?w1) = store ?w1"
    by (intro Cons.IH) auto
  with same c show ?case by simp
qed

text \<open>
  Claim C8. \<open>sendArbitrageAlert\<close> never throws. It issues no POST when alerts are disabled
  or when the cooldown key \<open>alert:sent:<idA>:<idB>\<close> is read from the cache (\<open>isInCooldown\<close>).
  After a successful POST it calls \<open>Cache.set\<close> on that key with TTL
  \<open>cooldownMinutes \<times> 60\<close> seconds; after a failed POST the cache is as before and the failure
  is logged; whenever the cache has changed, a POST was issued and succeeded and the change
  is that key with that TTL. Consequently, after a call that posted and wrote the key,
  every later call for the same pair of ids that reads the cache before the key expires
  issues no POST: one POST in the window.
\<close>

theorem C8_sendArbitrageAlert:
  "fst (sendArbitrageAlert cfg env opp w) = Inr () \<and>
   (\<not> enabled cfg \<or> isInCooldown env opp w \<longrightarrow>
      posts (snd (sendArbitrageAlert cfg env opp w)) = posts w \<and>
      store (snd (sendArbitrageAlert cfg env opp w)) = store w) \<and>
   (enabled cfg \<and> \<not> isInCooldown env opp w \<and> post_succeeds cfg env \<longrightarrow>
      posts (snd (sendArbitrageAlert cfg env opp w)) = posts w @ [opp] \<and>
      store (snd (sendArbitrageAlert cfg env opp w)) =
        Cache_set (set_ok env) (call_time env)
          (CacheKeys_alertSent (market_id (marketA opp)) (market_id (marketB opp)))
          (CachedAlert (date_now env)) (cooldownMinutes cfg * 60) (store w)) \<and>
   (enabled cfg \<and> \<not> isInCooldown env opp w \<and> \<not> post_succeeds cfg env \<longrightarrow>
      store (snd (sendArbitrageAlert cfg env opp w)) = store w \<and>
      LogError ''Failed to send alert'' \<in> set (logs (snd (sendArbitrageAlert cfg env opp w)))) \<and>
   (store (snd (sendArbitrageAlert cfg env opp w)) \<noteq> store w \<longrightarrow>
      enabled cfg \<and> post_succeeds cfg env \<and> set_ok env \<and>
      posts (snd (sendArbitrageAlert cfg env opp w)) = posts w @ [opp] \<and>
      store (snd (sendArbitrageAlert cfg env opp w)) =
        (store w)(CacheKeys_alertSent (market_id (marketA opp)) (market_id (marketB opp)) \<mapsto>
           (CachedAlert (date_now env), call_time env + cooldownMinutes cfg * 60))) \<and>
   (enabled cfg \<and> \<not> isInCooldown env opp w \<and> post_succeeds cfg env \<and> set_ok env \<and>
    (\<forall>(e, x) \<in> set calls. get_ok e \<and> call_time e < call_time env + cooldownMinutes cfg * 60 \<and>
        market_id (marketA x) = market_id (marketA opp) \<and>
        market_id (marketB x) = market_id (marketB opp)) \<longrightarrow>
      posts (send_all cfg calls (snd (sendArbitrageAlert cfg env opp w))) = posts w @ [opp])"
proof -
  let ?w1 = "snd (sendArbitrageAlert cfg env opp w)"
  let ?key = "CacheKeys_alertSent (market_id (marketA opp)) (market_id (marketB opp))"
  have a: "fst (sendArbitrageAlert cfg env opp w) = Inr ()" by (rule send_never_throws)
  have b: "\<not> enabled cfg \<or> isInCooldown env opp w \<longrightarrow> posts ?w1 = posts w \<and> store ?w1 = store w"
    by (cases "enabled cfg") (auto simp: send_disabled send_cooldown)
  have c: "enabled cfg \<and> \<not> isInCooldown env opp w \<and> post_succeeds cfg env \<longrightarrow>
      posts ?w1 = posts w @ [opp] \<and>
      store ?w1 = Cache_set (set_ok env) (call_time env) ?key
          (CachedAlert (date_now env)) (cooldownMinutes cfg * 60) (store w)"
    using send_post_ok by blast
  have d: "enabled cfg \<and> \<not> isInCooldown env opp w \<and> \<not> post_succeeds cfg env \<longrightarrow>
      store ?w1 = store w \<and> LogError ''Failed to send alert'' \<in> set (logs ?w1)"
    using send_post_fails by blast
  have e: "store ?w1 \<noteq> store w \<longrightarrow>
      enabled cfg \<and> post_succeeds cfg env \<and> set_ok env \<and> posts ?w1 = posts w @ [opp] \<and>
      store ?w1 = (store w)(?key \<mapsto> (CachedAlert (date_now env), call_time env + cooldownMinutes cfg * 60))"
  proof
    assume ne: "store ?w1 \<noteq> store w"
    with b have en: "enabled cfg" "\<not> isInCooldown env opp w" by auto
    with ne d have ps: "post_succeeds cfg env" by auto
    from c en ps have st: "posts ?w1 = posts w @ [opp]"
      "store ?w1 = Cache_set (set_ok env) (call_time env) ?key
          (CachedAlert (date_now env)) (cooldownMinutes cfg * 60) (store w)" by auto
    with ne have "set_ok env" by (auto simp: Cache_set_def split: if_splits)
    with st en ps show "enabled cfg \<and> post_succeeds cfg env \<and> set_ok env \<and> posts ?w1 = posts w @ [opp] \<and>
      store ?w1 = (store w)(?key \<mapsto> (CachedAlert (date_now env), call_time env + cooldownMinutes cfg * 60))"
      by (simp add: Cache_set_def)
  qed
  have f: "enabled cfg \<and> \<not> isInCooldown env opp w \<and> post_succeeds cfg env \<and> set_ok env \<and>
    (\<forall>(e, x) \<in> set calls. get_ok e \<and> call_time e < call_time env + cooldownMinutes cfg * 60 \<and>
        market_id (marketA x) = market_id (marketA opp) \<and>
        market_id (marketB x) = market_id (marketB opp)) \<longrightarrow>
      posts (send_all cfg calls ?w1) = posts w @ [opp]"
  proof
    assume h: "enabled cfg \<and> \<not> isInCooldown env opp w \<and> post_succeeds cfg env \<and> set_ok env \<and>
    (\<forall>(e, x) \<in> set calls. get_ok e \<and> call_time e < call_time env + cooldownMinutes cfg * 60 \<and>
        market_id (marketA x) = market_id (marketA opp) \<and>
        market_id (marketB x) = market_id (marketB opp))"
    with c have st: "posts ?w1 = posts w @ [opp]"
      "store ?w1 ?key = Some (CachedAlert (date_now env), call_time env + cooldownMinutes cfg * 60)"
      by (auto simp: Cache_set_def)
    from send_all_in_window [OF st(2), of calls cfg] h
    have "posts (send_all cfg calls ?w1) = posts ?w1" by blast
    with st(1) show "posts (send_all cfg calls ?w1) = posts w @ [opp]" by simp
  qed
  from a b c d e f show ?thesis by blast
qed

theorem C8_sendArbitrageAlert_witness:
  "fst (sendArbitrageAlert demo_alert_config alert_env1 thin_opportunity fresh_world) = Inr () \<and>
   posts (snd (sendArbitrageAlert demo_alert_config alert_env1 thin_opportunity fresh_world)) =
     [thin_opportunity] \<and>
   store (snd (sendArbitrageAlert demo_alert_config alert_env1 thin_opportunity fresh_world))
     ''alert:sent:pm-2:mf-2'' = Some (CachedAlert 1000000, 1600) \<and>
   posts (send_all demo_alert_config [(alert_env2, thin_opportunity)]
            (snd (sendArbitrageAlert demo_alert_config alert_env1 thin_opportunity fresh_world))) =
     [thin_opportunity] \<and>
   store (snd (sendArbitrageAlert demo_alert_config alert_env3 thin_opportunity fresh_world)) =
     Map.empty"
proof -
  let ?w1 = "snd (sendArbitrageAlert demo_alert_config alert_env1 thin_opportunity fresh_world)"
  have en: "enabled demo_alert_config" by (simp add: demo_alert_config_def)
  have nc: "\<not> isInCooldown alert_env1 thin_opportunity fresh_world"
    "\<not> isInCooldown alert_env3 thin_opportunity fresh_world"
    by (simp_all add: isInCooldown_iff fresh_world_def)
  have ps: "post_succeeds demo_alert_config alert_env1"
    by (simp add: post_succeeds_def demo_alert_config_def alert_env1_def)
  have pf: "\<not> post_succeeds demo_alert_config alert_env3"
    by (simp add: post_succeeds_def demo_alert_config_def alert_env3_def)
  have so: "set_ok alert_env1" by (simp add: alert_env1_def)
  have key: "CacheKeys_alertSent (market_id (marketA thin_opportunity))
               (market_id (marketB thin_opportunity)) = ''alert:sent:pm-2:mf-2''"
    by (simp add: CacheKeys_alertSent_def thin_opportunity_def demo_pm2_def demo_mf2_def)
  have calls: "\<forall>(e, x) \<in> set [(alert_env2, thin_opportunity)].
      get_ok e \<and> call_time e < call_time alert_env1 + cooldownMinutes demo_alert_config * 60 \<and>
      market_id (marketA x) = market_id (marketA thin_opportunity) \<and>
      market_id (marketB x) = market_id (marketB thin_opportunity)"
    by (simp add: alert_env1_def alert_env2_def demo_alert_config_def)
  note inst = C8_sendArbitrageAlert [of demo_alert_config alert_env1 thin_opportunity fresh_world
      "[(alert_env2, thin_opportunity)]"]
  from inst have a: "fst (sendArbitrageAlert demo_alert_config alert_env1 thin_opportunity fresh_world) = Inr ()"
    by blast
  from inst en nc(1) ps have b: "posts ?w1 = posts fresh_world @ [thin_opportunity]"
    "store ?w1 = Cache_set (set_ok alert_env1) (call_time alert_env1)
          (CacheKeys_alertSent (market_id (marketA thin_opportunity)) (market_id (marketB thin_opportunity)))
          (CachedAlert (date_now alert_env1)) (cooldownMinutes demo_alert_config * 60) (store fresh_world)"
    by blast+
  from inst en nc(1) ps so calls
  have c: "posts (send_all demo_alert_config [(alert_env2, thin_opportunity)] ?w1) =
      posts fresh_world @ [thin_opportunity]"
    by blast
  from C8_sendArbitrageAlert [of demo_alert_config alert_env3 thin_opportunity fresh_world "[]"]
    en nc(2) pf
  have d: "store (snd (sendArbitrageAlert demo_alert_config alert_env3 thin_opportunity fresh_world)) =
      store fresh_world"
    by blast
  from b(2) have b2: "store ?w1 ''alert:sent:pm-2:mf-2'' = Some (CachedAlert 1000000, 1600)"
    by (simp add: key Cache_set_def alert_env1_def demo_alert_config_def)
  from a b(1) b2 c d show ?thesis by (simp add: fresh_world_def)
qed

subsection \<open>Queue worker\<close>

lemma CacheKeys_markets_eq [simp]: "CacheKeys_markets p = CacheKeys_markets q \<longleftrightarrow> p = q"
  by (simp add: CacheKeys_markets_def)

lemma CacheKeys_markets_other [simp]:
  "CacheKeys_markets p \<noteq> CacheKeys_opportunities"
  "CacheKeys_markets p \<noteq> CacheKeys_scanResults ts"
  "CacheKeys_markets p \<noteq> CacheKeys_alertSent a b"
  by (simp_all add: CacheKeys_markets_def CacheKeys_opportunities_def CacheKeys_scanResults_def
        CacheKeys_alertSent_def)

lemma clean_Cache_set_other:
  "key \<noteq> CacheKeys_markets p \<Longrightarrow>
   markets_key_clean p (Cache_set ok now key v ttl db) = markets_key_clean p db"
  by (simp add: markets_key_clean_def Cache_set_def)

lemma clean_Cache_set_empty:
  "markets_key_clean p (Cache_set ok now (CacheKeys_markets p) (CachedMarkets []) ttl db) \<longleftrightarrow>
     ok \<or> markets_key_clean p db"
  by (simp add: markets_key_clean_def Cache_set_def)

lemma clean_get:
  "markets_key_clean p db \<Longrightarrow>
   Cache_get ok now (CacheKeys_markets p) db = None \<or>
   Cache_get ok now (CacheKeys_markets p) db = Some (CachedMarkets [])"
  by (auto simp: markets_key_clean_def Cache_get_def split: option.splits)

lemma fetch_unsupported:
  assumes "p \<noteq> ''POLYMARKET''" "p \<noteq> ''MANIFOLD''" "markets_key_clean p (store w)"
  shows "fetchMarketsWithCache env p n w =
     (Inr [],
      if Cache_get (fe_get_ok env) (fe_now env) (CacheKeys_markets p) (store w) = None
      then w\<lparr>store := Cache_set (fe_set_ok env) (fe_now env) (CacheKeys_markets p)
                         (CachedMarkets []) 120 (store w)\<rparr>
      else w)"
  using assms clean_get [OF assms(3), of "fe_get_ok env" "fe_now env"]
  by (auto simp: fetchMarketsWithCache_def Let_def deserializeMarkets_def)

lemma fetch_store:
  "store (snd (fetchMarketsWithCache env q n w)) = store w \<or>
   (\<exists>ms. store (snd (fetchMarketsWithCache env q n w)) =
      Cache_set (fe_set_ok env) (fe_now env) (CacheKeys_markets q) (CachedMarkets ms) 120 (store w) \<and>
      fst (fetchMarketsWithCache env q n w) = Inr ms \<and>
      Cache_get (fe_get_ok env) (fe_now env) (CacheKeys_markets q) (store w) = None)"
  by (auto simp: fetchMarketsWithCache_def Let_def
           split: option.splits cache_value.splits sum.splits prod.splits if_splits)

lemma fetch_preserves_clean:
  assumes "p \<noteq> ''POLYMARKET''" "p \<noteq> ''MANIFOLD''" "markets_key_clean p (store w)"
  shows "markets_key_clean p (store (snd (fetchMarketsWithCache env q n w)))"
proof (cases "q = p")
  case True
  with fetch_unsupported [OF assms, of env n] assms(3) show ?thesis
    by (simp add: clean_Cache_set_empty)
next
  case False
  then have "CacheKeys_markets q \<noteq> CacheKeys_markets p" by simp
  with fetch_store [of env q n w] assms(3) show ?thesis
    by (auto simp: clean_Cache_set_other)
qed

lemma send_store:
  "store (snd (sendArbitrageAlert cfg env opp w)) = store w \<or>
   store (snd (sendArbitrageAlert cfg env opp w)) =
     Cache_set (set_ok env) (call_time env)
       (CacheKeys_alertSent (market_id (marketA opp)) (market_id (marketB opp)))
       (CachedAlert (date_now env)) (cooldownMinutes cfg * 60) (store w)"
  by (auto simp: sendArbitrageAlert_def sendArbitrageAlert_try_def sendToDiscord_def
        markAlerted_def Let_def split: fetch_outcome.splits)

lemma send_preserves_clean:
  "markets_key_clean p (store w) \<Longrightarrow>
   markets_key_clean p (store (snd (sendArbitrageAlert cfg env opp w)))"
  using send_store [of cfg env opp w]
  by (auto simp: clean_Cache_set_other [OF CacheKeys_markets_other(3) [symmetric]])

lemma sendAlerts_loop_preserves_clean:
  "markets_key_clean p (store w) \<Longrightarrow>
   markets_key_clean p (store (snd (sendAlerts_loop cfg envs i opps w)))"
proof (induction opps arbitrary: i w)
  case Nil
  then show ?case by simp
next
  case (Cons x opps)
  from send_preserves_clean [OF Cons.prems, of cfg "envs i" x]
  have c: "markets_key_clean p (store (snd (sendArbitrageAlert cfg (envs i) x w)))" .
  show ?case
  proof (cases "sendArbitrageAlert cfg (envs i) x w")
    case (Pair r w1)
    with c have c1: "markets_key_clean p (store w1)" by simp
    show ?thesis
    proof (cases r)
      case (Inl e)
      with Pair c1 show ?thesis by simp
    next
      case (Inr u)
      with Pair Cons.IH [OF c1] show ?thesis by simp
    qed
  qed
qed

lemma sendAlerts_preserves_clean:
  "markets_key_clean p (store w) \<Longrightarrow>
   markets_key_clean p (store (snd (sendAlerts cfg envs opps w)))"
  using sendAlerts_loop_preserves_clean [of p "w\<lparr>logs := logs w @ [LogInfo ''Sending alerts'']\<rparr>"]
  by (simp add: sendAlerts_def)

lemma scan_fetched_preserves_clean:
  assumes "markets_key_clean p (store w)"
  shows "markets_key_clean p (store (snd (scan_fetched cfg env job marketsA marketsB w)))"
proof (cases "findArbitrageOpportunities (calcTime env) (findMatches (scan_lib env) (fuse env) marketsA marketsB)")
  case (Inl e)
  with assms show ?thesis by (simp add: scan_fetched_def Let_def job_failed_def)
next
  case (Inr opps)
  let ?al = "filter (meetsAlertThreshold cfg) opps"
  obtain r w1 where st: "(if 0 < length ?al then sendAlerts cfg (alert_envs env) ?al w
                 else (Inr (), w)) = (r, w1)"
    by (cases "if 0 < length ?al then sendAlerts cfg (alert_envs env) ?al w else (Inr (), w)")
  have "markets_key_clean p (store (snd (if 0 < length ?al then sendAlerts cfg (alert_envs env) ?al w
                 else (Inr (), w))))"
    using assms sendAlerts_preserves_clean [OF assms] by simp
  with st have c1: "markets_key_clean p (store w1)" by simp
  show ?thesis
  proof (cases r)
    case (Inl e)
    with Inr st c1 show ?thesis
      by (simp add: scan_fetched_def Let_def job_failed_def)
  next
    case r: (Inr u)
    with Inr st c1 show ?thesis
      by (simp add: scan_fetched_def Let_def
            clean_Cache_set_other [OF CacheKeys_markets_other(1) [symmetric]]
            clean_Cache_set_other [OF CacheKeys_markets_other(2) [symmetric]])
  qed
qed

lemma processScanJob_preserves_clean:
  assumes "p \<noteq> ''POLYMARKET''" "p \<noteq> ''MANIFOLD''" "markets_key_clean p (store w)"
  shows "markets_key_clean p (store (snd (processScanJob cfg env job w)))"
proof -
  obtain rA wA where A: "fetchMarketsWithCache (envA env) (platformA job) (limit job) w = (rA, wA)"
    by (cases "fetchMarketsWithCache (envA env) (platformA job) (limit job) w")
  obtain rB wB where B: "fetchMarketsWithCache (envB env) (platformB job) (limit job) wA = (rB, wB)"
    by (cases "fetchMarketsWithCache (envB env) (platformB job) (limit job) wA")
  from fetch_preserves_clean [OF assms, of "envA env" "platformA job" "limit job"] A
  have cA: "markets_key_clean p (store wA)" by simp
  from fetch_preserves_clean [OF assms(1,2) cA, of "envB env" "platformB job" "limit job"] B
  have cB: "markets_key_clean p (store wB)" by simp
  show ?thesis
    using A B cB scan_fetched_preserves_clean [OF cB]
    by (auto simp: processScanJob_def job_failed_def split: sum.splits)
qed

lemma reachable_clean:
  assumes "reachable w" and "p \<noteq> ''POLYMARKET''" "p \<noteq> ''MANIFOLD''"
  shows "markets_key_clean p (store w)"
  using assms
proof (induction rule: reachable.induct)
  case (fresh w)
  then show ?case by (simp add: markets_key_clean_def)
next
  case (scan w cfg env job)
  then show ?case by (simp add: processScanJob_preserves_clean)
next
  case (fetch w fenv q n)
  then show ?case by (simp add: fetch_preserves_clean)
next
  case (alert w cfg aenv opp)
  then show ?case by (simp add: send_preserves_clean)
next
  case (expire w key)
  then show ?case by (auto simp: markets_key_clean_def split: option.splits)
qed

lemma preFilterCandidates_Nil [simp]: "preFilterCandidates lib a [] = []"
  by (simp add: preFilterCandidates_def)

lemma findMatches_no_candidates [simp]: "findMatches lib search marketsA [] = []"
  by (induction marketsA) simp_all

lemma findArbitrageOpportunities_Nil [simp]: "findArbitrageOpportunities now [] = Inr []"
  by (simp add: findArbitrageOpportunities_def)

lemma scan_fetched_empty:
  assumes "marketsA = [] \<or> marketsB = []"
  shows "\<exists>result. scan_fetched cfg env job marketsA marketsB w =
           (Inr result,
            w\<lparr>store := Cache_set (results_set_ok env) (cache_now env)
                         (CacheKeys_scanResults (resultTime_string env)) (CachedScan result) 3600
                         (Cache_set (latest_set_ok env) (cache_now env) CacheKeys_opportunities
                            (CachedScan result) 120 (store w))\<rparr>) \<and>
           sr_opportunities result = [] \<and> matchesFound result = 0 \<and>
           marketsScanned result =
             (Map.empty(platformA job \<mapsto> length marketsA))(platformB job \<mapsto> length marketsB)"
proof -
  from assms have "findMatches (scan_lib env) (fuse env) marketsA marketsB = []" by auto
  then show ?thesis by (simp add: scan_fetched_def Let_def)
qed

text \<open>
  Claim C4. For a platform that is neither \<open>POLYMARKET\<close> nor \<open>MANIFOLD\<close> (the scheduler's
  recurring jobs name \<open>KALSHI\<close>), in every state of the Redis server that the program
  produces from an empty one, \<open>fetchMarketsWithCache\<close> invokes no adapter and returns the
  empty list; on a cache miss it writes the empty list to \<open>markets:<P>\<close> with TTL 120
  seconds, and on a hit it reads back the empty list that an earlier call wrote. A scan
  job with such a platform on either side issues no alert and, when it completes, reports
  zero markets for that platform, zero matches and no opportunity.
\<close>

theorem C4_unsupported_platform:
  assumes "p \<noteq> ''POLYMARKET''" and "p \<noteq> ''MANIFOLD''" and "reachable w"
  shows "fst (fetchMarketsWithCache fenv p n w) = Inr [] \<and>
         adapter_calls (snd (fetchMarketsWithCache fenv p n w)) = adapter_calls w \<and>
         (Cache_get (fe_get_ok fenv) (fe_now fenv) (CacheKeys_markets p) (store w) = None \<longrightarrow>
            store (snd (fetchMarketsWithCache fenv p n w)) =
              Cache_set (fe_set_ok fenv) (fe_now fenv) (CacheKeys_markets p)
                (CachedMarkets []) 120 (store w)) \<and>
         (Cache_get (fe_get_ok fenv) (fe_now fenv) (CacheKeys_markets p) (store w) \<noteq> None \<longrightarrow>
            Cache_get (fe_get_ok fenv) (fe_now fenv) (CacheKeys_markets p) (store w) =
              Some (CachedMarkets []) \<and>
            store (snd (fetchMarketsWithCache fenv p n w)) = store w) \<and>
         (platformA job = p \<or> platformB job = p \<longrightarrow>
            posts (snd (processScanJob cfg env job w)) = posts w \<and>
            (\<forall>result. fst (processScanJob cfg env job w) = Inr result \<longrightarrow>
               sr_opportunities result = [] \<and> matchesFound result = 0 \<and>
               marketsScanned result p = Some 0))"
proof -
  note clean = reachable_clean [OF assms(3) assms(1,2)]
  note fu = fetch_unsupported [OF assms(1,2) clean, of fenv n]
  have one: "fst (fetchMarketsWithCache fenv p n w) = Inr [] \<and>
         adapter_calls (snd (fetchMarketsWithCache fenv p n w)) = adapter_calls w \<and>
         (Cache_get (fe_get_ok fenv) (fe_now fenv) (CacheKeys_markets p) (store w) = None \<longrightarrow>
            store (snd (fetchMarketsWithCache fenv p n w)) =
              Cache_set (fe_set_ok fenv) (fe_now fenv) (CacheKeys_markets p)
                (CachedMarkets []) 120 (store w)) \<and>
         (Cache_get (fe_get_ok fenv) (fe_now fenv) (CacheKeys_markets p) (store w) \<noteq> None \<longrightarrow>
            Cache_get (fe_get_ok fenv) (fe_now fenv) (CacheKeys_markets p) (store w) =
              Some (CachedMarkets []) \<and>
            store (snd (fetchMarketsWithCache fenv p n w)) = store w)"
    using fu clean_get [OF clean, of "fe_get_ok fenv" "fe_now fenv"] by auto
  have two: "posts (snd (processScanJob cfg env job w)) = posts w \<and>
            (\<forall>result. fst (processScanJob cfg env job w) = Inr result \<longrightarrow>
               sr_opportunities result = [] \<and> matchesFound result = 0 \<and>
               marketsScanned result p = Some 0)"
    if pj: "platformA job = p \<or> platformB job = p"
  proof -
    obtain rA wA where A: "fetchMarketsWithCache (envA env) (platformA job) (limit job) w = (rA, wA)"
      by (cases "fetchMarketsWithCache (envA env) (platformA job) (limit job) w")
    obtain rB wB where B: "fetchMarketsWithCache (envB env) (platformB job) (limit job) wA = (rB, wB)"
      by (cases "fetchMarketsWithCache (envB env) (platformB job) (limit job) wA")
    have pA: "posts wA = posts w"
      using A by (auto simp: fetchMarketsWithCache_def Let_def
          split: option.splits cache_value.splits sum.splits prod.splits if_splits)
    have pB: "posts wB = posts wA"
      using B by (auto simp: fetchMarketsWithCache_def Let_def
          split: option.splits cache_value.splits sum.splits prod.splits if_splits)
    from fetch_preserves_clean [OF assms(1,2) clean, of "envA env" "platformA job" "limit job"] A
    have cA: "markets_key_clean p (store wA)" by simp
    have eA: "rA = Inr []" if "platformA job = p"
      using fetch_unsupported [OF assms(1,2) clean, of "envA env" "limit job"] A that by simp
    have eB: "rB = Inr []" if "platformB job = p"
      using fetch_unsupported [OF assms(1,2) cA, of "envB env" "limit job"] B that by simp
    show ?thesis
    proof (cases rA)
      case (Inl e)
      with A B pA pB show ?thesis by (simp add: processScanJob_def job_failed_def)
    next
      case a: (Inr marketsA)
      show ?thesis
      proof (cases rB)
        case (Inl e)
        with a A B pA pB show ?thesis by (simp add: processScanJob_def job_failed_def)
      next
        case b: (Inr marketsB)
        from pj eA eB a b have em: "marketsA = [] \<or> marketsB = []" by auto
        from scan_fetched_empty [OF em, of cfg env job wB] obtain result where
          r: "scan_fetched cfg env job marketsA marketsB wB =
               (Inr result,
                wB\<lparr>store := Cache_set (results_set_ok env) (cache_now env)
                         (CacheKeys_scanResults (resultTime_string env)) (CachedScan result) 3600
                         (Cache_set (latest_set_ok env) (cache_now env) CacheKeys_opportunities
                            (CachedScan result) 120 (store wB))\<rparr>)"
            "sr_opportunities result = []" "matchesFound result = 0"
            "marketsScanned result =
               (Map.empty(platformA job \<mapsto> length marketsA))(platformB job \<mapsto> length marketsB)"
          by blast
        have ps: "processScanJob cfg env job w = scan_fetched cfg env job marketsA marketsB wB"
          using A B a b by (simp add: processScanJob_def)
        have ms: "marketsScanned result p = Some 0"
          using r(4) pj eA eB a b by auto
        from ps r ms pA pB show ?thesis by simp
      qed
    qed
  qed
  from one two show ?thesis by blast
qed

theorem C4_unsupported_platform_witness:
  "fst (fetchMarketsWithCache demo_fetch_env ''KALSHI'' 100 fresh_world) = Inr [] \<and>
   adapter_calls (snd (fetchMarketsWithCache demo_fetch_env ''KALSHI'' 100 fresh_world)) = [] \<and>
   store (snd (fetchMarketsWithCache demo_fetch_env ''KALSHI'' 100 fresh_world)) ''markets:KALSHI'' =
     Some (CachedMarkets [], 5120) \<and>
   (\<exists>result. fst (processScanJob demo_alert_config demo_scan_env kalshi_job fresh_world) = Inr result \<and>
      sr_opportunities result = [] \<and> matchesFound result = 0 \<and>
      marketsScanned result ''KALSHI'' = Some 0 \<and>
      marketsScanned result ''POLYMARKET'' = Some 2) \<and>
   adapter_calls (snd (processScanJob demo_alert_config demo_scan_env kalshi_job fresh_world)) =
     [''POLYMARKET'']"
proof -
  have r: "reachable fresh_world" by (rule reachable.fresh) (simp add: fresh_world_def)
  have k: "''KALSHI'' \<noteq> ''POLYMARKET''" "''KALSHI'' \<noteq> ''MANIFOLD''" by simp_all
  note inst = C4_unsupported_platform [OF k r, of demo_fetch_env 100 kalshi_job
      demo_alert_config demo_scan_env]
  have miss: "Cache_get (fe_get_ok demo_fetch_env) (fe_now demo_fetch_env)
      (CacheKeys_markets ''KALSHI'') (store fresh_world) = None"
    by (simp add: Cache_get_def fresh_world_def)
  from inst miss have a: "fst (fetchMarketsWithCache demo_fetch_env ''KALSHI'' 100 fresh_world) = Inr []"
    "adapter_calls (snd (fetchMarketsWithCache demo_fetch_env ''KALSHI'' 100 fresh_world)) =
       adapter_calls fresh_world"
    "store (snd (fetchMarketsWithCache demo_fetch_env ''KALSHI'' 100 fresh_world)) =
       Cache_set (fe_set_ok demo_fetch_env) (fe_now demo_fetch_env) (CacheKeys_markets ''KALSHI'')
         (CachedMarkets []) 120 (store fresh_world)"
    by blast+
  let ?res = "\<lparr>sr_timestamp = 5000200, sr_opportunities = [],
      marketsScanned = (Map.empty(''KALSHI'' \<mapsto> 0))(''POLYMARKET'' \<mapsto> 2),
      matchesFound = 0, duration = 200\<rparr>"
  have run: "fst (processScanJob demo_alert_config demo_scan_env kalshi_job fresh_world) = Inr ?res \<and>
      adapter_calls (snd (processScanJob demo_alert_config demo_scan_env kalshi_job fresh_world)) =
        [''POLYMARKET'']"
    by (simp add: processScanJob_def fetchMarketsWithCache_def scan_fetched_def Let_def
          demo_scan_env_def demo_fetch_env_def kalshi_job_def fresh_world_def
          Cache_get_def Cache_set_def CacheKeys_markets_def numeral_2_eq_2)
  have "platformA kalshi_job = ''KALSHI''" by (simp add: kalshi_job_def)
  with inst run have b: "sr_opportunities ?res = [] \<and> matchesFound ?res = 0 \<and>
      marketsScanned ?res ''KALSHI'' = Some 0"
    by blast
  have c: "marketsScanned ?res ''POLYMARKET'' = Some 2" by simp
  from a(3) have d: "store (snd (fetchMarketsWithCache demo_fetch_env ''KALSHI'' 100 fresh_world))
      ''markets:KALSHI'' = Some (CachedMarkets [], 5120)"
    by (simp add: Cache_set_def demo_fetch_env_def CacheKeys_markets_def)
  from a(1,2) d run b c show ?thesis by (auto simp: fresh_world_def)
qed

end
